(* ===== verification/Go_Prelude.thy ===== *)
theory Go_Prelude
  imports Complex_Main "HOL-Library.List_Lexorder" "HOL-Library.Char_ord" "HOL-Library.AList"
    "HOL-Library.Signed_Division" "HOL-Library.State_Monad" "HOL-Library.Monad_Syntax"
    "HOL-Library.Multiset"
begin

text \<open>
  Go runtime notions shared by every component of the development: errors as values, machine
  integers of 64 bits, durations and instants, slices and maps, byte strings with the functions
  of the packages \<^verbatim>\<open>strings\<close> and \<^verbatim>\<open>strconv\<close> the sources call, and the state monad in which code that
  talks to the outside world is written.

  \<^item> A Go string is a sequence of bytes and a HOL \<open>char\<close> is a byte, so \<open>string\<close> is used as it is;
    the bytewise lexicographic order of Go's \<^verbatim>\<open>sort.Strings\<close> is the order of \<open>List_Lexorder\<close> over
    \<open>Char_ord\<close>.
  \<^item> A slice or a map may be nil. Both are optional lists, \<open>None\<close> for nil; the list of a map is
    one order in which a \<^verbatim>\<open>range\<close> loop may visit it, so a theorem for every list covers every
    order.
  \<^item> Integers of type \<^verbatim>\<open>int\<close>, \<^verbatim>\<open>int64\<close> and \<^verbatim>\<open>time.Duration\<close> are \<open>int\<close>, and an operation of the
    sources that can leave the range wraps its result with \<open>int64\<close>.
\<close>

section \<open>Collections of facts\<close>

named_theorems go_str \<open>facts on the string functions\<close>
named_theorems go_eval \<open>equations that evaluate the runtime functions on literals\<close>
named_theorems always_intro \<open>rules for the results of monadic programs\<close>

section \<open>Errors\<close>

text \<open>
  \<^verbatim>\<open>fmt.Errorf\<close> keeps its format and its operands, so two errors are equal exactly when the call
  site's format and its values are; \<^verbatim>\<open>%w\<close> wraps an error as an operand. \<open>SysErr\<close> is an error that
  comes from outside the repository, with its message.
\<close>

datatype goerr = Errorf string "fmtarg list" | SysErr string
  and fmtarg = FStr string | FInt int | FErr goerr

type_synonym 'a res = "goerr + 'a"

text \<open>
  A sequence of checks that each return early: \<open>first_err\<close> is the error of the first one that
  fails, \<open>errif b e\<close> a check that fails with \<open>e\<close> if \<open>b\<close>, and \<open>wrapf\<close> wraps an error with \<^verbatim>\<open>%w\<close>.
\<close>

fun first_err :: "goerr option list \<Rightarrow> goerr option" where
  "first_err [] = None"
| "first_err (Some e # es) = Some e"
| "first_err (None # es) = first_err es"

definition errif :: "bool \<Rightarrow> goerr \<Rightarrow> goerr option" where
  "errif b e = (if b then Some e else None)"

definition wrapf :: "string \<Rightarrow> fmtarg list \<Rightarrow> goerr option \<Rightarrow> goerr option" where
  "wrapf fmt args e = map_option (\<lambda>e. Errorf fmt (args @ [FErr e])) e"

definition if_err :: "goerr option \<Rightarrow> 'a res \<Rightarrow> 'a res" where
  "if_err e k = (case e of None \<Rightarrow> k | Some e \<Rightarrow> Inl e)"

lemma first_err_None [simp]: "first_err es = None \<longleftrightarrow> list_all (\<lambda>e. e = None) es"
  by (induction es rule: first_err.induct) auto

lemma first_err_errif [go_eval]: "first_err (errif b e # es) = (if b then Some e else first_err es)"
  by (simp add: errif_def)

lemma errif_None [simp]: "errif b e = None \<longleftrightarrow> \<not> b"
  by (simp add: errif_def)

lemma wrapf_None [simp]: "wrapf fmt args e = None \<longleftrightarrow> e = None" "wrapf fmt args None = None"
  by (auto simp: wrapf_def)

lemma if_err_Inr [simp]: "if_err e k = Inr x \<longleftrightarrow> e = None \<and> k = Inr x"
  by (simp add: if_err_def split: option.splits)

lemma if_err_simps [simp]: "if_err None k = k" "if_err (Some e) k = Inl e"
  by (simp_all add: if_err_def)

section \<open>Integers of 64 bits and durations\<close>

definition int64 :: "int \<Rightarrow> int" where
  "int64 x = (x + 2 ^ 63) mod 2 ^ 64 - 2 ^ 63"

definition in_int64 :: "int \<Rightarrow> bool" where
  "in_int64 x \<longleftrightarrow> - (2 ^ 63) \<le> x \<and> x < 2 ^ 63"

lemma int64_id [simp]: "in_int64 x \<Longrightarrow> int64 x = x"
  by (simp add: int64_def in_int64_def)

lemma in_int64_int64 [simp]: "in_int64 (int64 x)"
proof -
  have "0 \<le> (x + 2 ^ 63) mod 2 ^ 64" and "(x + 2 ^ 63) mod 2 ^ 64 < 2 ^ 64"
    by simp_all
  then show ?thesis by (simp add: int64_def in_int64_def)
qed

lemma int64_int64 [simp]: "int64 (int64 x) = int64 x"
  by simp

type_synonym duration = int

definition Second :: duration where "Second = 1000000000"
definition Millisecond :: duration where "Millisecond = 1000000"

text \<open>\<^verbatim>\<open>Duration.Seconds\<close>: the value of the float without its rounding.\<close>

definition dur_Seconds :: "duration \<Rightarrow> real" where
  "dur_Seconds d = of_int d / 1000000000"

text \<open>
  An instant is the number of nanoseconds since the zero value of \<^verbatim>\<open>time.Time\<close> (1 January of
  year 1), so \<^verbatim>\<open>IsZero\<close> is equality with 0; \<^verbatim>\<open>Sub\<close> saturates at the bounds of a duration.
\<close>

type_synonym gotime = int

definition IsZero :: "gotime \<Rightarrow> bool" where "IsZero t \<longleftrightarrow> t = 0"

definition time_Sub :: "gotime \<Rightarrow> gotime \<Rightarrow> duration" where
  "time_Sub t u = max (- (2 ^ 63)) (min (2 ^ 63 - 1) (t - u))"

lemma in_int64_time_Sub [simp]: "in_int64 (time_Sub t u)"
  by (auto simp: time_Sub_def in_int64_def)

section \<open>Slices and maps\<close>

type_synonym 'a slice = "'a list option"
type_synonym 'v gomap = "(string \<times> 'v) list option"

fun elems :: "'a list option \<Rightarrow> 'a list" where
  "elems None = []"
| "elems (Some xs) = xs"

definition slen :: "'a list option \<Rightarrow> int" where
  "slen s = int (length (elems s))"

lemma slen_pos [simp]: "0 < slen s \<longleftrightarrow> elems s \<noteq> []" "slen s = 0 \<longleftrightarrow> elems s = []"
  by (auto simp: slen_def)

lemma slen_nonneg [simp]: "0 \<le> slen s"
  by (simp add: slen_def)

definition mget :: "'v gomap \<Rightarrow> string \<Rightarrow> 'v option" where
  "mget m k = map_of (elems m) k"

definition mput :: "'v gomap \<Rightarrow> string \<Rightarrow> 'v \<Rightarrow> 'v gomap" where
  "mput m k v = Some (AList.update k v (elems m))"

definition mkeys :: "'v gomap \<Rightarrow> string list" where
  "mkeys m = map fst (elems m)"

definition mok :: "'v gomap \<Rightarrow> bool" where
  "mok m \<longleftrightarrow> distinct (mkeys m)"

lemma mget_mput [simp]: "mget (mput m k v) k' = (if k' = k then Some v else mget m k')"
  by (simp add: mget_def mput_def update_conv')

lemma mkeys_mput: "set (mkeys (mput m k v)) = insert k (set (mkeys m))"
  by (auto simp: mkeys_def mput_def dom_update)

lemma mok_mput [simp]: "mok m \<Longrightarrow> mok (mput m k v)"
  by (simp add: mok_def mkeys_def mput_def distinct_update)

lemma mget_None_iff: "mget m k = None \<longleftrightarrow> k \<notin> set (mkeys m)"
  by (simp add: mget_def mkeys_def map_of_eq_None_iff)

lemma sort_eq_iff: "sort xs = sort ys \<longleftrightarrow> mset xs = mset ys"
proof
  assume "sort xs = sort ys"
  then have "mset (sort xs) = mset (sort ys)" by simp
  then show "mset xs = mset ys" by simp
next
  assume "mset xs = mset ys"
  then show "sort xs = sort ys" by (intro properties_for_sort) simp_all
qed

section \<open>Strings\<close>

fun HasPrefix :: "string \<Rightarrow> string \<Rightarrow> bool" where
  "HasPrefix s [] = True"
| "HasPrefix [] (c # p) = False"
| "HasPrefix (d # s) (c # p) = (d = c \<and> HasPrefix s p)"

definition HasSuffix :: "string \<Rightarrow> string \<Rightarrow> bool" where
  "HasSuffix s p = HasPrefix (rev s) (rev p)"

fun Contains :: "string \<Rightarrow> string \<Rightarrow> bool" where
  "Contains [] p = (p = [])"
| "Contains (c # s) p = (HasPrefix (c # s) p \<or> Contains s p)"

definition ContainsAny :: "string \<Rightarrow> string \<Rightarrow> bool" where
  "ContainsAny s chars = list_ex (\<lambda>c. c \<in> set chars) s"

definition TrimRight :: "string \<Rightarrow> string \<Rightarrow> string" where
  "TrimRight s cutset = rev (dropWhile (\<lambda>c. c \<in> set cutset) (rev s))"

definition TrimSuffix :: "string \<Rightarrow> string \<Rightarrow> string" where
  "TrimSuffix s p = (if HasSuffix s p then take (length s - length p) s else s)"

text \<open>
  \<^verbatim>\<open>ToLower\<close> and \<^verbatim>\<open>TrimSpace\<close> on ASCII; the case mapping and the spaces beyond ASCII are not
  modelled (the strings lowered and trimmed here are host names, schemes and DNS records).
\<close>

definition lower_char :: "char \<Rightarrow> char" where
  "lower_char c = (let n = of_char c :: nat in if 65 \<le> n \<and> n \<le> 90 then char_of (n + 32) else c)"

definition ToLower :: "string \<Rightarrow> string" where
  "ToLower s = map lower_char s"

definition is_space :: "char \<Rightarrow> bool" where
  "is_space c = (let n = of_char c :: nat in n = 32 \<or> (9 \<le> n \<and> n \<le> 13))"

definition TrimSpace :: "string \<Rightarrow> string" where
  "TrimSpace s = rev (dropWhile is_space (rev (dropWhile is_space s)))"

lemma HasPrefix_iff [go_str]: "HasPrefix s p \<longleftrightarrow> (\<exists>t. s = p @ t)"
  by (induction s p rule: HasPrefix.induct) auto

lemma HasSuffix_iff [go_str]: "HasSuffix s p \<longleftrightarrow> (\<exists>t. s = t @ p)"
proof -
  have "HasSuffix s p \<longleftrightarrow> (\<exists>t. rev s = rev p @ t)"
    by (simp add: HasSuffix_def HasPrefix_iff)
  also have "\<dots> \<longleftrightarrow> (\<exists>t. s = rev t @ p)"
    by (metis rev_append rev_rev_ident)
  also have "\<dots> \<longleftrightarrow> (\<exists>t. s = t @ p)"
    by (metis rev_rev_ident)
  finally show ?thesis .
qed

lemma Contains_iff [go_str]: "Contains s p \<longleftrightarrow> (\<exists>a b. s = a @ p @ b)"
proof (induction s p rule: Contains.induct)
  case (1 p)
  then show ?case by auto
next
  case (2 c s p)
  have "(\<exists>a b. c # s = a @ p @ b) \<longleftrightarrow> (\<exists>b. c # s = p @ b) \<or> (\<exists>a b. s = a @ p @ b)"
    by (metis append_Cons append_Nil neq_Nil_conv list.inject)
  with 2 show ?case by (simp add: HasPrefix_iff)
qed

lemma lower_char_idem [simp]: "lower_char (lower_char c) = lower_char c"
proof (cases "65 \<le> (of_char c :: nat) \<and> (of_char c :: nat) \<le> 90")
  case True
  then have "(of_char c :: nat) + 32 < 256" by simp
  then have "(of_char (char_of (of_char c + 32 :: nat)) :: nat) = of_char c + 32"
    by simp
  with True show ?thesis by (simp add: lower_char_def Let_def)
next
  case False
  then have "lower_char c = c" by (auto simp: lower_char_def Let_def)
  then show ?thesis by simp
qed

lemma ToLower_idem [simp]: "ToLower (ToLower s) = ToLower s"
  by (simp add: ToLower_def)

lemma ToLower_Nil_iff [simp]: "ToLower s = [] \<longleftrightarrow> s = []"
  by (simp add: ToLower_def)

subsection \<open>Decimal numbers\<close>

definition digit_val :: "char \<Rightarrow> nat option" where
  "digit_val c = (let n = of_char c :: nat in if 48 \<le> n \<and> n \<le> 57 then Some (n - 48) else None)"

fun digits_acc :: "nat \<Rightarrow> string \<Rightarrow> nat option" where
  "digits_acc a [] = Some a"
| "digits_acc a (c # s) =
     (case digit_val c of None \<Rightarrow> None | Some d \<Rightarrow> digits_acc (10 * a + d) s)"

text \<open>\<^verbatim>\<open>strconv.Atoi\<close>: an optional sign, at least one decimal digit, the range of 64 bits.\<close>

definition Atoi :: "string \<Rightarrow> int option" where
  "Atoi s =
     (let neg = HasPrefix s ''-'';
          ds = (if HasPrefix s ''-'' \<or> HasPrefix s ''+'' then tl s else s)
      in if ds = [] then None
         else case digits_acc 0 ds of
           None \<Rightarrow> None
         | Some n \<Rightarrow> (let v = (if neg then - int n else int n) in if in_int64 v then Some v else None))"

lemma Atoi_Nil [simp]: "Atoi [] = None"
  by (simp add: Atoi_def)

fun nat_digits :: "nat \<Rightarrow> string" where
  "nat_digits n =
     (if n < 10 then [char_of (48 + n)] else nat_digits (n div 10) @ [char_of (48 + n mod 10)])"

declare nat_digits.simps [simp del]

definition Itoa :: "int \<Rightarrow> string" where
  "Itoa i = (if i < 0 then ''-'' @ nat_digits (nat (- i)) else nat_digits (nat i))"

lemma digit_val_char_of: "n < 10 \<Longrightarrow> digit_val (char_of (48 + n)) = Some n"
proof -
  assume "n < 10"
  then have "(of_char (char_of (48 + n :: nat)) :: nat) = 48 + n" by simp
  with \<open>n < 10\<close> show ?thesis by (simp add: digit_val_def Let_def)
qed

lemma digits_acc_append:
  "digits_acc a (s @ t) = (case digits_acc a s of None \<Rightarrow> None | Some b \<Rightarrow> digits_acc b t)"
  by (induction s arbitrary: a) (auto split: option.splits)

lemma digits_acc_nat_digits: "digits_acc 0 (nat_digits n) = Some n"
proof (induction n rule: nat_digits.induct)
  case (1 n)
  show ?case
  proof (cases "n < 10")
    case True
    then show ?thesis by (simp add: nat_digits.simps [of n] digit_val_char_of)
  next
    case False
    with "1.IH" have "digits_acc 0 (nat_digits (n div 10)) = Some (n div 10)" by simp
    with False show ?thesis
      by (simp add: nat_digits.simps [of n] digits_acc_append digit_val_char_of)
  qed
qed

lemma nat_digits_nonempty [simp]: "nat_digits n \<noteq> []"
  by (subst nat_digits.simps) simp

lemma Itoa_nonempty [simp]: "Itoa i \<noteq> []"
  by (simp add: Itoa_def)

lemma hd_nat_digits: "48 \<le> (of_char (hd (nat_digits n)) :: nat)"
proof (induction n rule: nat_digits.induct)
  case (1 n)
  show ?case
  proof (cases "n < 10")
    case True
    then have "(of_char (char_of (48 + n :: nat)) :: nat) = 48 + n" by simp
    with True show ?thesis by (simp add: nat_digits.simps [of n])
  next
    case False
    with 1 show ?thesis by (simp add: nat_digits.simps [of n])
  qed
qed

lemma nat_digits_no_sign:
  "\<not> HasPrefix (nat_digits n) ''-''" "\<not> HasPrefix (nat_digits n) ''+''"
  using hd_nat_digits [of n] by (auto simp: HasPrefix_iff)

text \<open>\<^verbatim>\<open>Atoi\<close> reads back what \<^verbatim>\<open>Itoa\<close> prints.\<close>

lemma Atoi_Itoa [simp]: "in_int64 i \<Longrightarrow> Atoi (Itoa i) = Some i"
  using nat_digits_no_sign
  by (auto simp: Atoi_def Itoa_def Let_def digits_acc_nat_digits)

lemmas string_eval [go_eval] =
  HasSuffix_def ContainsAny_def TrimRight_def TrimSuffix_def lower_char_def ToLower_def is_space_def
  TrimSpace_def digit_val_def Atoi_def Itoa_def nat_digits.simps in_int64_def int64_def slen_def
  mget_def mput_def mkeys_def mok_def Let_def char_of_def bit_Suc_0_iff

section \<open>Programs over an outside world\<close>

text \<open>
  Code that reads the clock, the context or the network is a program of the state monad over a
  world \<open>'w\<close>; the calls themselves are parameters. \<open>always m P\<close> says that every result of the
  program \<open>m\<close>, from every world, satisfies \<open>P\<close>.
\<close>

type_synonym ('w, 'a) io = "('w, 'a) state"

abbreviation ret :: "'a \<Rightarrow> ('w, 'a) io" where "ret \<equiv> State_Monad.return"

definition always :: "('w, 'a) io \<Rightarrow> ('a \<Rightarrow> bool) \<Rightarrow> bool" where
  "always m P \<longleftrightarrow> (\<forall>w. P (fst (run_state m w)))"

lemma always_ret [always_intro]: "P x \<Longrightarrow> always (ret x) P"
  by (simp add: always_def)

lemma always_bind:
  "always m Q \<Longrightarrow> (\<And>x. Q x \<Longrightarrow> always (f x) P) \<Longrightarrow> always (State_Monad.bind m f) P"
  by (auto simp: always_def split: prod.splits) (metis fst_conv)

lemma always_if [always_intro]:
  "(b \<Longrightarrow> always m P) \<Longrightarrow> (\<not> b \<Longrightarrow> always n P) \<Longrightarrow> always (if b then m else n) P"
  by simp

lemma always_Let [always_intro]: "(\<And>x. x = v \<Longrightarrow> always (f x) P) \<Longrightarrow> always (Let v f) P"
  by (simp add: Let_def)

lemma always_case_sum [always_intro]:
  "(\<And>a. x = Inl a \<Longrightarrow> always (f a) P) \<Longrightarrow> (\<And>b. x = Inr b \<Longrightarrow> always (g b) P) \<Longrightarrow>
     always (case x of Inl a \<Rightarrow> f a | Inr b \<Rightarrow> g b) P"
  by (cases x) simp_all

lemma always_case_option [always_intro]:
  "(x = None \<Longrightarrow> always m P) \<Longrightarrow> (\<And>a. x = Some a \<Longrightarrow> always (f a) P) \<Longrightarrow>
     always (case x of None \<Rightarrow> m | Some a \<Rightarrow> f a) P"
  by (cases x) simp_all

lemma always_case_prod [always_intro]:
  "(\<And>a b. x = (a, b) \<Longrightarrow> always (f a b) P) \<Longrightarrow> always (case x of (a, b) \<Rightarrow> f a b) P"
  by (cases x) simp_all

lemma always_mono: "always m P \<Longrightarrow> (\<And>x. P x \<Longrightarrow> Q x) \<Longrightarrow> always m Q"
  by (simp add: always_def)

lemma always_True [simp]: "always m (\<lambda>_. True)"
  by (simp add: always_def)

lemma always_conj: "always m (\<lambda>x. P x \<and> Q x) \<longleftrightarrow> always m P \<and> always m Q"
  by (auto simp: always_def)

lemma always_bindT [always_intro]:
  "(\<And>x. always (f x) P) \<Longrightarrow> always (State_Monad.bind m f) P"
  by (rule always_bind [where Q = "\<lambda>_. True"]) simp_all

lemma alwaysD: "always m P \<Longrightarrow> P (fst (run_state m w))"
  by (simp add: always_def)

text \<open>
  \<open>triple P m Q\<close>: from a world that satisfies \<open>P\<close>, the program \<open>m\<close> ends with a result and a world
  that satisfy \<open>Q\<close>.
\<close>

definition triple :: "('w \<Rightarrow> bool) \<Rightarrow> ('w, 'a) io \<Rightarrow> ('a \<Rightarrow> 'w \<Rightarrow> bool) \<Rightarrow> bool" where
  "triple P m Q \<longleftrightarrow> (\<forall>w. P w \<longrightarrow> Q (fst (run_state m w)) (snd (run_state m w)))"

named_theorems triple_intro \<open>rules for Hoare triples of monadic programs\<close>

lemma triple_ret [triple_intro]: "(\<And>w. P w \<Longrightarrow> Q x w) \<Longrightarrow> triple P (ret x) Q"
  by (simp add: triple_def)

lemma triple_bind: "triple P m R \<Longrightarrow> (\<And>x. triple (R x) (f x) Q) \<Longrightarrow> triple P (State_Monad.bind m f) Q"
  by (auto simp: triple_def split: prod.splits)

lemma triple_if [triple_intro]:
  "(b \<Longrightarrow> triple P m Q) \<Longrightarrow> (\<not> b \<Longrightarrow> triple P n Q) \<Longrightarrow> triple P (if b then m else n) Q"
  by simp

lemma triple_Let [triple_intro]: "(\<And>x. x = v \<Longrightarrow> triple P (f x) Q) \<Longrightarrow> triple P (Let v f) Q"
  by (simp add: Let_def)

lemma triple_case_sum [triple_intro]:
  "(\<And>a. x = Inl a \<Longrightarrow> triple P (f a) Q) \<Longrightarrow> (\<And>b. x = Inr b \<Longrightarrow> triple P (g b) Q) \<Longrightarrow>
     triple P (case x of Inl a \<Rightarrow> f a | Inr b \<Rightarrow> g b) Q"
  by (cases x) simp_all

lemma triple_case_option [triple_intro]:
  "(x = None \<Longrightarrow> triple P m Q) \<Longrightarrow> (\<And>a. x = Some a \<Longrightarrow> triple P (f a) Q) \<Longrightarrow>
     triple P (case x of None \<Rightarrow> m | Some a \<Rightarrow> f a) Q"
  by (cases x) simp_all

lemma triple_case_prod [triple_intro]:
  "(\<And>a b. x = (a, b) \<Longrightarrow> triple P (f a b) Q) \<Longrightarrow> triple P (case x of (a, b) \<Rightarrow> f a b) Q"
  by (cases x) simp_all

lemma triple_conseq:
  "triple P' m Q' \<Longrightarrow> (\<And>w. P w \<Longrightarrow> P' w) \<Longrightarrow> (\<And>x w. Q' x w \<Longrightarrow> Q x w) \<Longrightarrow> triple P m Q"
  by (simp add: triple_def)

lemma tripleD: "triple P m Q \<Longrightarrow> P w \<Longrightarrow> Q (fst (run_state m w)) (snd (run_state m w))"
  by (simp add: triple_def)

lemma triple_pure: "(F \<Longrightarrow> triple P m Q) \<Longrightarrow> triple (\<lambda>w. F \<and> P w) m Q"
  by (auto simp: triple_def)

lemma triple_always: "triple P m Q \<Longrightarrow> always m A \<Longrightarrow> triple P m (\<lambda>x w. A x \<and> Q x w)"
  by (simp add: triple_def always_def)

lemma triple_false [simp]: "triple (\<lambda>_. False) m Q"
  by (simp add: triple_def)

end
