(* ===== verification/Go_Net.thy ===== *)
theory Go_Net
  imports Go_Prelude
begin

text \<open>
  The functions of the packages \<^verbatim>\<open>net\<close> and \<^verbatim>\<open>unicode\<close> that the sources call on addresses and
  paths: \<^verbatim>\<open>net.SplitHostPort\<close>, \<^verbatim>\<open>net.JoinHostPort\<close>, \<^verbatim>\<open>net.ParseIP\<close> with \<^verbatim>\<open>IP.To4\<close>, and the runes of a
  string with the classes \<^verbatim>\<open>unicode.IsSpace\<close> and \<^verbatim>\<open>unicode.IsControl\<close>.
\<close>

section \<open>Host and port\<close>

text \<open>
  \<open>before_last c s\<close> splits at the last occurrence of \<open>c\<close>, \<open>before_first\<close> at the first.
\<close>

definition before_first :: "char \<Rightarrow> string \<Rightarrow> (string \<times> string) option" where
  "before_first c s =
     (if c \<in> set s then Some (takeWhile (\<lambda>d. d \<noteq> c) s, tl (dropWhile (\<lambda>d. d \<noteq> c) s)) else None)"

definition before_last :: "char \<Rightarrow> string \<Rightarrow> (string \<times> string) option" where
  "before_last c s =
     (case before_first c (rev s) of None \<Rightarrow> None | Some (a, b) \<Rightarrow> Some (rev b, rev a))"

text \<open>
  \<^verbatim>\<open>net.SplitHostPort\<close>, with \<open>None\<close> for its errors. A bracketed host ends at the first \<open>]\<close>,
  which the last colon follows; an unbracketed host has no colon.
\<close>

definition SplitHostPort :: "string \<Rightarrow> (string \<times> string) option" where
  "SplitHostPort hp =
     (case before_last CHR '':'' hp of
        None \<Rightarrow> None
      | Some (a, port) \<Rightarrow>
          if HasPrefix hp ''['' then
            (case before_first CHR '']'' hp of
               None \<Rightarrow> None
             | Some (h, rest) \<Rightarrow>
                 if rest = CHR '':'' # port \<and> CHR ''['' \<notin> set (tl h) \<and> CHR ''['' \<notin> set rest
                    \<and> CHR '']'' \<notin> set rest
                 then Some (tl h, port) else None)
          else if CHR '':'' \<in> set a \<or> CHR ''['' \<in> set hp \<or> CHR '']'' \<in> set hp then None
          else Some (a, port))"

definition JoinHostPort :: "string \<Rightarrow> string \<Rightarrow> string" where
  "JoinHostPort host port =
     (if CHR '':'' \<in> set host then ''['' @ host @ '']:'' @ port else host @ '':'' @ port)"

lemma before_first_app: "c \<notin> set a \<Longrightarrow> before_first c (a @ c # b) = Some (a, b)"
  by (simp add: before_first_def takeWhile_append dropWhile_append)

lemma before_last_app: "c \<notin> set b \<Longrightarrow> before_last c (a @ c # b) = Some (a, b)"
  using before_first_app [of c "rev b" "rev a"] by (simp add: before_last_def)

lemma before_first_SomeD: "before_first c s = Some (a, b) \<Longrightarrow> s = a @ c # b \<and> c \<notin> set a"
  by (auto simp: before_first_def split: if_splits dest: set_takeWhileD)
    (metis (mono_tags, lifting) dropWhile_eq_Nil_conv hd_dropWhile list.collapse takeWhile_dropWhile_id)

lemma before_last_SomeD: "before_last c s = Some (a, b) \<Longrightarrow> s = a @ c # b \<and> c \<notin> set b"
  by (auto simp: before_last_def split: option.splits prod.splits dest!: before_first_SomeD)
    (metis append.assoc append_Cons append_Nil rev.simps(2) rev_append rev_swap)+

text \<open>Splitting reads back what joining writes.\<close>

lemma SplitHostPort_JoinHostPort:
  assumes "CHR ''['' \<notin> set host" "CHR '']'' \<notin> set host"
    and "CHR '':'' \<notin> set port" "CHR ''['' \<notin> set port" "CHR '']'' \<notin> set port"
  shows "SplitHostPort (JoinHostPort host port) = Some (host, port)"
proof (cases "CHR '':'' \<in> set host")
  case True
  have l: "before_last CHR '':'' ((''['' @ host @ '']'') @ CHR '':'' # port)
      = Some (''['' @ host @ '']'', port)"
    by (rule before_last_app) (rule assms(3))
  have f: "before_first CHR '']'' ((CHR ''['' # host) @ CHR '']'' # CHR '':'' # port)
      = Some (CHR ''['' # host, CHR '':'' # port)"
    by (rule before_first_app) (use assms in simp)
  from True l f assms show ?thesis
    by (simp add: SplitHostPort_def JoinHostPort_def)
next
  case False
  have l: "before_last CHR '':'' (host @ CHR '':'' # port) = Some (host, port)"
    by (rule before_last_app) (rule assms(3))
  have "\<not> HasPrefix (host @ CHR '':'' # port) ''[''"
    using assms(1) by (cases host) auto
  with False l assms show ?thesis
    by (simp add: SplitHostPort_def JoinHostPort_def)
qed

lemma SplitHostPort_SomeD:
  assumes "SplitHostPort hp = Some (h, p)"
  shows "(hp = h @ '':'' @ p \<and> CHR '':'' \<notin> set h \<or> hp = ''['' @ h @ '']:'' @ p) \<and> CHR '':'' \<notin> set p"
proof -
  from assms obtain a port where l: "before_last CHR '':'' hp = Some (a, port)"
    by (auto simp: SplitHostPort_def split: option.splits)
  from before_last_SomeD [OF l] have hp: "hp = a @ CHR '':'' # port" "CHR '':'' \<notin> set port" by auto
  show ?thesis
  proof (cases "HasPrefix hp ''[''")
    case True
    with assms l obtain b rest where f: "before_first CHR '']'' hp = Some (b, rest)"
      and r: "rest = CHR '':'' # port" "h = tl b" "p = port"
      by (auto simp: SplitHostPort_def split: option.splits if_splits)
    from True have "hd hp = CHR ''[''" by (cases hp) auto
    with before_first_SomeD [OF f] have "b = CHR ''['' # tl b" by (cases b) auto
    with before_first_SomeD [OF f] r hp show ?thesis
      by (metis append_Cons append_Nil)
  next
    case False
    with assms l hp show ?thesis
      by (auto simp: SplitHostPort_def split: if_splits)
  qed
qed

section \<open>IP addresses\<close>

text \<open>
  An IP is its eight groups of 16 bits. \<^verbatim>\<open>parseIPv4Fields\<close> reads four decimal fields without
  leading zeros and at most 255.
\<close>

fun split_on :: "char \<Rightarrow> string \<Rightarrow> string list" where
  "split_on c [] = [[]]"
| "split_on c (d # s) =
     (if d = c then [] # split_on c s
      else (case split_on c s of [] \<Rightarrow> [[d]] | f # fs \<Rightarrow> (d # f) # fs))"

definition ipv4_field :: "string \<Rightarrow> nat option" where
  "ipv4_field f =
     (if f = [] \<or> (1 < length f \<and> hd f = CHR ''0'') then None
      else case digits_acc 0 f of
        None \<Rightarrow> None
      | Some n \<Rightarrow> if n \<le> 255 then Some n else None)"

fun opt_list :: "'a option list \<Rightarrow> 'a list option" where
  "opt_list [] = Some []"
| "opt_list (None # xs) = None"
| "opt_list (Some x # xs) = map_option (Cons x) (opt_list xs)"

definition parse_ipv4_fields :: "string \<Rightarrow> (nat \<times> nat) option" where
  "parse_ipv4_fields s =
     (case opt_list (map ipv4_field (split_on CHR ''.'' s)) of
        Some [a, b, c, d] \<Rightarrow> Some (256 * a + b, 256 * c + d)
      | _ \<Rightarrow> None)"

definition hex_val :: "char \<Rightarrow> nat option" where
  "hex_val c =
     (let n = of_char c :: nat in
      if 48 \<le> n \<and> n \<le> 57 then Some (n - 48)
      else if 97 \<le> n \<and> n \<le> 102 then Some (n - 87)
      else if 65 \<le> n \<and> n \<le> 70 then Some (n - 55)
      else None)"

definition hex_digits :: "string \<Rightarrow> string" where
  "hex_digits s = takeWhile (\<lambda>c. hex_val c \<noteq> None) s"

fun hex_acc :: "nat \<Rightarrow> string \<Rightarrow> nat" where
  "hex_acc a [] = a"
| "hex_acc a (c # s) = hex_acc (16 * a + (case hex_val c of None \<Rightarrow> 0 | Some d \<Rightarrow> d)) s"

text \<open>
  The loop of \<^verbatim>\<open>netip.parseIPv6\<close> over the groups: \<open>k\<close> counts the groups that still fit, \<open>gs\<close>
  the groups read so far and \<open>ell\<close> the position of the ellipsis. Its result is the groups and
  the ellipsis once the whole string is used.
\<close>

fun ipv6_groups :: "nat \<Rightarrow> nat list \<Rightarrow> nat option \<Rightarrow> string \<Rightarrow> (nat list \<times> nat option) option" where
  "ipv6_groups 0 gs ell s = (if s = [] then Some (gs, ell) else None)"
| "ipv6_groups (Suc k) gs ell s =
     (let ds = hex_digits s; rest = drop (length ds) s in
      if ds = [] \<or> 4 < length ds then None
      else if HasPrefix rest ''.'' then
        (if (ell = None \<and> length gs \<noteq> 6) \<or> 6 < length gs then None
         else case parse_ipv4_fields s of
           None \<Rightarrow> None
         | Some (a, b) \<Rightarrow> Some (gs @ [a, b], ell))
      else let gs' = gs @ [hex_acc 0 ds] in
        (case rest of
           [] \<Rightarrow> Some (gs', ell)
         | [c] \<Rightarrow> None
         | c # d # rest' \<Rightarrow>
             if c \<noteq> CHR '':'' then None
             else if d = CHR '':'' then
               (if ell \<noteq> None then None
                else if rest' = [] then Some (gs', Some (length gs'))
                else ipv6_groups k gs' (Some (length gs')) rest')
             else ipv6_groups k gs' ell (d # rest')))"

definition parse_ipv6 :: "string \<Rightarrow> nat list option" where
  "parse_ipv6 s =
     (if s = ''::'' then Some (replicate 8 0)
      else case (if HasPrefix s ''::'' then ipv6_groups 8 [] (Some 0) (drop 2 s)
                 else ipv6_groups 8 [] None s) of
        None \<Rightarrow> None
      | Some (gs, ell) \<Rightarrow>
          if length gs < 8 then
            (case ell of
               None \<Rightarrow> None
             | Some e \<Rightarrow> Some (take e gs @ replicate (8 - length gs) 0 @ drop e gs))
          else (if ell = None then Some gs else None))"

text \<open>
  \<^verbatim>\<open>net.ParseIP\<close>: the first dot, colon or percent sign decides the family, and an address with
  a zone is refused.
\<close>

definition ParseIP :: "string \<Rightarrow> nat list option" where
  "ParseIP s =
     (case dropWhile (\<lambda>c. c \<notin> set ''.:%'') s of
        [] \<Rightarrow> None
      | c # _ \<Rightarrow>
          if c = CHR ''.'' then
            (case parse_ipv4_fields s of
               None \<Rightarrow> None
             | Some (a, b) \<Rightarrow> Some [0, 0, 0, 0, 0, 65535, a, b])
          else if c = CHR '':'' then (if CHR ''%'' \<in> set s then None else parse_ipv6 s)
          else None)"

definition To4 :: "nat list \<Rightarrow> (nat \<times> nat) option" where
  "To4 ip = (if length ip = 8 \<and> take 6 ip = [0, 0, 0, 0, 0, 65535] then Some (ip ! 6, ip ! 7) else None)"

text \<open>
  \<^verbatim>\<open>IP.String\<close>: dotted decimal for an IPv4 address, otherwise lower-case hexadecimal groups where the
  first longest run of at least two zero groups is printed as a double colon.
\<close>

definition hex_lower :: "nat \<Rightarrow> char" where
  "hex_lower n = (if n < 10 then char_of (48 + n) else char_of (87 + n))"

fun nat_hex :: "nat \<Rightarrow> string" where
  "nat_hex n = (if n < 16 then [hex_lower n] else nat_hex (n div 16) @ [hex_lower (n mod 16)])"

declare nat_hex.simps [simp del]

fun join_with :: "string \<Rightarrow> string list \<Rightarrow> string" where
  "join_with sep [] = []"
| "join_with sep [s] = s"
| "join_with sep (s # ss) = s @ sep @ join_with sep ss"

definition zero_run :: "nat list \<Rightarrow> nat \<Rightarrow> nat" where
  "zero_run gs i = length (takeWhile (\<lambda>g. g = 0) (drop i gs))"

definition longest_zero_run :: "nat list \<Rightarrow> nat \<times> nat" where
  "longest_zero_run gs =
     foldl (\<lambda>(s, l) i. let r = zero_run gs i in if 2 \<le> r \<and> l < r then (i, r) else (s, l)) (0, 0) [0..<8]"

definition IP_String :: "nat list \<Rightarrow> string" where
  "IP_String ip =
     (case To4 ip of
        Some (a, b) \<Rightarrow> join_with ''.'' (map nat_digits [a div 256, a mod 256, b div 256, b mod 256])
      | None \<Rightarrow>
          (case longest_zero_run ip of (s, l) \<Rightarrow>
             if l = 0 then join_with '':'' (map nat_hex ip)
             else join_with '':'' (map nat_hex (take s ip)) @ ''::''
               @ join_with '':'' (map nat_hex (drop (s + l) ip))))"

section \<open>Runes\<close>

text \<open>
  The runes of a \<^verbatim>\<open>range\<close> loop over a string: UTF-8 decoding, where a byte that starts no valid
  sequence is the rune U+FFFD of width one.
\<close>

definition rune1 :: "nat \<Rightarrow> nat list \<Rightarrow> nat \<times> nat" where
  "rune1 b bs =
     (let cont = (\<lambda>x. 128 \<le> x \<and> x \<le> 191) in
      if b < 128 then (b, 1)
      else if 194 \<le> b \<and> b \<le> 223 \<and> 1 \<le> length bs \<and> cont (bs ! 0)
      then ((b - 192) * 64 + (bs ! 0 - 128), 2)
      else if 224 \<le> b \<and> b \<le> 239 \<and> 2 \<le> length bs \<and> cont (bs ! 0) \<and> cont (bs ! 1)
        \<and> (b = 224 \<longrightarrow> 160 \<le> bs ! 0) \<and> (b = 237 \<longrightarrow> bs ! 0 \<le> 159)
      then ((b - 224) * 4096 + (bs ! 0 - 128) * 64 + (bs ! 1 - 128), 3)
      else if 240 \<le> b \<and> b \<le> 244 \<and> 3 \<le> length bs \<and> cont (bs ! 0) \<and> cont (bs ! 1) \<and> cont (bs ! 2)
        \<and> (b = 240 \<longrightarrow> 144 \<le> bs ! 0) \<and> (b = 244 \<longrightarrow> bs ! 0 \<le> 143)
      then ((b - 240) * 262144 + (bs ! 0 - 128) * 4096 + (bs ! 1 - 128) * 64 + (bs ! 2 - 128), 4)
      else (65533, 1))"

lemma rune1_width: "1 \<le> snd (rune1 b bs)"
  by (simp add: rune1_def Let_def)

function runes_of :: "nat list \<Rightarrow> nat list" where
  "runes_of [] = []"
| "runes_of (b # bs) = fst (rune1 b bs) # runes_of (drop (snd (rune1 b bs) - 1) bs)"
  by pat_completeness auto
termination
  by (relation "measure length") auto

definition runes :: "string \<Rightarrow> nat list" where
  "runes s = runes_of (map of_char s)"

definition IsSpace :: "nat \<Rightarrow> bool" where
  "IsSpace r \<longleftrightarrow> (9 \<le> r \<and> r \<le> 13) \<or> r \<in> {32, 133, 160, 5760, 8232, 8233, 8239, 8287, 12288}
     \<or> (8192 \<le> r \<and> r \<le> 8202)"

definition IsControl :: "nat \<Rightarrow> bool" where
  "IsControl r \<longleftrightarrow> r < 32 \<or> (127 \<le> r \<and> r < 160)"

lemmas ipv6_groups_numeral [go_eval] =
  ipv6_groups.simps(2) [of "pred_numeral n" for n, folded numeral_eq_Suc]

lemma replicate_num [go_eval]: "replicate (numeral n) x = x # replicate (pred_numeral n) x"
  by (simp add: numeral_eq_Suc)

lemmas net_eval [go_eval] =
  before_first_def before_last_def SplitHostPort_def JoinHostPort_def ipv4_field_def
  parse_ipv4_fields_def hex_val_def hex_digits_def parse_ipv6_def ParseIP_def To4_def rune1_def
  runes_def IsSpace_def IsControl_def hex_lower_def nat_hex.simps zero_run_def longest_zero_run_def
  IP_String_def

end
