(* ===== verification/Config_Types.thy ===== *)
theory Config_Types
  imports Go_Net
begin

text \<open>
  The data of package \<^verbatim>\<open>internal/config\<close> (\<^verbatim>\<open>config.go\<close>): probe types, allowlists and limits, and the
  structs \<^verbatim>\<open>Config\<close>, \<^verbatim>\<open>AgentConfig\<close>, \<^verbatim>\<open>TargetConfig\<close>, \<^verbatim>\<open>ProbeOptions\<close>, \<^verbatim>\<open>ProxyConfig\<close>,
  \<^verbatim>\<open>ResolvedProxyConfig\<close> and \<^verbatim>\<open>ResolvedProxyCredentials\<close> as records, one field per struct field with
  a prefix for the struct. Pointers are options.
\<close>

section \<open>Probe types and allowlists\<close>

type_synonym ProbeType = string

definition ProbeTypeTCP :: ProbeType where "ProbeTypeTCP = ''tcp''"
definition ProbeTypeHTTP :: ProbeType where "ProbeTypeHTTP = ''http''"
definition ProbeTypeICMP :: ProbeType where "ProbeTypeICMP = ''icmp''"
definition ProbeTypeMTU :: ProbeType where "ProbeTypeMTU = ''mtu''"
definition ProbeTypeDNS :: ProbeType where "ProbeTypeDNS = ''dns''"
definition ProbeTypeTLSCert :: ProbeType where "ProbeTypeTLSCert = ''tls_cert''"
definition ProbeTypeHTTPBody :: ProbeType where "ProbeTypeHTTPBody = ''http_body''"
definition ProbeTypeProxyConnect :: ProbeType where "ProbeTypeProxyConnect = ''proxy_connect''"

lemmas probe_type_defs [go_eval] =
  ProbeTypeTCP_def ProbeTypeHTTP_def ProbeTypeICMP_def ProbeTypeMTU_def ProbeTypeDNS_def
  ProbeTypeTLSCert_def ProbeTypeHTTPBody_def ProbeTypeProxyConnect_def

text \<open>The probe types are distinct strings.\<close>

lemma probe_types_neq [simp]:
  "ProbeTypeTCP \<noteq> ProbeTypeHTTP" "ProbeTypeTCP \<noteq> ProbeTypeICMP" "ProbeTypeTCP \<noteq> ProbeTypeMTU" "ProbeTypeTCP \<noteq> ProbeTypeDNS" "ProbeTypeTCP \<noteq> ProbeTypeTLSCert" "ProbeTypeTCP \<noteq> ProbeTypeHTTPBody" "ProbeTypeTCP \<noteq> ProbeTypeProxyConnect"
  "ProbeTypeHTTP \<noteq> ProbeTypeTCP" "ProbeTypeHTTP \<noteq> ProbeTypeICMP" "ProbeTypeHTTP \<noteq> ProbeTypeMTU" "ProbeTypeHTTP \<noteq> ProbeTypeDNS" "ProbeTypeHTTP \<noteq> ProbeTypeTLSCert" "ProbeTypeHTTP \<noteq> ProbeTypeHTTPBody" "ProbeTypeHTTP \<noteq> ProbeTypeProxyConnect"
  "ProbeTypeICMP \<noteq> ProbeTypeTCP" "ProbeTypeICMP \<noteq> ProbeTypeHTTP" "ProbeTypeICMP \<noteq> ProbeTypeMTU" "ProbeTypeICMP \<noteq> ProbeTypeDNS" "ProbeTypeICMP \<noteq> ProbeTypeTLSCert" "ProbeTypeICMP \<noteq> ProbeTypeHTTPBody" "ProbeTypeICMP \<noteq> ProbeTypeProxyConnect"
  "ProbeTypeMTU \<noteq> ProbeTypeTCP" "ProbeTypeMTU \<noteq> ProbeTypeHTTP" "ProbeTypeMTU \<noteq> ProbeTypeICMP" "ProbeTypeMTU \<noteq> ProbeTypeDNS" "ProbeTypeMTU \<noteq> ProbeTypeTLSCert" "ProbeTypeMTU \<noteq> ProbeTypeHTTPBody" "ProbeTypeMTU \<noteq> ProbeTypeProxyConnect"
  "ProbeTypeDNS \<noteq> ProbeTypeTCP" "ProbeTypeDNS \<noteq> ProbeTypeHTTP" "ProbeTypeDNS \<noteq> ProbeTypeICMP" "ProbeTypeDNS \<noteq> ProbeTypeMTU" "ProbeTypeDNS \<noteq> ProbeTypeTLSCert" "ProbeTypeDNS \<noteq> ProbeTypeHTTPBody" "ProbeTypeDNS \<noteq> ProbeTypeProxyConnect"
  "ProbeTypeTLSCert \<noteq> ProbeTypeTCP" "ProbeTypeTLSCert \<noteq> ProbeTypeHTTP" "ProbeTypeTLSCert \<noteq> ProbeTypeICMP" "ProbeTypeTLSCert \<noteq> ProbeTypeMTU" "ProbeTypeTLSCert \<noteq> ProbeTypeDNS" "ProbeTypeTLSCert \<noteq> ProbeTypeHTTPBody" "ProbeTypeTLSCert \<noteq> ProbeTypeProxyConnect"
  "ProbeTypeHTTPBody \<noteq> ProbeTypeTCP" "ProbeTypeHTTPBody \<noteq> ProbeTypeHTTP" "ProbeTypeHTTPBody \<noteq> ProbeTypeICMP" "ProbeTypeHTTPBody \<noteq> ProbeTypeMTU" "ProbeTypeHTTPBody \<noteq> ProbeTypeDNS" "ProbeTypeHTTPBody \<noteq> ProbeTypeTLSCert" "ProbeTypeHTTPBody \<noteq> ProbeTypeProxyConnect"
  "ProbeTypeProxyConnect \<noteq> ProbeTypeTCP" "ProbeTypeProxyConnect \<noteq> ProbeTypeHTTP" "ProbeTypeProxyConnect \<noteq> ProbeTypeICMP" "ProbeTypeProxyConnect \<noteq> ProbeTypeMTU" "ProbeTypeProxyConnect \<noteq> ProbeTypeDNS" "ProbeTypeProxyConnect \<noteq> ProbeTypeTLSCert" "ProbeTypeProxyConnect \<noteq> ProbeTypeHTTPBody"
  by (simp_all add: probe_type_defs)

definition ValidProbeTypes :: "ProbeType list" where
  "ValidProbeTypes =
     [ProbeTypeTCP, ProbeTypeHTTP, ProbeTypeICMP, ProbeTypeMTU, ProbeTypeDNS, ProbeTypeTLSCert,
      ProbeTypeHTTPBody, ProbeTypeProxyConnect]"

definition ValidDNSQueryTypes :: "string list" where
  "ValidDNSQueryTypes = [''A'', ''AAAA'', ''CNAME'']"

definition ValidLogLevels :: "string list" where
  "ValidLogLevels = [''debug'', ''info'', ''warn'', ''error'']"

definition ValidLogFormats :: "string list" where
  "ValidLogFormats = [''text'', ''json'']"

definition validHTTPMethods :: "string list" where
  "validHTTPMethods = [''GET'', ''HEAD'', ''POST'']"

definition MaxTagsPerTarget :: int where "MaxTagsPerTarget = 20"
definition MaxGlobalTagKeys :: int where "MaxGlobalTagKeys = 30"
definition MaxProxies :: int where "MaxProxies = 64"
definition MaxHTTPRequestBodyBytes :: int where "MaxHTTPRequestBodyBytes = 16 * 2 ^ 20"

definition FixedLabels :: "string list" where
  "FixedLabels = [''target'', ''target_name'', ''probe_type'', ''proxy_name'', ''proxy_endpoint'']"

definition lower_alnum :: "char \<Rightarrow> bool" where
  "lower_alnum c =
     (let n = of_char c :: nat in (97 \<le> n \<and> n \<le> 122) \<or> (48 \<le> n \<and> n \<le> 57))"

definition letter_or_underscore :: "char \<Rightarrow> bool" where
  "letter_or_underscore c =
     (let n = of_char c :: nat in (97 \<le> n \<and> n \<le> 122) \<or> (65 \<le> n \<and> n \<le> 90) \<or> n = 95)"

definition is_digit :: "char \<Rightarrow> bool" where
  "is_digit c = (let n = of_char c :: nat in 48 \<le> n \<and> n \<le> 57)"

text \<open>
  \<^verbatim>\<open>proxyNameRe\<close>, \<^verbatim>\<open>^[a-z0-9]([a-z0-9-]{0,61}[a-z0-9])?$\<close>: one to 63 letters, digits and dashes, with
  no dash at either end.
\<close>

definition proxyNameRe :: "string \<Rightarrow> bool" where
  "proxyNameRe s \<longleftrightarrow>
     s \<noteq> [] \<and> length s \<le> 63 \<and> lower_alnum (hd s) \<and> lower_alnum (last s)
     \<and> list_all (\<lambda>c. lower_alnum c \<or> c = CHR ''-'') s"

text \<open>\<^verbatim>\<open>prometheusLabelRe\<close>, \<^verbatim>\<open>^[a-zA-Z_][a-zA-Z0-9_]*$\<close>.\<close>

definition prometheusLabelRe :: "string \<Rightarrow> bool" where
  "prometheusLabelRe s \<longleftrightarrow>
     s \<noteq> [] \<and> letter_or_underscore (hd s)
     \<and> list_all (\<lambda>c. letter_or_underscore c \<or> is_digit c) s"

definition DefaultICMPPayloadSizes :: "int list" where
  "DefaultICMPPayloadSizes = [1472, 1392, 1372, 1272, 1172, 1072]"

definition DefaultMTURetries :: int where "DefaultMTURetries = 3"
definition DefaultMTUPerAttemptTimeout :: duration where
  "DefaultMTUPerAttemptTimeout = 2 * Second"

lemmas config_const_eval [go_eval] =
  ValidProbeTypes_def ValidDNSQueryTypes_def ValidLogLevels_def ValidLogFormats_def
  validHTTPMethods_def MaxTagsPerTarget_def MaxGlobalTagKeys_def MaxProxies_def
  MaxHTTPRequestBodyBytes_def FixedLabels_def lower_alnum_def letter_or_underscore_def is_digit_def
  proxyNameRe_def prometheusLabelRe_def DefaultICMPPayloadSizes_def DefaultMTURetries_def
  DefaultMTUPerAttemptTimeout_def Second_def Millisecond_def

section \<open>Structs\<close>

text \<open>A \<^verbatim>\<open>float64\<close> of the configuration: a finite value, or one of the values without JSON form.\<close>

datatype float64 = Fin real | NaN | PosInf | NegInf

record ResolvedProxyCredentials =
  cr_username :: string
  cr_password :: string

definition no_credentials :: ResolvedProxyCredentials where
  "no_credentials = \<lparr>cr_username = [], cr_password = []\<rparr>"

record ProxyConfig =
  pc_URL :: string
  pc_Endpoint :: string
  pc_TLSSkipVerify :: bool
  pc_Username :: string
  pc_UsernameEnv :: string
  pc_UsernameFile :: string
  pc_PasswordEnv :: string
  pc_PasswordFile :: string
  pc_Credentials :: ResolvedProxyCredentials

record ResolvedProxyConfig =
  rp_Endpoint :: string
  rp_TLSSkipVerify :: bool
  rp_Username :: string
  rp_UsernameEnv :: string
  rp_UsernameFile :: string
  rp_PasswordEnv :: string
  rp_PasswordFile :: string
  rp_Credentials :: ResolvedProxyCredentials

record AgentConfig =
  ac_ListenAddr :: string
  ac_MetricsPath :: string
  ac_DefaultInterval :: duration
  ac_DefaultTimeout :: duration
  ac_InitialProbeJitter :: duration
  ac_DefaultICMPPayloadSizes :: "int slice"
  ac_LogLevel :: string
  ac_LogFormat :: string
  ac_EnableRuntimeMetrics :: bool
  ac_AllowedTagKeys :: "string slice"
  ac_DNSResolver :: string

record ProbeOptions =
  po_Method :: string
  po_Headers :: "string gomap"
  po_ExpectedStatusCodes :: "int slice"
  po_ExpectedProxyConnectStatusCodes :: "int slice"
  po_FollowRedirects :: bool
  po_TLSSkipVerify :: bool
  po_TLSEmitCertMetrics :: bool
  po_ResponseBodyLimitBytes :: int
  po_RequestBodyBytes :: int
  po_BodyMatchRegex :: string
  po_BodyMatchString :: string
  po_PingCount :: int
  po_PingIntervalSec :: float64
  po_ICMPPayloadSizes :: "int slice"
  po_ExpectedMinMTU :: int
  po_MTURetries :: int
  po_MTUPerAttemptTimeout :: duration
  po_DNSQueryName :: string
  po_DNSQueryType :: string
  po_DNSServer :: string
  po_DNSExpectedResults :: "string slice"

record TargetConfig =
  tc_Name :: string
  tc_Address :: string
  tc_ProbeType :: ProbeType
  tc_Interval :: duration
  tc_Timeout :: duration
  tc_Tags :: "string gomap"
  tc_ProbeOpts :: ProbeOptions
  tc_ProxyName :: string
  tc_ResolvedProxy :: "ResolvedProxyConfig option"
  tc_DNSResolver :: "string option"

record Config =
  cf_Agent :: AgentConfig
  cf_Proxies :: "ProxyConfig gomap"
  cf_Targets :: "TargetConfig slice"

text \<open>The zero values, from which the examples of the development are built.\<close>

definition zero_agent :: AgentConfig where
  "zero_agent = \<lparr>ac_ListenAddr = [], ac_MetricsPath = [], ac_DefaultInterval = 0,
     ac_DefaultTimeout = 0, ac_InitialProbeJitter = 0, ac_DefaultICMPPayloadSizes = None,
     ac_LogLevel = [], ac_LogFormat = [], ac_EnableRuntimeMetrics = False,
     ac_AllowedTagKeys = None, ac_DNSResolver = []\<rparr>"

definition zero_opts :: ProbeOptions where
  "zero_opts = \<lparr>po_Method = [], po_Headers = None, po_ExpectedStatusCodes = None,
     po_ExpectedProxyConnectStatusCodes = None, po_FollowRedirects = False,
     po_TLSSkipVerify = False, po_TLSEmitCertMetrics = False, po_ResponseBodyLimitBytes = 0,
     po_RequestBodyBytes = 0, po_BodyMatchRegex = [], po_BodyMatchString = [], po_PingCount = 0,
     po_PingIntervalSec = Fin 0, po_ICMPPayloadSizes = None, po_ExpectedMinMTU = 0,
     po_MTURetries = 0, po_MTUPerAttemptTimeout = 0, po_DNSQueryName = [], po_DNSQueryType = [],
     po_DNSServer = [], po_DNSExpectedResults = None\<rparr>"

definition zero_target :: TargetConfig where
  "zero_target = \<lparr>tc_Name = [], tc_Address = [], tc_ProbeType = [], tc_Interval = 0,
     tc_Timeout = 0, tc_Tags = None, tc_ProbeOpts = zero_opts, tc_ProxyName = [],
     tc_ResolvedProxy = None, tc_DNSResolver = None\<rparr>"

definition zero_proxy :: ProxyConfig where
  "zero_proxy = \<lparr>pc_URL = [], pc_Endpoint = [], pc_TLSSkipVerify = False, pc_Username = [],
     pc_UsernameEnv = [], pc_UsernameFile = [], pc_PasswordEnv = [], pc_PasswordFile = [],
     pc_Credentials = no_credentials\<rparr>"

lemmas zero_eval [go_eval] = zero_agent_def zero_opts_def zero_target_def zero_proxy_def no_credentials_def

end
