(* ===== verification/Probe_Result.thy ===== *)
theory Probe_Result
  imports Config_Types Go_Net
begin

text \<open>
  \<^verbatim>\<open>internal/probe/prober.go\<close> and \<^verbatim>\<open>resolver.go\<close>: the result of a probe, the phase and MTU labels, the
  resolver of a target, and dialling with split phases. The network, the clock and the context of
  a probe are the record \<open>net_ops\<close> of programs over a world \<open>'w\<close>; a connection is a value of \<open>'c\<close>.

  The text of an error is kept as the error value that prints it, so \<^verbatim>\<open>result.Error == ""\<close> is
  \<open>pr_Error r = None\<close>.
\<close>

section \<open>Labels\<close>

definition MTUStateOK :: string where "MTUStateOK = ''ok''"
definition MTUStateDegraded :: string where "MTUStateDegraded = ''degraded''"
definition MTUStateUnreachable :: string where "MTUStateUnreachable = ''unreachable''"
definition MTUStateError :: string where "MTUStateError = ''error''"

definition MTUDetailLargestSizeConfirmed :: string where
  "MTUDetailLargestSizeConfirmed = ''largest_size_confirmed''"
definition MTUDetailFragmentationNeeded :: string where
  "MTUDetailFragmentationNeeded = ''fragmentation_needed''"
definition MTUDetailLargerSizesTimedOut :: string where
  "MTUDetailLargerSizesTimedOut = ''larger_sizes_timed_out''"
definition MTUDetailBelowMinTested :: string where "MTUDetailBelowMinTested = ''below_min_tested''"
definition MTUDetailAllSizesTimedOut :: string where
  "MTUDetailAllSizesTimedOut = ''all_sizes_timed_out''"
definition MTUDetailSanityCheckFailed :: string where
  "MTUDetailSanityCheckFailed = ''sanity_check_failed''"
definition MTUDetailDestinationUnreach :: string where
  "MTUDetailDestinationUnreach = ''destination_unreachable''"
definition MTUDetailLocalMessageTooLarge :: string where
  "MTUDetailLocalMessageTooLarge = ''local_message_too_large''"
definition MTUDetailPermissionDenied :: string where
  "MTUDetailPermissionDenied = ''permission_denied''"
definition MTUDetailResolveError :: string where "MTUDetailResolveError = ''resolve_error''"
definition MTUDetailInternalError :: string where "MTUDetailInternalError = ''internal_error''"
definition MTUDetailInconclusive :: string where "MTUDetailInconclusive = ''inconclusive''"

definition happyEyeballsFallbackDelay :: duration where
  "happyEyeballsFallbackDelay = 300 * Millisecond"

definition PhaseDNSResolve :: string where "PhaseDNSResolve = ''dns_resolve''"
definition PhaseTCPConnect :: string where "PhaseTCPConnect = ''tcp_connect''"
definition PhaseTLSHandshake :: string where "PhaseTLSHandshake = ''tls_handshake''"
definition PhaseRequestWrite :: string where "PhaseRequestWrite = ''request_write''"
definition PhaseTTFB :: string where "PhaseTTFB = ''ttfb''"
definition PhaseTransfer :: string where "PhaseTransfer = ''transfer''"
definition PhaseProxyDial :: string where "PhaseProxyDial = ''proxy_dial''"
definition PhaseProxyTLS :: string where "PhaseProxyTLS = ''proxy_tls''"
definition PhaseProxyConnect :: string where "PhaseProxyConnect = ''proxy_connect''"

definition AllPhases :: "string list" where
  "AllPhases = [PhaseDNSResolve, PhaseTCPConnect, PhaseTLSHandshake, PhaseRequestWrite, PhaseTTFB,
     PhaseTransfer, PhaseProxyDial, PhaseProxyTLS, PhaseProxyConnect]"

lemmas phase_defs = PhaseDNSResolve_def PhaseTCPConnect_def PhaseTLSHandshake_def
  PhaseRequestWrite_def PhaseTTFB_def PhaseTransfer_def PhaseProxyDial_def PhaseProxyTLS_def
  PhaseProxyConnect_def

lemmas mtu_label_defs = MTUStateOK_def MTUStateDegraded_def MTUStateUnreachable_def MTUStateError_def
  MTUDetailLargestSizeConfirmed_def MTUDetailFragmentationNeeded_def MTUDetailLargerSizesTimedOut_def
  MTUDetailBelowMinTested_def MTUDetailAllSizesTimedOut_def MTUDetailSanityCheckFailed_def
  MTUDetailDestinationUnreach_def MTUDetailLocalMessageTooLarge_def MTUDetailPermissionDenied_def
  MTUDetailResolveError_def MTUDetailInternalError_def MTUDetailInconclusive_def

section \<open>Results\<close>

text \<open>The fields of an \<^verbatim>\<open>x509.Certificate\<close> the program reads.\<close>

record Certificate =
  ce_NotAfter :: gotime
  ce_RawIssuer :: string
  ce_RawSubject :: string

record ProbeResult =
  pr_Success :: bool
  pr_Duration :: duration
  pr_TimedOut :: bool
  pr_Phases :: "duration gomap"
  pr_StatusCode :: int
  pr_HTTPResponseReceived :: bool
  pr_ProxyConnectStatusCode :: int
  pr_ProxyConnectResponseReceived :: bool
  pr_CertExpiry :: gotime
  pr_CertObserved :: bool
  pr_TLSCertificates :: "Certificate option list"
  pr_PathMTU :: int
  pr_MTUState :: string
  pr_MTUDetail :: string
  pr_PacketLoss :: real
  pr_ICMPRepliesObserved :: int
  pr_ICMPAvgRTT :: duration
  pr_ICMPStddevRTT :: duration
  pr_DNSResolveTime :: duration
  pr_DNSMatchEvaluated :: bool
  pr_DNSMatched :: bool
  pr_HTTPResponseTruncated :: bool
  pr_HTTPTruncationEvaluated :: bool
  pr_BodyMatch :: bool
  pr_HTTPBodyEvaluated :: bool
  pr_Error :: "goerr option"

text \<open>\<^verbatim>\<open>var result ProbeResult\<close>.\<close>

definition zero_result :: ProbeResult where
  "zero_result = \<lparr>pr_Success = False, pr_Duration = 0, pr_TimedOut = False, pr_Phases = None,
     pr_StatusCode = 0, pr_HTTPResponseReceived = False, pr_ProxyConnectStatusCode = 0,
     pr_ProxyConnectResponseReceived = False, pr_CertExpiry = 0, pr_CertObserved = False,
     pr_TLSCertificates = [], pr_PathMTU = 0, pr_MTUState = [], pr_MTUDetail = [], pr_PacketLoss = 0,
     pr_ICMPRepliesObserved = 0, pr_ICMPAvgRTT = 0, pr_ICMPStddevRTT = 0, pr_DNSResolveTime = 0,
     pr_DNSMatchEvaluated = False, pr_DNSMatched = False, pr_HTTPResponseTruncated = False,
     pr_HTTPTruncationEvaluated = False, pr_BodyMatch = False, pr_HTTPBodyEvaluated = False,
     pr_Error = None\<rparr>"

section \<open>Phases\<close>

definition safeSub :: "gotime \<Rightarrow> gotime \<Rightarrow> duration" where
  "safeSub end start = (let d = time_Sub end start in if d < 0 then 0 else d)"

definition addObservedPhase :: "duration gomap \<Rightarrow> string \<Rightarrow> gotime \<Rightarrow> gotime \<Rightarrow> duration gomap" where
  "addObservedPhase phases phase end start =
     (if IsZero start \<or> IsZero end then phases else mput phases phase (safeSub end start))"

text \<open>The pattern \<^verbatim>\<open>if len(phases) > 0 { result.Phases = phases }\<close>.\<close>

definition set_phases :: "duration gomap \<Rightarrow> ProbeResult \<Rightarrow> ProbeResult" where
  "set_phases phases r = (if slen phases > 0 then r\<lparr>pr_Phases := phases\<rparr> else r)"

section \<open>The outside world of a probe\<close>

text \<open>
  A resolver dials a fixed server for every query (with the resolver of the dialer, if one is set)
  or is the system's. An address is the list of its eight groups of 16 bits.
\<close>

datatype resolver = DefaultResolver | DialResolver string "resolver option"

type_synonym ip = "nat list"

record ('w, 'c) net_ops =
  op_Now :: "('w, gotime) io"
  op_CtxErr :: "('w, goerr option) io"
  op_LookupIP :: "resolver \<Rightarrow> string \<Rightarrow> string \<Rightarrow> ('w, goerr + ip list) io"
  op_LookupIPAddr :: "resolver \<Rightarrow> string \<Rightarrow> ('w, goerr + (ip \<times> string) list) io"
  op_LookupCNAME :: "resolver \<Rightarrow> string \<Rightarrow> ('w, goerr + string) io"
  op_Dial :: "resolver \<Rightarrow> string \<Rightarrow> ('w, goerr + 'c) io"
  op_Delay :: "duration \<Rightarrow> ('w, goerr option) io"
  op_Pick :: "('w, bool) io"
  op_Cancel :: "('w, unit) io"
  op_Close :: "'c \<Rightarrow> ('w, unit) io"

definition BuildResolver :: "string \<Rightarrow> resolver" where
  "BuildResolver addr = (if addr = [] then DefaultResolver else DialResolver addr None)"

definition resolverFor :: "string option \<Rightarrow> resolver" where
  "resolverFor dnsResolver = (case dnsResolver of None \<Rightarrow> DefaultResolver | Some s \<Rightarrow> BuildResolver s)"

section \<open>IPv4 resolution\<close>

record ipv4ResolveResult =
  ir_addr :: "(nat \<times> nat) option"
  ir_dnsStart :: gotime
  ir_dnsEnd :: gotime

fun first_To4 :: "ip list \<Rightarrow> (nat \<times> nat) option" where
  "first_To4 [] = None"
| "first_To4 (p # ips) = (case To4 p of None \<Rightarrow> first_To4 ips | Some v4 \<Rightarrow> Some v4)"

definition resolveIPv4 ::
  "('w, 'c) net_ops \<Rightarrow> resolver \<Rightarrow> string \<Rightarrow> ('w, ipv4ResolveResult \<times> goerr option) io" where
  "resolveIPv4 N rv address =
     (let zero = \<lparr>ir_addr = None, ir_dnsStart = 0, ir_dnsEnd = 0\<rparr> in
      case ParseIP address of
        Some p \<Rightarrow>
          (case To4 p of
             Some v4 \<Rightarrow> ret (zero\<lparr>ir_addr := Some v4\<rparr>, None)
           | None \<Rightarrow> ret (zero, Some (Errorf ''IPv6 literal %q is not supported (IPv4-only prober)'' [FStr address])))
      | None \<Rightarrow> do {
          t0 \<leftarrow> op_Now N;
          ips \<leftarrow> op_LookupIP N rv ''ip4'' address;
          t1 \<leftarrow> op_Now N;
          let timed = zero\<lparr>ir_dnsStart := t0, ir_dnsEnd := t1\<rparr>;
          (case ips of
             Inl e \<Rightarrow> ret (timed, Some e)
           | Inr ps \<Rightarrow>
               (case first_To4 ps of
                  Some v4 \<Rightarrow> ret (timed\<lparr>ir_addr := Some v4\<rparr>, None)
                | None \<Rightarrow> ret (timed, Some (Errorf ''no IPv4 address found for %q'' [FStr address]))))
        })"

section \<open>Dialling\<close>

definition isLiteralIPHost :: "string \<Rightarrow> bool" where
  "isLiteralIPHost host =
     (ParseIP (case before_last CHR ''%'' host of None \<Rightarrow> host | Some (h, _) \<Rightarrow> h) \<noteq> None)"

definition IPAddr_String :: "ip \<times> string \<Rightarrow> string" where
  "IPAddr_String a = IP_String (fst a) @ (if snd a = [] then [] else ''%'' @ snd a)"

definition joinDialTargets :: "(ip \<times> string) list \<Rightarrow> string \<Rightarrow> string list" where
  "joinDialTargets ips port = map (\<lambda>a. JoinHostPort (IPAddr_String a) port) ips"

definition is_ipv6_target :: "string \<Rightarrow> bool" where
  "is_ipv6_target target =
     (case SplitHostPort target of
        None \<Rightarrow> False
      | Some (host, _) \<Rightarrow> (case ParseIP host of None \<Rightarrow> False | Some p \<Rightarrow> To4 p = None))"

definition splitDialFamilies :: "string list \<Rightarrow> string list \<times> string list" where
  "splitDialFamilies dialTargets =
     (if dialTargets = [] then ([], [])
      else let v4 = filter (\<lambda>t. \<not> is_ipv6_target t) dialTargets; v6 = filter is_ipv6_target dialTargets
        in if v4 = [] \<or> v6 = [] then (dialTargets, [])
           else if is_ipv6_target (hd dialTargets) then (v6, v4)
           else (v4, v6))"

text \<open>The loop of \<^verbatim>\<open>dialTCPAddresses\<close>; \<open>lastErr\<close> is the error of the address before.\<close>

fun dial_loop ::
  "('w, 'c) net_ops \<Rightarrow> resolver \<Rightarrow> goerr option \<Rightarrow> string list \<Rightarrow> ('w, goerr option + 'c) io" where
  "dial_loop N rv lastErr [] = ret (Inl lastErr)"
| "dial_loop N rv lastErr (target # targets) = do {
     c \<leftarrow> op_Dial N rv target;
     (case c of
        Inr conn \<Rightarrow> ret (Inr conn)
      | Inl e \<Rightarrow> dial_loop N rv (Some e) targets)
   }"

text \<open>With no address both results of the source are nil; no caller passes an empty list.\<close>

definition dialTCPAddresses ::
  "('w, 'c) net_ops \<Rightarrow> resolver \<Rightarrow> string list \<Rightarrow> ('w, goerr option + 'c) io" where
  "dialTCPAddresses N rv targets = dial_loop N rv None targets"

text \<open>
  The two workers of \<^verbatim>\<open>dialTCPHappyEyeballs\<close> run concurrently. A worker waits for its delay (which ends
  early, with an error, if the context is cancelled), dials its addresses one after the other, and
  sends its outcome to the channel. \<open>race\<close> interleaves them address by address: before each move
  \<open>op_Pick\<close> says who goes on, and the outcomes are collected in the order in which they are sent. The
  first argument bounds the moves; \<open>work_left\<close> of both workers is enough.
\<close>

datatype 'c worker = WDelay duration "string list" | WDial "goerr option" "string list" | WDone

fun work_left :: "'c worker \<Rightarrow> nat" where
  "work_left (WDelay d ts) = length ts + 2"
| "work_left (WDial e ts) = length ts + 1"
| "work_left WDone = 0"

definition start_worker :: "string list \<Rightarrow> duration \<Rightarrow> 'c worker" where
  "start_worker targets delay = (if delay > 0 then WDelay delay targets else WDial None targets)"

fun work ::
  "('w, 'c) net_ops \<Rightarrow> resolver \<Rightarrow> 'c worker \<Rightarrow> ('w, 'c worker \<times> (goerr option + 'c) list) io" where
  "work N rv (WDelay delay ts) = do {
     ce \<leftarrow> op_Delay N delay;
     ret (case ce of Some e \<Rightarrow> (WDone, [Inl (Some e)]) | None \<Rightarrow> (WDial None ts, []))
   }"
| "work N rv (WDial lastErr []) = ret (WDone, [Inl lastErr])"
| "work N rv (WDial lastErr (t # ts)) = do {
     c \<leftarrow> op_Dial N rv t;
     ret (case c of Inr conn \<Rightarrow> (WDone, [Inr conn]) | Inl e \<Rightarrow> (WDial (Some e) ts, []))
   }"
| "work N rv WDone = ret (WDone, [])"

fun race ::
  "('w, 'c) net_ops \<Rightarrow> resolver \<Rightarrow> nat \<Rightarrow> 'c worker \<Rightarrow> 'c worker \<Rightarrow> (goerr option + 'c) list
     \<Rightarrow> ('w, (goerr option + 'c) list) io" where
  "race N rv 0 a b outcomes = ret outcomes"
| "race N rv (Suc k) a b outcomes = do {
     first \<leftarrow> op_Pick N;
     if b = WDone \<or> (first \<and> a \<noteq> WDone)
     then do { (a', out) \<leftarrow> work N rv a; race N rv k a' b (outcomes @ out) }
     else do { (b', out) \<leftarrow> work N rv b; race N rv k a b' (outcomes @ out) }
   }"

text \<open>
  The loop that reads the outcomes stops at the first success. \<open>await_first\<close> runs the workers up to
  there, or until both are done; it is a prefix of \<open>race\<close> and returns the moves left and the workers.
\<close>

fun first_conn :: "(goerr option + 'c) list \<Rightarrow> 'c option" where
  "first_conn [] = None"
| "first_conn (Inr c # outs) = Some c"
| "first_conn (Inl e # outs) = first_conn outs"

fun await_first ::
  "('w, 'c) net_ops \<Rightarrow> resolver \<Rightarrow> nat \<Rightarrow> 'c worker \<Rightarrow> 'c worker \<Rightarrow> (goerr option + 'c) list
     \<Rightarrow> ('w, nat \<times> 'c worker \<times> 'c worker \<times> (goerr option + 'c) list) io" where
  "await_first N rv 0 a b outcomes = ret (0, a, b, outcomes)"
| "await_first N rv (Suc k) a b outcomes =
     (if first_conn outcomes \<noteq> None \<or> (a = WDone \<and> b = WDone) then ret (Suc k, a, b, outcomes)
      else do {
        first \<leftarrow> op_Pick N;
        if b = WDone \<or> (first \<and> a \<noteq> WDone)
        then do { (a', out) \<leftarrow> work N rv a; await_first N rv k a' b (outcomes @ out) }
        else do { (b', out) \<leftarrow> work N rv b; await_first N rv k a b' (outcomes @ out) }
      })"

text \<open>
  The goroutine that the winner leaves behind: it waits for the workers, of which one may still be at
  work, and then closes the connections of the outcomes that are left in the channel. The winner's
  outcome has been received, so it is not among them and the comparison with it is left out.
\<close>

datatype 'c background = Background "'c worker" "'c worker" "(goerr option + 'c) list"

definition close_loser :: "('w, 'c) net_ops \<Rightarrow> goerr option + 'c \<Rightarrow> ('w, unit) io" where
  "close_loser N loser = (case loser of Inr c \<Rightarrow> op_Close N c | Inl _ \<Rightarrow> ret ())"

fun bg_step :: "('w, 'c) net_ops \<Rightarrow> resolver \<Rightarrow> 'c background \<Rightarrow> ('w, 'c background) io" where
  "bg_step N rv (Background a b results) =
     (if a = WDone \<and> b = WDone then
        (case results of
           [] \<Rightarrow> ret (Background a b [])
         | loser # rest \<Rightarrow> do { close_loser N loser; ret (Background a b rest) })
      else do {
        first \<leftarrow> op_Pick N;
        if b = WDone \<or> (first \<and> a \<noteq> WDone)
        then do { (a', out) \<leftarrow> work N rv a; ret (Background a' b (results @ out)) }
        else do { (b', out) \<leftarrow> work N rv b; ret (Background a b' (results @ out)) }
      })"

text \<open>
  How many moves it has left at most. \<open>meanwhile\<close> lets it make some of them, as \<open>op_Pick\<close> says, while
  the caller of the dial is between two of its own calls; \<open>finish\<close> lets it run to its end.
\<close>

fun bg_left :: "'c background \<Rightarrow> nat" where
  "bg_left (Background a b results) = 2 * (work_left a + work_left b) + length results"

fun bg_moves :: "('w, 'c) net_ops \<Rightarrow> resolver \<Rightarrow> nat \<Rightarrow> 'c background \<Rightarrow> ('w, 'c background) io" where
  "bg_moves N rv 0 g = ret g"
| "bg_moves N rv (Suc n) g = do {
     goes \<leftarrow> op_Pick N;
     if goes then do { g' \<leftarrow> bg_step N rv g; bg_moves N rv n g' } else ret g
   }"

fun bg_run :: "('w, 'c) net_ops \<Rightarrow> resolver \<Rightarrow> nat \<Rightarrow> 'c background \<Rightarrow> ('w, 'c background) io" where
  "bg_run N rv 0 g = ret g"
| "bg_run N rv (Suc n) g = do { g' \<leftarrow> bg_step N rv g; bg_run N rv n g' }"

definition meanwhile :: "('w, 'c) net_ops \<Rightarrow> resolver \<Rightarrow> 'c background option \<Rightarrow> ('w, 'c background option) io" where
  "meanwhile N rv bg =
     (case bg of None \<Rightarrow> ret None | Some g \<Rightarrow> do { g' \<leftarrow> bg_moves N rv (bg_left g) g; ret (Some g') })"

definition finish :: "('w, 'c) net_ops \<Rightarrow> resolver \<Rightarrow> 'c background option \<Rightarrow> ('w, 'c background option) io" where
  "finish N rv bg =
     (case bg of None \<Rightarrow> ret None | Some g \<Rightarrow> do { g' \<leftarrow> bg_run N rv (bg_left g) g; ret (Some g') })"

definition dial_error :: "goerr option \<Rightarrow> goerr" where
  "dial_error e = (case e of Some e \<Rightarrow> e | None \<Rightarrow> SysErr ''no address dialled'')"

text \<open>
  The first success wins and is returned at once, with the goroutine that is left behind; the context
  of the workers is cancelled in every case. What a cancelled context does to a dial or a delay is up
  to the network.
\<close>

definition dialTCPHappyEyeballs ::
  "('w, 'c) net_ops \<Rightarrow> resolver \<Rightarrow> string list \<Rightarrow> ('w, (goerr + 'c) \<times> 'c background option) io" where
  "dialTCPHappyEyeballs N rv dialTargets =
     (if dialTargets = [] then ret (Inl (Errorf ''no dial targets'' []), None)
      else case splitDialFamilies dialTargets of (primary, fallback) \<Rightarrow>
        if fallback = [] then do {
          r \<leftarrow> dialTCPAddresses N rv primary;
          ret (case r of Inr c \<Rightarrow> Inr c | Inl e \<Rightarrow> Inl (dial_error e), None)
        }
        else do {
          let a = start_worker primary 0;
          let b = start_worker fallback happyEyeballsFallbackDelay;
          (_, a', b', outcomes) \<leftarrow> await_first N rv (work_left a + work_left b) a b [];
          op_Cancel N;
          ret (case (first_conn outcomes, outcomes) of
             (Some winner, _) \<Rightarrow> (Inr winner, Some (Background a' b' []))
           | (None, [_, Inl lastErr]) \<Rightarrow> (Inl (dial_error lastErr), None)
           | _ \<Rightarrow> (Inl (dial_error None), None))
        })"

text \<open>\<open>sd_background\<close> is no field of the source: the goroutine that the dial has left behind.\<close>

record 'c splitDialResult =
  sd_conn :: "'c option"
  sd_dnsStart :: gotime
  sd_dnsEnd :: gotime
  sd_tcpStart :: gotime
  sd_tcpEnd :: gotime
  sd_background :: "'c background option"

text \<open>The text of the error of \<^verbatim>\<open>net.SplitHostPort\<close> is not modelled.\<close>

definition addr_error :: goerr where
  "addr_error = SysErr ''address error''"

definition dial_timed ::
  "('w, 'c) net_ops \<Rightarrow> resolver \<Rightarrow> 'c splitDialResult \<Rightarrow> string list
     \<Rightarrow> ('w, 'c splitDialResult \<times> goerr option) io" where
  "dial_timed N rv r dialTargets = do {
     t2 \<leftarrow> op_Now N;
     (c, bg) \<leftarrow> dialTCPHappyEyeballs N rv dialTargets;
     bg' \<leftarrow> meanwhile N rv bg;
     t3 \<leftarrow> op_Now N;
     let r' = r\<lparr>sd_tcpStart := t2, sd_tcpEnd := t3, sd_background := bg'\<rparr>;
     (case c of
        Inl e \<Rightarrow> ret (r', Some e)
      | Inr conn \<Rightarrow> ret (r'\<lparr>sd_conn := Some conn\<rparr>, None))
   }"

definition dialTCPWithSplitPhases ::
  "('w, 'c) net_ops \<Rightarrow> resolver \<Rightarrow> string \<Rightarrow> ('w, 'c splitDialResult \<times> goerr option) io" where
  "dialTCPWithSplitPhases N rv address =
     (let zero = \<lparr>sd_conn = None, sd_dnsStart = 0, sd_dnsEnd = 0, sd_tcpStart = 0, sd_tcpEnd = 0,
        sd_background = None\<rparr>
      in case SplitHostPort address of
        None \<Rightarrow> ret (zero, Some addr_error)
      | Some (host, port) \<Rightarrow>
          if isLiteralIPHost host then dial_timed N rv zero [address]
          else do {
            t0 \<leftarrow> op_Now N;
            ips \<leftarrow> op_LookupIPAddr N rv host;
            t1 \<leftarrow> op_Now N;
            let timed = zero\<lparr>sd_dnsStart := t0, sd_dnsEnd := t1\<rparr>;
            (case ips of
               Inl e \<Rightarrow> ret (timed, Some (Errorf ''dns resolve: %w'' [FErr e]))
             | Inr addrs \<Rightarrow>
                 if addrs = [] then ret (timed, Some (Errorf ''dns resolve: no results returned'' []))
                 else dial_timed N rv timed (joinDialTargets addrs port))
          })"

section \<open>What a result promises\<close>

text \<open>Phases are a map from known phase labels to durations that are not negative.\<close>

definition phases_ok :: "duration gomap \<Rightarrow> bool" where
  "phases_ok ps \<longleftrightarrow> mok ps \<and> set (mkeys ps) \<subseteq> set AllPhases \<and> (\<forall>k d. mget ps k = Some d \<longrightarrow> 0 \<le> d)"

text \<open>
  The contract of the interface \<^verbatim>\<open>Prober\<close>: the error is empty exactly for a success, and the phases
  are those the metrics component knows how to delete.
\<close>

definition result_ok :: "ProbeResult \<Rightarrow> bool" where
  "result_ok r \<longleftrightarrow> (pr_Success r \<longleftrightarrow> pr_Error r = None) \<and> phases_ok (pr_Phases r)"

lemma phases_ok_None [simp]: "phases_ok None" and phases_ok_Nil [simp]: "phases_ok (Some [])"
  by (simp_all add: phases_ok_def mok_def mkeys_def mget_def)

lemma safeSub_nonneg [simp]: "0 \<le> safeSub a b"
  by (simp add: safeSub_def Let_def)

lemma phases_ok_add [simp]:
  "phases_ok ps \<Longrightarrow> p \<in> set AllPhases \<Longrightarrow> phases_ok (addObservedPhase ps p a b)"
  by (auto simp: addObservedPhase_def phases_ok_def mkeys_mput)

lemma known_phases [simp]:
  "PhaseDNSResolve \<in> set AllPhases" "PhaseTCPConnect \<in> set AllPhases" "PhaseTLSHandshake \<in> set AllPhases"
  by (simp_all add: AllPhases_def)

lemma set_phases_fields [simp]:
  "pr_Success (set_phases ps r) = pr_Success r" "pr_Error (set_phases ps r) = pr_Error r"
  by (simp_all add: set_phases_def)

lemma phases_ok_set_phases [simp]:
  "phases_ok ps \<Longrightarrow> phases_ok (pr_Phases r) \<Longrightarrow> phases_ok (pr_Phases (set_phases ps r))"
  by (simp add: set_phases_def)

lemma zero_result_ok [simp]:
  "pr_Phases zero_result = None" "pr_Success zero_result = False" "pr_Error zero_result = None"
  by (simp_all add: zero_result_def)

locale prober =
  fixes probe :: "TargetConfig \<Rightarrow> ('w, ProbeResult) io"
  assumes probe_ok: "always (probe t) result_ok"
begin

lemma error_iff_failure:
  "pr_Success (fst (run_state (probe t) w)) \<longleftrightarrow> pr_Error (fst (run_state (probe t) w)) = None"
  using alwaysD [OF probe_ok] by (simp add: result_ok_def)

lemma known_phases_only:
  "set (mkeys (pr_Phases (fst (run_state (probe t) w)))) \<subseteq> set AllPhases"
  using alwaysD [OF probe_ok] by (simp add: result_ok_def phases_ok_def)

end

section \<open>Facts on resolving and dialling\<close>

lemma resolveIPv4_addr: "always (resolveIPv4 N rv a) (\<lambda>(r, e). (e = None) = (ir_addr r \<noteq> None))"
  unfolding resolveIPv4_def by (intro always_intro) auto

lemma dial_timed_conn:
  "sd_conn r = None \<Longrightarrow> always (dial_timed N rv r ts) (\<lambda>(d, e). (e = None) = (sd_conn d \<noteq> None))"
  unfolding dial_timed_def by (intro always_intro) auto

lemma dial_conn:
  "always (dialTCPWithSplitPhases N rv a) (\<lambda>(d, e). (e = None) = (sd_conn d \<noteq> None))"
  unfolding dialTCPWithSplitPhases_def by (intro always_intro dial_timed_conn) auto

lemma work_left_0 [simp]: "work_left a = 0 \<longleftrightarrow> a = WDone"
  by (cases a) auto

lemma work_progress:
  "always (work N rv a) (\<lambda>(a', out). if a = WDone then a' = WDone \<and> out = []
     else work_left a' < work_left a \<and> length out = (if a' = WDone then 1 else 0))"
  by (induction N rv a rule: work.induct) (auto intro!: always_intro split: option.splits sum.splits)

lemma race_outcomes:
  assumes "work_left a + work_left b \<le> k"
  shows "always (race N rv k a b outs)
    (\<lambda>r. length r = length outs + (if a = WDone then 0 else 1) + (if b = WDone then 0 else 1))"
  using assms
proof (induction k arbitrary: a b outs)
  case 0
  then show ?case by (auto intro!: always_intro)
next
  case (Suc k)
  have move_a: "always (do { (a', out) \<leftarrow> work N rv a; race N rv k a' b (outs @ out) })
      (\<lambda>r. length r = length outs + (if a = WDone then 0 else 1) + (if b = WDone then 0 else 1))"
    if "a \<noteq> WDone \<or> b = WDone"
    using Suc that by (intro always_bind [OF work_progress] always_case_prod always_mono [OF Suc.IH])
      (auto split: if_splits)
  have move_b: "always (do { (b', out) \<leftarrow> work N rv b; race N rv k a b' (outs @ out) })
      (\<lambda>r. length r = length outs + (if a = WDone then 0 else 1) + (if b = WDone then 0 else 1))"
    if "b \<noteq> WDone"
    using Suc that by (intro always_bind [OF work_progress] always_case_prod always_mono [OF Suc.IH])
      (auto split: if_splits)
  show ?case unfolding race.simps by (intro always_bindT always_if move_a move_b) auto
qed

lemma start_worker_not_done: "start_worker ts d \<noteq> WDone"
  by (simp add: start_worker_def)

lemma first_conn_append: "first_conn (xs @ ys) = (case first_conn xs of None \<Rightarrow> first_conn ys | Some c \<Rightarrow> Some c)"
  by (induction xs rule: first_conn.induct) simp_all

text \<open>Reading up to the first success and going on is the whole race.\<close>

lemma race_split:
  "race N rv k a b outs
     = do { (k', a', b', outs') \<leftarrow> await_first N rv k a b outs; race N rv k' a' b' outs' }"
proof (induction k arbitrary: a b outs)
  case (Suc k)
  have IH: "race N rv k = (\<lambda>a b outs. do { (k', a', b', outs') \<leftarrow> await_first N rv k a b outs; race N rv k' a' b' outs' })"
    using Suc.IH by (intro ext)
  show ?case
    by (cases "first_conn outs \<noteq> None \<or> (a = WDone \<and> b = WDone)")
      (auto simp: IH State_Monad.bind_def split: prod.splits)
qed (simp add: bind_left_identity)

definition unfinished :: "'c worker \<Rightarrow> nat" where
  "unfinished a = (if a = WDone then 0 else 1)"

lemma await_first_outcomes:
  assumes "work_left a + work_left b \<le> k"
  shows "always (await_first N rv k a b outs) (\<lambda>(k', a', b', outs').
    length outs' + unfinished a' + unfinished b' = length outs + unfinished a + unfinished b
    \<and> (first_conn outs' \<noteq> None \<or> a' = WDone \<and> b' = WDone))"
  using assms
proof (induction k arbitrary: a b outs)
  case 0
  then show ?case by (auto intro!: always_intro)
next
  case (Suc k)
  let ?P = "\<lambda>(k', a', b', outs'). length outs' + unfinished a' + unfinished b' = length outs + unfinished a + unfinished b
    \<and> (first_conn outs' \<noteq> None \<or> a' = WDone \<and> b' = WDone)"
  have move_a: "always (do { (a', out) \<leftarrow> work N rv a; await_first N rv k a' b (outs @ out) }) ?P" if "a \<noteq> WDone"
    using Suc that by (intro always_bind [OF work_progress] always_case_prod always_mono [OF Suc.IH])
      (auto simp: unfinished_def split: if_splits)
  have move_b: "always (do { (b', out) \<leftarrow> work N rv b; await_first N rv k a b' (outs @ out) }) ?P" if "b \<noteq> WDone"
    using Suc that by (intro always_bind [OF work_progress] always_case_prod always_mono [OF Suc.IH])
      (auto simp: unfinished_def split: if_splits)
  show ?case unfolding await_first.simps
    by (intro always_if always_bindT always_ret move_a move_b) auto
qed

text \<open>
  C40: the race of the two address families ends. With the moves that the workers have, whatever the
  interleaving and whatever the dials return, exactly one outcome of each worker is collected, so the
  loop that reads two outcomes from the channel never blocks: it stops with a connection or with the
  outcomes of both workers.
\<close>

theorem race_completes:
  "let a = start_worker primary 0; b = start_worker fallback happyEyeballsFallbackDelay
   in length (fst (run_state (race N rv (work_left a + work_left b) a b []) w)) = 2
     \<and> (case fst (run_state (await_first N rv (work_left a + work_left b) a b []) w) of
          (_, _, _, outcomes) \<Rightarrow> (case first_conn outcomes of Some winner \<Rightarrow> True | None \<Rightarrow> length outcomes = 2))"
proof -
  let ?a = "start_worker primary 0" and ?b = "start_worker fallback happyEyeballsFallbackDelay"
  note r = alwaysD [OF race_outcomes [OF order.refl], of N rv ?a ?b "[]" w]
    and f = alwaysD [OF await_first_outcomes [OF order.refl, where a = ?a and b = ?b and N = N and rv = rv and outs = "[]"], of w]
  show ?thesis using r f by (auto simp: start_worker_not_done unfinished_def split: prod.splits option.splits)
qed

text \<open>
  \<^verbatim>\<open>splitDialFamilies\<close> loses and duplicates no address: primary and fallback together are the
  addresses, in their order within each family; the first address is always a primary one, and if
  there is a fallback then the families are separated.
\<close>

lemma splitDialFamilies_partition:
  assumes "splitDialFamilies ts = (primary, fallback)" and "ts \<noteq> []"
  shows "mset primary + mset fallback = mset ts \<and> hd primary = hd ts
    \<and> (fallback \<noteq> [] \<longrightarrow> primary = filter (\<lambda>t. is_ipv6_target t = is_ipv6_target (hd ts)) ts
         \<and> fallback = filter (\<lambda>t. is_ipv6_target t \<noteq> is_ipv6_target (hd ts)) ts)"
proof -
  obtain t us where ts: "ts = t # us" using assms(2) by (cases ts) simp_all
  have m: "mset (filter P us) + mset (filter (\<lambda>x. \<not> P x) us) = mset us"
    "mset (filter (\<lambda>x. \<not> P x) us) + mset (filter P us) = mset us" for P
    by (simp_all add: mset_filter)
  show ?thesis using assms ts m
    by (cases "is_ipv6_target t") (auto simp: splitDialFamilies_def Let_def split: if_splits)
qed

end
