(* ===== verification/Config_Defaults.thy ===== *)
theory Config_Defaults
  imports Config_Types
begin

text \<open>
  \<^verbatim>\<open>applyDefaults\<close> of \<^verbatim>\<open>config.go\<close>: the defaults of the agent section and, for every target, the
  fields it inherits from the agent. The lemmas say what a defaulted configuration satisfies, that
  an explicit value of a target survives, and that applying the defaults twice changes nothing.
\<close>

definition apply_agent_defaults :: "AgentConfig \<Rightarrow> AgentConfig" where
  "apply_agent_defaults a =
     a\<lparr>ac_ListenAddr := (if ac_ListenAddr a = [] then '':9275'' else ac_ListenAddr a),
       ac_MetricsPath := (if ac_MetricsPath a = [] then ''/metrics'' else ac_MetricsPath a),
       ac_LogLevel := (if ac_LogLevel a = [] then ''info'' else ac_LogLevel a),
       ac_LogFormat := (if ac_LogFormat a = [] then ''text'' else ac_LogFormat a)\<rparr>"

text \<open>The options of an MTU target: payload sizes first, then retries, timeout and minimum MTU.\<close>

definition default_payload_sizes :: "AgentConfig \<Rightarrow> ProbeOptions \<Rightarrow> ProbeOptions" where
  "default_payload_sizes a opts =
     (if slen (po_ICMPPayloadSizes opts) = 0 then
        opts\<lparr>po_ICMPPayloadSizes :=
          Some (if slen (ac_DefaultICMPPayloadSizes a) > 0 then elems (ac_DefaultICMPPayloadSizes a)
                else DefaultICMPPayloadSizes)\<rparr>
      else opts)"

definition default_mtu_opts :: "ProbeOptions \<Rightarrow> ProbeOptions" where
  "default_mtu_opts opts =
     opts\<lparr>po_MTURetries := (if po_MTURetries opts = 0 then DefaultMTURetries else po_MTURetries opts),
       po_MTUPerAttemptTimeout :=
         (if po_MTUPerAttemptTimeout opts = 0 then DefaultMTUPerAttemptTimeout
          else po_MTUPerAttemptTimeout opts),
       po_ExpectedMinMTU :=
         (if po_ExpectedMinMTU opts = 0 \<and> slen (po_ICMPPayloadSizes opts) > 0
          then int64 (hd (elems (po_ICMPPayloadSizes opts)) + 28)
          else po_ExpectedMinMTU opts)\<rparr>"

definition apply_target_defaults :: "AgentConfig \<Rightarrow> TargetConfig \<Rightarrow> TargetConfig" where
  "apply_target_defaults a t =
     t\<lparr>tc_Interval := (if tc_Interval t = 0 then ac_DefaultInterval a else tc_Interval t),
       tc_Timeout := (if tc_Timeout t = 0 then ac_DefaultTimeout a else tc_Timeout t),
       tc_DNSResolver :=
         (case tc_DNSResolver t of None \<Rightarrow> Some (ac_DNSResolver a) | Some v \<Rightarrow> Some v),
       tc_ProbeOpts :=
         (if tc_ProbeType t = ProbeTypeMTU
          then default_mtu_opts (default_payload_sizes a (tc_ProbeOpts t))
          else tc_ProbeOpts t)\<rparr>"

definition applyDefaults :: "Config \<Rightarrow> Config" where
  "applyDefaults cfg =
     (let a = apply_agent_defaults (cf_Agent cfg)
      in cfg\<lparr>cf_Agent := a,
           cf_Targets := map_option (map (apply_target_defaults a)) (cf_Targets cfg)\<rparr>)"

lemmas defaults_eval [go_eval] =
  apply_agent_defaults_def default_payload_sizes_def default_mtu_opts_def apply_target_defaults_def
  applyDefaults_def

section \<open>What the defaults establish\<close>

lemma elems_map_option [simp]: "elems (map_option (map f) s) = map f (elems s)"
  by (cases s) simp_all

lemma cf_Targets_applyDefaults:
  "elems (cf_Targets (applyDefaults cfg))
     = map (apply_target_defaults (cf_Agent (applyDefaults cfg))) (elems (cf_Targets cfg))"
  by (simp add: applyDefaults_def Let_def)

lemma apply_agent_defaults_idem [simp]:
  "apply_agent_defaults (apply_agent_defaults a) = apply_agent_defaults a"
  by (simp add: apply_agent_defaults_def)

lemma default_payload_sizes_nonempty [simp]:
  "elems (po_ICMPPayloadSizes (default_payload_sizes a opts)) \<noteq> []"
  by (auto simp: default_payload_sizes_def DefaultICMPPayloadSizes_def)

lemma default_mtu_sizes [simp]:
  "po_ICMPPayloadSizes (default_mtu_opts opts) = po_ICMPPayloadSizes opts"
  by (simp add: default_mtu_opts_def)

lemma default_payload_sizes_id [simp]:
  "elems (po_ICMPPayloadSizes opts) \<noteq> [] \<Longrightarrow> default_payload_sizes a opts = opts"
  by (simp add: default_payload_sizes_def)

text \<open>
  A payload size of \<open>-28\<close> makes the computed minimum MTU zero again, which the second pass would
  compute to the same zero, so the options are stable in every case.
\<close>

lemma default_mtu_opts_idem [simp]: "default_mtu_opts (default_mtu_opts opts) = default_mtu_opts opts"
  by (simp add: default_mtu_opts_def DefaultMTURetries_def DefaultMTUPerAttemptTimeout_def Second_def)

lemma apply_target_defaults_idem [simp]:
  "apply_target_defaults a (apply_target_defaults a t) = apply_target_defaults a t"
  by (simp add: apply_target_defaults_def split: option.splits)

lemma apply_target_defaults_keeps [simp]:
  "tc_Name (apply_target_defaults a t) = tc_Name t"
  "tc_Address (apply_target_defaults a t) = tc_Address t"
  "tc_ProbeType (apply_target_defaults a t) = tc_ProbeType t"
  "tc_Tags (apply_target_defaults a t) = tc_Tags t"
  "tc_ProxyName (apply_target_defaults a t) = tc_ProxyName t"
  "tc_ResolvedProxy (apply_target_defaults a t) = tc_ResolvedProxy t"
  by (simp_all add: apply_target_defaults_def)

lemma apply_target_defaults_resolver:
  "tc_DNSResolver (apply_target_defaults a t)
     = Some (case tc_DNSResolver t of None \<Rightarrow> ac_DNSResolver a | Some v \<Rightarrow> v)"
  by (simp add: apply_target_defaults_def split: option.splits)

text \<open>
  Applying the defaults to an already defaulted configuration changes nothing, so the effective
  configuration does not depend on how often the defaults ran.
\<close>

lemma applyDefaults_idempotent: "applyDefaults (applyDefaults cfg) = applyDefaults cfg"
  by (cases "cf_Targets cfg") (simp_all add: applyDefaults_def Let_def)

text \<open>
  After the defaults every target carries an effective DNS resolver: its own value when the
  YAML sets one, also the empty string that opts out of the agent's resolver, and the agent's
  resolver otherwise. Name, address, probe type, tags and proxy of a target are untouched.
\<close>

lemma applyDefaults_resolver_three_state:
  assumes "i < length (elems (cf_Targets cfg))"
    and "t = elems (cf_Targets cfg) ! i"
    and "t' = elems (cf_Targets (applyDefaults cfg)) ! i"
  shows "length (elems (cf_Targets (applyDefaults cfg))) = length (elems (cf_Targets cfg))
    \<and> tc_DNSResolver t'
        = Some (case tc_DNSResolver t of None \<Rightarrow> ac_DNSResolver (cf_Agent cfg) | Some v \<Rightarrow> v)
    \<and> tc_Name t' = tc_Name t \<and> tc_Address t' = tc_Address t \<and> tc_ProbeType t' = tc_ProbeType t
    \<and> tc_Tags t' = tc_Tags t \<and> tc_ProxyName t' = tc_ProxyName t"
proof -
  have a: "ac_DNSResolver (cf_Agent (applyDefaults cfg)) = ac_DNSResolver (cf_Agent cfg)"
    by (simp add: applyDefaults_def apply_agent_defaults_def Let_def)
  from assms have "t' = apply_target_defaults (cf_Agent (applyDefaults cfg)) t"
    by (simp add: cf_Targets_applyDefaults)
  with a show ?thesis
    by (simp add: cf_Targets_applyDefaults apply_target_defaults_resolver split: option.splits)
qed

text \<open>An agent with a resolver and a target that opts out of it.\<close>

definition opt_out_config :: Config where
  "opt_out_config =
     \<lparr>cf_Agent = zero_agent\<lparr>ac_DNSResolver := ''8.8.8.8:53''\<rparr>, cf_Proxies = None,
      cf_Targets = Some [zero_target\<lparr>tc_Name := ''a'', tc_DNSResolver := Some []\<rparr>]\<rparr>"

end
