(* ===== verification/Proxy_URL.thy ===== *)
theory Proxy_URL
  imports Go_Net
begin

text \<open>
  Package \<^verbatim>\<open>internal/proxyurl\<close> (\<^verbatim>\<open>proxyurl.go\<close>): \<open>ProxyURL_Parse\<close> validates a proxy URL and
  normalises it, \<open>ProxyURL_Endpoint\<close> prints its canonical identity. A parsed URL is the record of
  \<^verbatim>\<open>net/url\<close>; \<^verbatim>\<open>url.ParseRequestURI\<close> itself is the parameter \<open>parse_uri\<close>, with \<open>None\<close> for its
  errors. The operand of the error texts, the redacted URL, is left out.
\<close>

record URL =
  u_Scheme :: string
  u_Opaque :: string
  u_User :: "string option"
  u_Host :: string
  u_Path :: string
  u_RawPath :: string
  u_OmitHost :: bool
  u_ForceQuery :: bool
  u_RawQuery :: string
  u_Fragment :: string

type_synonym uri_parser = "string \<Rightarrow> URL option"

definition all_digits :: "string \<Rightarrow> bool" where
  "all_digits s \<longleftrightarrow> list_all (\<lambda>c. digit_val c \<noteq> None) s"

text \<open>
  \<^verbatim>\<open>URL.Hostname\<close> and \<^verbatim>\<open>URL.Port\<close>: the last colon separates the port when only digits follow it, and
  the brackets of an IPv6 host are dropped.
\<close>

definition url_split :: "string \<Rightarrow> string \<times> string" where
  "url_split hp =
     (let (h, p) = (case before_last CHR '':'' hp of
          None \<Rightarrow> (hp, [])
        | Some (a, b) \<Rightarrow> if all_digits b then (a, b) else (hp, []))
      in (if HasPrefix h ''['' \<and> HasSuffix h '']'' then butlast (tl h) else h, p))"

definition Hostname :: "URL \<Rightarrow> string" where "Hostname u = fst (url_split (u_Host u))"
definition Port :: "URL \<Rightarrow> string" where "Port u = snd (url_split (u_Host u))"

text \<open>\<^verbatim>\<open>strconv.ParseUint(port, 10, 16)\<close>.\<close>

definition ParseUint16 :: "string \<Rightarrow> nat option" where
  "ParseUint16 s =
     (if s = [] then None
      else case digits_acc 0 s of None \<Rightarrow> None | Some n \<Rightarrow> if n \<le> 65535 then Some n else None)"

text \<open>\<^verbatim>\<open>Parse\<close>, its cases in the order of the switch.\<close>

definition ProxyURL_Parse :: "uri_parser \<Rightarrow> string \<Rightarrow> URL res" where
  "ProxyURL_Parse parse_uri raw =
     (case parse_uri raw of
        None \<Rightarrow> Inl (Errorf ''proxy url is not a valid absolute URL'' [])
      | Some u \<Rightarrow>
          if_err (first_err
            [errif (u_Opaque u \<noteq> [])
               (Errorf ''invalid proxy url %q: must use scheme://host form'' []),
             errif (ToLower (u_Scheme u) \<noteq> ''http'' \<and> ToLower (u_Scheme u) \<noteq> ''https'')
               (Errorf ''invalid proxy url %q: scheme must be http or https'' []),
             errif (Hostname u = []) (Errorf ''invalid proxy url %q: host is required'' []),
             errif (u_User u \<noteq> None) (Errorf ''invalid proxy url %q: userinfo is not supported'' []),
             errif (u_Path u \<noteq> []) (Errorf ''invalid proxy url %q: path is not allowed'' []),
             errif (u_RawQuery u \<noteq> []) (Errorf ''invalid proxy url %q: query is not allowed'' []),
             errif (u_Fragment u \<noteq> []) (Errorf ''invalid proxy url %q: fragment is not allowed'' []),
             errif (Port u \<noteq> [] \<and> (case ParseUint16 (Port u) of None \<Rightarrow> True | Some n \<Rightarrow> n = 0))
               (Errorf ''invalid proxy url %q: port must be in range 1-65535'' [])])
          (Inr (u\<lparr>u_Scheme := ToLower (u_Scheme u), u_Host := ToLower (u_Host u), u_User := None\<rparr>)))"

text \<open>
  \<^verbatim>\<open>escape(host, encodeHost)\<close> of \<^verbatim>\<open>net/url\<close>, and \<^verbatim>\<open>URL.String\<close> for a URL without user, path, query
  text and fragment, which is what \<^verbatim>\<open>Endpoint\<close> prints.
\<close>

definition host_plain :: "char \<Rightarrow> bool" where
  "host_plain c =
     (let n = of_char c :: nat in
      (48 \<le> n \<and> n \<le> 57) \<or> (65 \<le> n \<and> n \<le> 90) \<or> (97 \<le> n \<and> n \<le> 122) \<or>
      n \<in> {33, 34, 36, 38, 39, 40, 41, 42, 43, 44, 45, 46, 58, 59, 60, 61, 62, 91, 93, 95, 126})"

definition hex_char :: "nat \<Rightarrow> char" where
  "hex_char n = (if n < 10 then char_of (48 + n) else char_of (55 + n))"

definition escape_host :: "string \<Rightarrow> string" where
  "escape_host h =
     concat (map (\<lambda>c. if host_plain c then [c]
       else [CHR ''%'', hex_char (of_char c div 16), hex_char (of_char c mod 16)]) h)"

definition bare_String :: "URL \<Rightarrow> string" where
  "bare_String u =
     (if u_Scheme u \<noteq> [] then u_Scheme u @ '':'' else [])
     @ (if u_Opaque u \<noteq> [] then u_Opaque u
        else if u_Host u \<noteq> [] then ''//'' @ escape_host (u_Host u) else [])
     @ (if u_ForceQuery u then ''?'' else [])"

definition ProxyURL_Endpoint :: "URL \<Rightarrow> string" where
  "ProxyURL_Endpoint u =
     bare_String (u\<lparr>u_Scheme := ToLower (u_Scheme u), u_Host := ToLower (u_Host u), u_User := None,
       u_Path := [], u_RawPath := [], u_RawQuery := [], u_Fragment := []\<rparr>)"

lemmas proxy_url_eval [go_eval] =
  all_digits_def url_split_def Hostname_def Port_def ParseUint16_def ProxyURL_Parse_def host_plain_def
  hex_char_def escape_host_def bare_String_def ProxyURL_Endpoint_def errif_def

lemma ProxyURL_ParseD:
  assumes "ProxyURL_Parse parse_uri raw = Inr u"
  shows "\<exists>v. parse_uri raw = Some v
    \<and> u = v\<lparr>u_Scheme := ToLower (u_Scheme v), u_Host := ToLower (u_Host v), u_User := None\<rparr>
    \<and> u_Opaque v = [] \<and> ToLower (u_Scheme v) \<in> {''http'', ''https''} \<and> Hostname v \<noteq> []
    \<and> u_User v = None \<and> u_Path v = [] \<and> u_RawQuery v = [] \<and> u_Fragment v = []
    \<and> (Port v = [] \<or> (\<exists>n. ParseUint16 (Port v) = Some n \<and> 0 < n \<and> n \<le> 65535))"
proof -
  from assms obtain v where v: "parse_uri raw = Some v"
    by (cases "parse_uri raw") (simp_all add: ProxyURL_Parse_def)
  have p: "ParseUint16 s = Some n \<Longrightarrow> n \<le> 65535" for s n
    by (auto simp: ParseUint16_def split: if_splits option.splits)
  from assms v show ?thesis
    by (intro exI [of _ v]) (auto simp: ProxyURL_Parse_def split: option.splits dest: p)
qed

text \<open>The endpoint of a parsed URL does not depend on the letter case of scheme and host.\<close>

lemma ProxyURL_Endpoint_normal:
  "ProxyURL_Endpoint (u\<lparr>u_Scheme := ToLower (u_Scheme u), u_Host := ToLower (u_Host u), u_User := None\<rparr>)
     = ProxyURL_Endpoint u"
  by (simp add: ProxyURL_Endpoint_def bare_String_def)

end
