(* ===== verification/Config_Validate.thy ===== *)
theory Config_Validate
  imports Config_Defaults Proxy_URL
begin

text \<open>
  The validation half of \<^verbatim>\<open>internal/config/config.go\<close>: \<^verbatim>\<open>LoadConfig\<close>, \<^verbatim>\<open>validate\<close> and every check it
  calls, in the order of the source, each returning its first violation. Checks that fill in fields
  (\<^verbatim>\<open>validateProxies\<close>, \<^verbatim>\<open>resolveTargetProxy\<close>) return the updated value.

  What lies outside the repository is the record \<open>cfg_env\<close>: the environment and the file system
  (the arguments \<^verbatim>\<open>lookupEnv\<close> and \<^verbatim>\<open>readFile\<close> of the source), the YAML decoder, the URI parser and the
  regular-expression compiler, the last as the error text it reports. Formats of errors are those
  of the call sites, without quotation marks and without the explanations some of them append.
\<close>

section \<open>The outside world of the configuration\<close>

datatype read_result = ReadOk string | ReadNotExist | ReadFail string

record cfg_env =
  env_LookupEnv :: "string \<Rightarrow> string \<times> bool"
  env_ReadFile :: "string \<Rightarrow> read_result"
  env_LoadYAML :: "string \<Rightarrow> string + Config"
  env_ParseURI :: uri_parser
  env_CompileRegexp :: "string \<Rightarrow> string option"

definition terr :: "TargetConfig \<Rightarrow> string \<Rightarrow> fmtarg list \<Rightarrow> goerr" where
  "terr t fmt args = Errorf (''target %q: '' @ fmt) (FStr (tc_Name t) # args)"

section \<open>Credentials and proxies\<close>

definition trimTrailingNewlines :: "string \<Rightarrow> string" where
  "trimTrailingNewlines s = TrimRight s [char_of (13 :: nat), char_of (10 :: nat)]"

definition nonEmptySourceCount :: "string list \<Rightarrow> int" where
  "nonEmptySourceCount values = int (length (filter (\<lambda>v. v \<noteq> []) values))"

definition readCredentialFile :: "string \<Rightarrow> string \<Rightarrow> string \<Rightarrow> cfg_env \<Rightarrow> string res" where
  "readCredentialFile name field path E =
     (if \<not> HasPrefix path ''/'' then
        Inl (Errorf ''proxy %q: %s %q must be an absolute path'' [FStr name, FStr field, FStr path])
      else case env_ReadFile E path of
        ReadNotExist \<Rightarrow>
          Inl (Errorf ''proxy %q: %s %q does not exist'' [FStr name, FStr field, FStr path])
      | ReadFail e \<Rightarrow>
          Inl (Errorf ''proxy %q: reading %s %q: %w'' [FStr name, FStr field, FStr path, FErr (SysErr e)])
      | ReadOk d \<Rightarrow>
          (let v = trimTrailingNewlines d
           in if v = [] then
                Inl (Errorf ''proxy %q: %s %q is empty after trimming trailing newlines''
                  [FStr name, FStr field, FStr path])
              else Inr v))"

definition resolveEnvSource :: "string \<Rightarrow> string \<Rightarrow> string \<Rightarrow> cfg_env \<Rightarrow> string res" where
  "resolveEnvSource name field var E =
     (let (v, ok) = env_LookupEnv E var; v' = trimTrailingNewlines v
      in if \<not> ok \<or> v' = [] then
           Inl (Errorf (''proxy %q: '' @ field @ '' %q is not set or empty in environment'')
             [FStr name, FStr var])
         else Inr v')"

definition resolveUsername :: "string \<Rightarrow> ProxyConfig \<Rightarrow> cfg_env \<Rightarrow> string res" where
  "resolveUsername name p E =
     (if pc_Username p \<noteq> [] then Inr (pc_Username p)
      else if pc_UsernameEnv p \<noteq> [] then resolveEnvSource name ''username_env'' (pc_UsernameEnv p) E
      else if pc_UsernameFile p \<noteq> [] then readCredentialFile name ''username_file'' (pc_UsernameFile p) E
      else Inr [])"

definition resolvePassword :: "string \<Rightarrow> ProxyConfig \<Rightarrow> cfg_env \<Rightarrow> string res" where
  "resolvePassword name p E =
     (if pc_PasswordEnv p \<noteq> [] then resolveEnvSource name ''password_env'' (pc_PasswordEnv p) E
      else if pc_PasswordFile p \<noteq> [] then readCredentialFile name ''password_file'' (pc_PasswordFile p) E
      else Inr [])"

definition resolveProxyCredentials ::
  "string \<Rightarrow> ProxyConfig \<Rightarrow> cfg_env \<Rightarrow> ResolvedProxyCredentials res" where
  "resolveProxyCredentials name p E =
     (let us = nonEmptySourceCount [pc_Username p, pc_UsernameEnv p, pc_UsernameFile p];
          ps = nonEmptySourceCount [pc_PasswordEnv p, pc_PasswordFile p]
      in if_err (first_err
           [errif (pc_Username p \<noteq> [] \<and> pc_UsernameEnv p \<noteq> [])
              (Errorf ''proxy %q: cannot set both username and username_env'' [FStr name]),
            errif (pc_Username p \<noteq> [] \<and> pc_UsernameFile p \<noteq> [])
              (Errorf ''proxy %q: cannot set both username and username_file'' [FStr name]),
            errif (pc_UsernameEnv p \<noteq> [] \<and> pc_UsernameFile p \<noteq> [])
              (Errorf ''proxy %q: cannot set both username_env and username_file'' [FStr name]),
            errif (pc_PasswordEnv p \<noteq> [] \<and> pc_PasswordFile p \<noteq> [])
              (Errorf ''proxy %q: cannot set both password_env and password_file'' [FStr name])])
         (if us = 0 \<and> ps = 0 then Inr no_credentials
          else if us = 0 then
            Inl (Errorf ''proxy %q: %s is set but no username source''
              [FStr name, FStr (if pc_PasswordEnv p \<noteq> [] then ''password_env''
                 else if pc_PasswordFile p \<noteq> [] then ''password_file'' else ''password source'')])
          else if ps = 0 then
            Inl (Errorf ''proxy %q: username is set but no password source'' [FStr name])
          else case resolveUsername name p E of
            Inl e \<Rightarrow> Inl e
          | Inr u \<Rightarrow> (case resolvePassword name p E of
              Inl e \<Rightarrow> Inl e
            | Inr w \<Rightarrow> Inr \<lparr>cr_username = u, cr_password = w\<rparr>)))"

text \<open>One turn of the loop of \<^verbatim>\<open>validateProxies\<close>; \<open>endpoints\<close> maps an endpoint to its first owner.\<close>

definition validateProxy ::
  "cfg_env \<Rightarrow> string gomap \<Rightarrow> string \<Rightarrow> ProxyConfig \<Rightarrow> ProxyConfig res" where
  "validateProxy E endpoints name p =
     if_err (first_err
       [errif (\<not> proxyNameRe name) (Errorf ''proxy %q: proxy_name must match %s'' [FStr name]),
        errif (pc_URL p = []) (Errorf ''proxy %q: url is required'' [FStr name])])
     (case ProxyURL_Parse (env_ParseURI E) (pc_URL p) of
        Inl e \<Rightarrow> Inl (Errorf ''proxy %q: %w'' [FStr name, FErr e])
      | Inr u \<Rightarrow>
          (let ep = ProxyURL_Endpoint u
           in if_err (first_err
                [errif (pc_TLSSkipVerify p \<and> u_Scheme u \<noteq> ''https'')
                   (Errorf ''proxies.%s.tls_skip_verify=true is invalid for http:// proxy endpoint''
                     [FStr name]),
                 (case mget endpoints ep of
                    None \<Rightarrow> None
                  | Some first \<Rightarrow>
                      Some (Errorf ''proxy endpoint %q is registered by both proxy %q and proxy %q''
                        [FStr ep, FStr first, FStr name]))])
              (case resolveProxyCredentials name (p\<lparr>pc_Endpoint := ep\<rparr>) E of
                 Inl e \<Rightarrow> Inl e
               | Inr creds \<Rightarrow> Inr (p\<lparr>pc_Endpoint := ep, pc_Credentials := creds\<rparr>))))"

fun validateProxies_loop ::
  "cfg_env \<Rightarrow> string list \<Rightarrow> string gomap \<Rightarrow> ProxyConfig gomap \<Rightarrow> (ProxyConfig gomap) res" where
  "validateProxies_loop E [] endpoints ps = Inr ps"
| "validateProxies_loop E (name # names) endpoints ps =
     (case mget ps name of
        None \<Rightarrow> validateProxies_loop E names endpoints ps
      | Some p \<Rightarrow>
          (case validateProxy E endpoints name p of
             Inl e \<Rightarrow> Inl e
           | Inr p' \<Rightarrow>
               validateProxies_loop E names (mput endpoints (pc_Endpoint p') name) (mput ps name p')))"

definition validateProxies :: "cfg_env \<Rightarrow> Config \<Rightarrow> Config res" where
  "validateProxies E cfg =
     if_err (errif (slen (cf_Proxies cfg) > MaxProxies)
       (Errorf ''proxies has %d entries, maximum is %d'' [FInt (slen (cf_Proxies cfg)), FInt MaxProxies]))
     (case validateProxies_loop E (sort (mkeys (cf_Proxies cfg))) (Some []) (cf_Proxies cfg) of
        Inl e \<Rightarrow> Inl e
      | Inr ps \<Rightarrow> Inr (cfg\<lparr>cf_Proxies := ps\<rparr>))"

section \<open>Agent fields\<close>

definition validateMetricsPath :: "string \<Rightarrow> goerr option" where
  "validateMetricsPath p =
     first_err
       [errif (\<not> HasPrefix p ''/'') (Errorf ''agent: metrics_path %q must start with /'' [FStr p]),
        errif (p = ''/healthz'' \<or> p = ''/readyz'')
          (Errorf ''agent: metrics_path %q conflicts with built-in health endpoints'' [FStr p]),
        errif (ContainsAny p ''{}'')
          (Errorf ''agent: metrics_path %q must be a plain path, not a ServeMux pattern'' [FStr p]),
        errif (list_ex (\<lambda>r. IsSpace r \<or> IsControl r) (runes p))
          (Errorf ''agent: metrics_path %q must not contain whitespace or control characters'' [FStr p])]"

definition validateDNSResolver :: "string \<Rightarrow> goerr option" where
  "validateDNSResolver s =
     (if s = [] then None
      else case SplitHostPort s of
        None \<Rightarrow> Some (Errorf ''dns_resolver %q must be an IP literal with port, not a hostname'' [FStr s])
      | Some (host, port) \<Rightarrow>
          first_err
            [errif (ParseIP host = None)
               (Errorf ''dns_resolver %q must be an IP literal with port, not a hostname'' [FStr s]),
             errif (case Atoi port of None \<Rightarrow> True | Some n \<Rightarrow> n < 1 \<or> n > 65535)
               (Errorf ''dns_resolver %q port must be in range 1-65535'' [FStr s])])"

definition validateLabelName :: "string \<Rightarrow> goerr option" where
  "validateLabelName k =
     first_err
       [errif (\<not> prometheusLabelRe k) (Errorf ''tag key %q is not a valid Prometheus label name'' [FStr k]),
        errif (k \<in> set FixedLabels) (Errorf ''tag key %q collides with a fixed label'' [FStr k])]"

fun validateAllowedTagKeys_loop :: "string list \<Rightarrow> string list \<Rightarrow> goerr option" where
  "validateAllowedTagKeys_loop seen [] = None"
| "validateAllowedTagKeys_loop seen (k # ks) =
     first_err
       [errif (k \<in> set seen) (Errorf ''agent: duplicate entry %q in allowed_tag_keys'' [FStr k]),
        wrapf ''agent: allowed_tag_keys: %w'' [] (validateLabelName k),
        validateAllowedTagKeys_loop (k # seen) ks]"

definition validateAllowedTagKeys :: "string list \<Rightarrow> goerr option" where
  "validateAllowedTagKeys keys =
     first_err
       [errif (int (length keys) > MaxGlobalTagKeys)
          (Errorf ''agent: allowed_tag_keys has %d entries, maximum is %d''
            [FInt (int (length keys)), FInt MaxGlobalTagKeys]),
        validateAllowedTagKeys_loop [] keys]"

text \<open>The two loops over \<^verbatim>\<open>default_icmp_payload_sizes\<close>: positive values, then strictly descending.\<close>

fun first_not_positive :: "nat \<Rightarrow> int list \<Rightarrow> (nat \<times> int) option" where
  "first_not_positive i [] = None"
| "first_not_positive i (v # vs) = (if v \<le> 0 then Some (i, v) else first_not_positive (Suc i) vs)"

fun first_not_descending :: "nat \<Rightarrow> int list \<Rightarrow> (int \<times> nat \<times> int) option" where
  "first_not_descending i (a # b # vs) =
     (if b \<ge> a then Some (b, i, a) else first_not_descending (Suc i) (b # vs))"
| "first_not_descending i vs = None"

definition validateDefaultSizes :: "int list \<Rightarrow> goerr option" where
  "validateDefaultSizes sizes =
     first_err
       [(case first_not_positive 0 sizes of
           None \<Rightarrow> None
         | Some (i, v) \<Rightarrow>
             Some (Errorf ''agent: default_icmp_payload_sizes[%d] = %d must be > 0'' [FInt (int i), FInt v])),
        (case first_not_descending 1 sizes of
           None \<Rightarrow> None
         | Some (b, i, a) \<Rightarrow>
             Some (Errorf ''agent: default_icmp_payload_sizes must be sorted in descending order (found %d at index %d after %d)''
               [FInt b, FInt (int i), FInt a]))]"

end
