(* ===== verification/Config_Target.thy ===== *)
theory Config_Target
  imports Config_Validate
begin

text \<open>
  The per-target checks of \<^verbatim>\<open>internal/config/config.go\<close>: tag keys, addresses, probe options by probe
  type, and the attachment of a proxy to a target. What an accepted target satisfies is stated in \<open>Config_Load\<close>.
\<close>

section \<open>Tag keys\<close>

text \<open>The keys come in the order in which the \<^verbatim>\<open>range\<close> loop happens to visit the map.\<close>

definition validateTagKeys :: "TargetConfig \<Rightarrow> bool \<Rightarrow> string list \<Rightarrow> goerr option" where
  "validateTagKeys t allowlistMode allowlist =
     first_err (map (\<lambda>k.
       if allowlistMode
       then errif (k \<notin> set allowlist) (terr t ''tag key %q is not in agent.allowed_tag_keys'' [FStr k])
       else wrapf ''target %q: %w'' [FStr (tc_Name t)] (validateLabelName k)) (mkeys (tc_Tags t)))"

section \<open>Addresses\<close>

definition bad_port :: "string \<Rightarrow> bool" where
  "bad_port port = (case Atoi port of None \<Rightarrow> True | Some n \<Rightarrow> n < 1 \<or> n > 65535)"

definition validateTCPAddress :: "TargetConfig \<Rightarrow> goerr option" where
  "validateTCPAddress t =
     (if Contains (tc_Address t) ''://'' then Some (terr t ''probe_type tcp address must be host:port'' [])
      else case SplitHostPort (tc_Address t) of
        None \<Rightarrow> Some (terr t ''probe_type tcp address must be host:port'' [])
      | Some (host, port) \<Rightarrow>
          first_err
            [errif (host = [] \<or> port = []) (terr t ''probe_type tcp address must be host:port'' []),
             errif (bad_port port) (terr t ''probe_type tcp address port must be in range 1-65535'' [])])"

definition validateProxyConnectAddress :: "TargetConfig \<Rightarrow> goerr option" where
  "validateProxyConnectAddress t =
     (if Contains (tc_Address t) ''://'' then
        Some (terr t ''probe_type proxy_connect address must be host:port'' [])
      else case SplitHostPort (tc_Address t) of
        None \<Rightarrow> Some (terr t ''probe_type proxy_connect address must be host:port'' [])
      | Some (host, port) \<Rightarrow>
          first_err
            [errif (host = [] \<or> port = []) (terr t ''probe_type proxy_connect address must be host:port'' []),
             errif (bad_port port)
               (terr t ''probe_type proxy_connect address port must be in range 1-65535'' [])])"

definition validateIPv4OnlyAddress :: "TargetConfig \<Rightarrow> goerr option" where
  "validateIPv4OnlyAddress t =
     (let a = tc_Address t; pt = FStr (tc_ProbeType t) in
      if SplitHostPort a \<noteq> None then Some (terr t ''probe_type %q address must not include a port'' [pt])
      else if HasPrefix a ''['' \<and> HasSuffix a '']'' then
        (if ParseIP (butlast (tl a)) \<noteq> None
         then Some (terr t ''probe_type %q supports IPv4 addresses only'' [pt])
         else Some (terr t ''probe_type %q address %q is malformed'' [pt, FStr a]))
      else case ParseIP a of
        None \<Rightarrow> None
      | Some ip \<Rightarrow> errif (To4 ip = None) (terr t ''probe_type %q supports IPv4 addresses only'' [pt]))"

section \<open>Options\<close>

definition validateProxyNameUnsupported :: "TargetConfig \<Rightarrow> goerr option" where
  "validateProxyNameUnsupported t =
     errif (tc_ProxyName t \<noteq> []) (terr t ''probe_type %q does not support proxy_name'' [FStr (tc_ProbeType t)])"

definition validateBodyMatchRegex :: "cfg_env \<Rightarrow> TargetConfig \<Rightarrow> goerr option" where
  "validateBodyMatchRegex E t =
     (let r = po_BodyMatchRegex (tc_ProbeOpts t) in
      if r = [] then None
      else case env_CompileRegexp E r of
        None \<Rightarrow> None
      | Some e \<Rightarrow> Some (terr t ''invalid body_match_regex: %w'' [FErr (SysErr e)]))"

definition validateHTTPMethod :: "TargetConfig \<Rightarrow> goerr option" where
  "validateHTTPMethod t =
     (let m = po_Method (tc_ProbeOpts t) in
      if m = [] then None
      else errif (m \<notin> set validHTTPMethods) (terr t ''invalid method %q (valid: GET, HEAD, POST)'' [FStr m]))"

definition validateHTTPRequestBody :: "TargetConfig \<Rightarrow> goerr option" where
  "validateHTTPRequestBody t =
     (if po_RequestBodyBytes (tc_ProbeOpts t) = 0 then None
      else errif (po_Method (tc_ProbeOpts t) \<noteq> ''POST'')
        (terr t ''request_body_bytes requires explicit method: POST'' []))"

definition bad_code :: "int \<Rightarrow> bool" where
  "bad_code c = (c < 100 \<or> c > 599)"

definition validateExpectedStatusCodes :: "TargetConfig \<Rightarrow> goerr option" where
  "validateExpectedStatusCodes t =
     first_err (map (\<lambda>c. errif (bad_code c)
       (terr t ''invalid expected_status_codes value %d (valid: 100-599)'' [FInt c]))
       (elems (po_ExpectedStatusCodes (tc_ProbeOpts t))))"

definition validateExpectedProxyConnectStatusCodes :: "TargetConfig \<Rightarrow> goerr option" where
  "validateExpectedProxyConnectStatusCodes t =
     first_err (map (\<lambda>c. errif (bad_code c)
       (terr t ''invalid expected_proxy_connect_status_codes value %d (valid: 100-599)'' [FInt c]))
       (elems (po_ExpectedProxyConnectStatusCodes (tc_ProbeOpts t))))"

definition resolved_of :: "ProxyConfig \<Rightarrow> ResolvedProxyConfig" where
  "resolved_of p =
     \<lparr>rp_Endpoint = pc_Endpoint p, rp_TLSSkipVerify = pc_TLSSkipVerify p, rp_Username = pc_Username p,
      rp_UsernameEnv = pc_UsernameEnv p, rp_UsernameFile = pc_UsernameFile p,
      rp_PasswordEnv = pc_PasswordEnv p, rp_PasswordFile = pc_PasswordFile p,
      rp_Credentials = pc_Credentials p\<rparr>"

definition resolveTargetProxy :: "TargetConfig \<Rightarrow> ProxyConfig gomap \<Rightarrow> bool \<Rightarrow> TargetConfig res" where
  "resolveTargetProxy t proxies required =
     (if tc_ProxyName t = [] then
        (if required then Inl (terr t ''probe_type proxy_connect requires proxy_name'' []) else Inr t)
      else if \<not> proxyNameRe (tc_ProxyName t) then
        Inl (terr t ''proxy_name %q must match %s'' [FStr (tc_ProxyName t)])
      else if slen proxies = 0 then
        Inl (terr t ''proxy_name %q requires a top-level proxies registry'' [FStr (tc_ProxyName t)])
      else case mget proxies (tc_ProxyName t) of
        None \<Rightarrow>
          Inl (terr t ''unknown proxy_name %q (known proxies: %s)''
            (FStr (tc_ProxyName t) # map FStr (sort (mkeys proxies))))
      | Some p \<Rightarrow> Inr (t\<lparr>tc_ResolvedProxy := Some (resolved_of p)\<rparr>))"

definition validateICMPPayloadSizes :: "TargetConfig \<Rightarrow> goerr option" where
  "validateICMPPayloadSizes t =
     (let opts = tc_ProbeOpts t; sizes = elems (po_ICMPPayloadSizes opts) in
      if sizes = [] then Some (terr t ''icmp_payload_sizes must be non-empty'' [])
      else first_err
        [(case first_not_descending 1 sizes of
            None \<Rightarrow> None
          | Some (b, i, a) \<Rightarrow>
              Some (terr t ''icmp_payload_sizes must be sorted in descending order (found %d at index %d after %d)''
                [FInt b, FInt (int i), FInt a])),
         (case first_not_positive 0 sizes of
            None \<Rightarrow> None
          | Some (i, v) \<Rightarrow>
              Some (terr t ''icmp_payload_sizes values must be > 0 (found %d at index %d)''
                [FInt v, FInt (int i)])),
         errif (po_ExpectedMinMTU opts \<le> 0) (terr t ''expected_min_mtu must be > 0'' []),
         errif (po_ExpectedMinMTU opts > int64 (hd sizes + 28))
           (terr t ''expected_min_mtu (%d) exceeds largest tested MTU (%d)''
             [FInt (po_ExpectedMinMTU opts), FInt (int64 (hd sizes + 28))]),
         errif (po_MTURetries opts < 1) (terr t ''mtu_retries must be >= 1'' []),
         errif (po_MTUPerAttemptTimeout opts \<le> 0) (terr t ''mtu_per_attempt_timeout must be > 0'' []),
         errif (po_MTUPerAttemptTimeout opts > tc_Timeout t)
           (terr t ''mtu_per_attempt_timeout (%s) exceeds timeout (%s)''
             [FInt (po_MTUPerAttemptTimeout opts), FInt (tc_Timeout t)])])"

definition validateDNSQueryType :: "TargetConfig \<Rightarrow> goerr option" where
  "validateDNSQueryType t =
     (let qt = po_DNSQueryType (tc_ProbeOpts t) in
      errif (qt \<noteq> [] \<and> qt \<notin> set ValidDNSQueryTypes)
        (terr t ''invalid dns_query_type %q (valid: A, AAAA, CNAME)'' [FStr qt]))"

definition validateDNSServer :: "string \<Rightarrow> goerr option" where
  "validateDNSServer s =
     (let bad = Some (Errorf ''probe_opts.dns_server %q must be an IP literal, not a hostname'' [FStr s]) in
      if s = [] then None
      else case (case SplitHostPort s of
                   Some hp \<Rightarrow> Some hp
                 | None \<Rightarrow> SplitHostPort (JoinHostPort s ''53'')) of
        None \<Rightarrow> bad
      | Some (host, _) \<Rightarrow> if ParseIP host = None then bad else None)"

section \<open>Options by probe type\<close>

text \<open>The first half of \<^verbatim>\<open>validateProbeOpts\<close>: values, and options that belong to other probe types.\<close>

definition validateProbeOpts_common :: "TargetConfig \<Rightarrow> goerr option" where
  "validateProbeOpts_common t =
     (let opts = tc_ProbeOpts t; ty = tc_ProbeType t; http = ty = ProbeTypeHTTP;
          httpish = (ty = ProbeTypeHTTP \<or> ty = ProbeTypeHTTPBody) in
      first_err
        [errif (po_ResponseBodyLimitBytes opts < 0) (terr t ''response_body_limit_bytes must be >= 0'' []),
         errif (po_RequestBodyBytes opts < 0) (terr t ''request_body_bytes must be >= 0'' []),
         errif (po_RequestBodyBytes opts > MaxHTTPRequestBodyBytes)
           (terr t ''request_body_bytes must be <= %d'' [FInt MaxHTTPRequestBodyBytes]),
         errif (po_RequestBodyBytes opts > 0 \<and> \<not> http)
           (terr t ''request_body_bytes is supported only for probe_type http'' []),
         errif (slen (po_ExpectedProxyConnectStatusCodes opts) > 0 \<and> ty \<noteq> ProbeTypeProxyConnect)
           (terr t ''expected_proxy_connect_status_codes is supported only for probe_type proxy_connect'' []),
         errif (po_TLSEmitCertMetrics opts \<and> \<not> http)
           (terr t ''tls_emit_cert_metrics is supported only for probe_type http'' []),
         errif (po_Method opts \<noteq> [] \<and> \<not> httpish)
           (terr t ''method is supported only for probe_type http or http_body'' []),
         errif (slen (po_Headers opts) > 0 \<and> \<not> httpish)
           (terr t ''headers is supported only for probe_type http or http_body'' []),
         errif (po_FollowRedirects opts \<and> \<not> httpish)
           (terr t ''follow_redirects is supported only for probe_type http or http_body'' []),
         errif (po_TLSSkipVerify opts \<and> \<not> httpish \<and> ty \<noteq> ProbeTypeTLSCert)
           (terr t ''tls_skip_verify is supported only for probe_type http, http_body, or tls_cert'' []),
         errif (slen (po_ExpectedStatusCodes opts) > 0 \<and> \<not> httpish \<and> ty \<noteq> ProbeTypeProxyConnect)
           (terr t ''expected_status_codes is supported only for probe_type http or http_body'' []),
         errif (po_ResponseBodyLimitBytes opts > 0 \<and> \<not> http)
           (terr t ''response_body_limit_bytes is supported only for probe_type http'' []),
         errif ((po_BodyMatchRegex opts \<noteq> [] \<or> po_BodyMatchString opts \<noteq> []) \<and> ty \<noteq> ProbeTypeHTTPBody)
           (terr t ''body_match_regex and body_match_string are supported only for probe_type http_body'' []),
         errif ((po_PingCount opts \<noteq> 0 \<or> po_PingIntervalSec opts \<noteq> Fin 0) \<and> ty \<noteq> ProbeTypeICMP)
           (terr t ''ping_count and ping_interval are supported only for probe_type icmp'' []),
         errif ((slen (po_ICMPPayloadSizes opts) > 0 \<or> po_ExpectedMinMTU opts \<noteq> 0 \<or> po_MTURetries opts \<noteq> 0
              \<or> po_MTUPerAttemptTimeout opts \<noteq> 0) \<and> ty \<noteq> ProbeTypeMTU)
           (terr t ''icmp_payload_sizes, expected_min_mtu, mtu_retries, and mtu_per_attempt_timeout are supported only for probe_type mtu'' []),
         errif ((po_DNSQueryName opts \<noteq> [] \<or> po_DNSQueryType opts \<noteq> [] \<or> po_DNSServer opts \<noteq> []
              \<or> slen (po_DNSExpectedResults opts) > 0) \<and> ty \<noteq> ProbeTypeDNS)
           (terr t ''dns_query_name, dns_query_type, dns_server, and dns_expected are supported only for probe_type dns'' [])])"

text \<open>The switch on the probe type; only the proxy of the target changes.\<close>

definition validateProbeOpts_switch ::
  "cfg_env \<Rightarrow> TargetConfig \<Rightarrow> ProxyConfig gomap \<Rightarrow> TargetConfig res" where
  "validateProbeOpts_switch E t proxies =
     (let ty = tc_ProbeType t; opts = tc_ProbeOpts t in
      if ty = ProbeTypeTCP then
        if_err (first_err [validateProxyNameUnsupported t, validateTCPAddress t]) (Inr t)
      else if ty = ProbeTypeHTTP \<or> ty = ProbeTypeHTTPBody then
        (case resolveTargetProxy t proxies False of
           Inl e \<Rightarrow> Inl e
         | Inr t' \<Rightarrow>
             if_err (first_err
               [validateHTTPMethod t', validateHTTPRequestBody t',
                (if ty = ProbeTypeHTTPBody then
                   first_err
                     [errif (po_BodyMatchRegex opts = [] \<and> po_BodyMatchString opts = [])
                        (terr t ''probe_type http_body requires body_match_regex or body_match_string in probe_opts'' []),
                      validateBodyMatchRegex E t']
                 else None),
                validateExpectedStatusCodes t'])
             (Inr t'))
      else if ty = ProbeTypeICMP then
        if_err (first_err [validateProxyNameUnsupported t, validateIPv4OnlyAddress t]) (Inr t)
      else if ty = ProbeTypeMTU then
        if_err (first_err
          [validateProxyNameUnsupported t, validateIPv4OnlyAddress t, validateICMPPayloadSizes t]) (Inr t)
      else if ty = ProbeTypeDNS then
        if_err (first_err
          [validateProxyNameUnsupported t, validateDNSQueryType t,
           wrapf ''target %q: %w'' [FStr (tc_Name t)] (validateDNSServer (po_DNSServer opts))]) (Inr t)
      else if ty = ProbeTypeTLSCert then resolveTargetProxy t proxies False
      else if ty = ProbeTypeProxyConnect then
        (case resolveTargetProxy t proxies True of
           Inl e \<Rightarrow> Inl e
         | Inr t' \<Rightarrow>
             if_err (first_err
               [validateProxyConnectAddress t',
                errif (slen (po_ExpectedStatusCodes opts) > 0)
                  (terr t ''expected_status_codes is not supported for probe_type proxy_connect; use expected_proxy_connect_status_codes instead'' []),
                validateExpectedProxyConnectStatusCodes t'])
             (Inr t'))
      else Inr t)"

definition validateProbeOpts ::
  "cfg_env \<Rightarrow> TargetConfig \<Rightarrow> ProxyConfig gomap \<Rightarrow> TargetConfig res" where
  "validateProbeOpts E t proxies =
     if_err (validateProbeOpts_common t) (validateProbeOpts_switch E t proxies)"

end
