(* ===== verification/Config_Load.thy ===== *)
theory Config_Load
  imports Config_Target
begin

text \<open>
  \<^verbatim>\<open>validate\<close>, \<^verbatim>\<open>LoadConfig\<close> and \<^verbatim>\<open>CollectTagKeys\<close> of \<^verbatim>\<open>internal/config/config.go\<close>, and what a loaded
  configuration satisfies: unique names, positive timeouts within the interval, payload sizes in
  strictly descending order, a proxy for every target that names one, one endpoint per proxy, valid
  tag keys. The other components rely on these facts.
\<close>

section \<open>Definitions\<close>

definition collectDynamicTagKeys :: "Config \<Rightarrow> string list" where
  "collectDynamicTagKeys cfg =
     sort (remdups (concat (map (\<lambda>t. mkeys (tc_Tags t)) (elems (cf_Targets cfg)))))"

definition CollectTagKeys :: "Config \<Rightarrow> string list" where
  "CollectTagKeys cfg =
     (if slen (ac_AllowedTagKeys (cf_Agent cfg)) > 0
      then sort (elems (ac_AllowedTagKeys (cf_Agent cfg)))
      else collectDynamicTagKeys cfg)"

text \<open>The body of the loop over the targets; \<open>seen\<close> holds the names before this one.\<close>

definition validate_target ::
  "cfg_env \<Rightarrow> bool \<Rightarrow> string list \<Rightarrow> ProxyConfig gomap \<Rightarrow> nat \<Rightarrow> string list \<Rightarrow> TargetConfig
     \<Rightarrow> TargetConfig res" where
  "validate_target E allowlistMode allowlist proxies i seen t =
     if_err (first_err
       [errif (tc_Name t = []) (Errorf ''target[%d]: missing required field name'' [FInt (int i)]),
        errif (tc_Address t = []) (terr t ''missing required field address'' []),
        errif (tc_Name t \<in> set seen) (terr t ''duplicate target name'' []),
        errif (tc_ProbeType t \<notin> set ValidProbeTypes)
          (terr t ''invalid probe_type %q'' [FStr (tc_ProbeType t)]),
        errif (tc_Interval t \<le> 0) (terr t ''interval must be > 0'' []),
        errif (tc_Timeout t \<le> 0) (terr t ''timeout must be > 0'' []),
        errif (tc_Timeout t > tc_Interval t)
          (terr t ''timeout (%s) exceeds interval (%s)'' [FInt (tc_Timeout t), FInt (tc_Interval t)]),
        errif (slen (tc_Tags t) > MaxTagsPerTarget)
          (terr t ''too many tags (%d), maximum is %d'' [FInt (slen (tc_Tags t)), FInt MaxTagsPerTarget]),
        validateTagKeys t allowlistMode allowlist,
        (case tc_DNSResolver t of
           None \<Rightarrow> None
         | Some r \<Rightarrow> wrapf ''target %q: %w'' [FStr (tc_Name t)] (validateDNSResolver r))])
     (validateProbeOpts E t proxies)"

definition next_shortest :: "duration \<Rightarrow> TargetConfig \<Rightarrow> duration" where
  "next_shortest shortest t =
     (if shortest = 0 \<or> tc_Interval t < shortest then tc_Interval t else shortest)"

fun validate_targets ::
  "cfg_env \<Rightarrow> bool \<Rightarrow> string list \<Rightarrow> ProxyConfig gomap \<Rightarrow> nat \<Rightarrow> string list \<Rightarrow> duration
     \<Rightarrow> TargetConfig list \<Rightarrow> (TargetConfig list \<times> duration) res" where
  "validate_targets E m al ps i seen shortest [] = Inr ([], shortest)"
| "validate_targets E m al ps i seen shortest (t # ts) =
     (case validate_target E m al ps i seen t of
        Inl e \<Rightarrow> Inl e
      | Inr t' \<Rightarrow>
          (case validate_targets E m al ps (Suc i) (tc_Name t # seen) (next_shortest shortest t) ts of
             Inl e \<Rightarrow> Inl e
           | Inr (ts', sh) \<Rightarrow> Inr (t' # ts', sh)))"

definition validate_agent :: "AgentConfig \<Rightarrow> goerr option" where
  "validate_agent a =
     first_err
       [errif (ac_LogLevel a \<notin> set ValidLogLevels)
          (Errorf ''agent: invalid log_level %q (valid: debug, info, warn, error)'' [FStr (ac_LogLevel a)]),
        errif (ac_LogFormat a \<notin> set ValidLogFormats)
          (Errorf ''agent: invalid log_format %q (valid: text, json)'' [FStr (ac_LogFormat a)]),
        validateMetricsPath (ac_MetricsPath a),
        errif (ac_InitialProbeJitter a < 0) (Errorf ''agent: initial_probe_jitter must be >= 0'' []),
        wrapf ''agent: %w'' [] (validateDNSResolver (ac_DNSResolver a))]"

definition validate :: "cfg_env \<Rightarrow> Config \<Rightarrow> Config res" where
  "validate E cfg =
     (let a = cf_Agent cfg; keys = elems (ac_AllowedTagKeys a); m = (keys \<noteq> []) in
      if_err (validate_agent a)
      (case validateProxies E cfg of
         Inl e \<Rightarrow> Inl e
       | Inr cfg1 \<Rightarrow>
           if_err (first_err
             [(if slen (ac_DefaultICMPPayloadSizes a) > 0
               then validateDefaultSizes (elems (ac_DefaultICMPPayloadSizes a)) else None),
              validateAllowedTagKeys keys])
           (case validate_targets E m keys (cf_Proxies cfg1) 0 [] 0 (elems (cf_Targets cfg)) of
              Inl e \<Rightarrow> Inl e
            | Inr (ts, shortest) \<Rightarrow>
                (let cfg2 = cfg1\<lparr>cf_Targets := map_option (\<lambda>_. ts) (cf_Targets cfg)\<rparr>
                 in if_err (first_err
                      [errif (ac_InitialProbeJitter a > 0 \<and> shortest > 0 \<and> ac_InitialProbeJitter a > shortest)
                         (Errorf ''agent: initial_probe_jitter (%s) exceeds shortest target interval (%s)''
                           [FInt (ac_InitialProbeJitter a), FInt shortest]),
                       errif (\<not> m \<and> int (length (collectDynamicTagKeys cfg2)) > MaxGlobalTagKeys)
                         (Errorf ''too many unique tag keys across all targets (%d), maximum is %d''
                           [FInt (int (length (collectDynamicTagKeys cfg2))), FInt MaxGlobalTagKeys])])
                    (Inr cfg2)))))"

definition LoadConfig :: "cfg_env \<Rightarrow> string \<Rightarrow> Config res" where
  "LoadConfig E path =
     (case env_ReadFile E path of
        ReadOk data \<Rightarrow>
          (case env_LoadYAML E data of
             Inl e \<Rightarrow> Inl (Errorf ''parsing YAML: %w'' [FErr (SysErr e)])
           | Inr cfg \<Rightarrow> validate E (applyDefaults cfg))
      | ReadNotExist \<Rightarrow> Inl (Errorf ''reading config file: %w'' [FErr (SysErr ''file does not exist'')])
      | ReadFail e \<Rightarrow> Inl (Errorf ''reading config file: %w'' [FErr (SysErr e)]))"

lemmas validate_eval [go_eval] =
  validate_def validate_agent_def validateProxies_def validateProxy_def resolveProxyCredentials_def
  nonEmptySourceCount_def validate_target_def validateProbeOpts_def validateProbeOpts_common_def
  validateProbeOpts_switch_def validateProxyNameUnsupported_def validateTCPAddress_def bad_port_def
  validateTagKeys_def validateLabelName_def validateDNSResolver_def resolveTargetProxy_def
  validateProxyConnectAddress_def validateExpectedProxyConnectStatusCodes_def
  validateIPv4OnlyAddress_def validateICMPPayloadSizes_def validateAllowedTagKeys_def
  validateMetricsPath_def validateDefaultSizes_def next_shortest_def collectDynamicTagKeys_def

section \<open>What the checks establish\<close>

lemma first_not_positive_None: "first_not_positive i vs = None \<longleftrightarrow> (\<forall>v \<in> set vs. 0 < v)"
  by (induction vs arbitrary: i) auto

lemma first_not_descending_None: "first_not_descending i vs = None \<longleftrightarrow> sorted_wrt (>) vs"
proof (induction i vs rule: first_not_descending.induct)
  case (1 i a b vs)
  then show ?case by (auto dest: less_trans)
qed auto

lemma validateAllowedTagKeys_loop_None:
  "validateAllowedTagKeys_loop seen ks = None
     \<longleftrightarrow> distinct ks \<and> set seen \<inter> set ks = {} \<and> (\<forall>k \<in> set ks. validateLabelName k = None)"
  by (induction ks arbitrary: seen) (auto simp del: first_err.simps)

lemma validateLabelName_None:
  "validateLabelName k = None \<longleftrightarrow> prometheusLabelRe k \<and> k \<notin> set FixedLabels"
  by (auto simp: validateLabelName_def)

lemma validateTagKeys_None:
  "validateTagKeys t m al = None \<longleftrightarrow>
     (\<forall>k \<in> set (mkeys (tc_Tags t)). if m then k \<in> set al else validateLabelName k = None)"
  by (auto simp: validateTagKeys_def list_all_iff)

text \<open>
  \<open>descending_sizes\<close>: what the MTU checks accept, and with the defaults always obtain.
\<close>

definition mtu_opts_ok :: "TargetConfig \<Rightarrow> bool" where
  "mtu_opts_ok t \<longleftrightarrow>
     (let opts = tc_ProbeOpts t; sizes = elems (po_ICMPPayloadSizes opts) in
      sizes \<noteq> [] \<and> sorted_wrt (>) sizes \<and> (\<forall>s \<in> set sizes. 0 < s)
      \<and> 0 < po_ExpectedMinMTU opts \<and> po_ExpectedMinMTU opts \<le> int64 (hd sizes + 28)
      \<and> 1 \<le> po_MTURetries opts
      \<and> 0 < po_MTUPerAttemptTimeout opts \<and> po_MTUPerAttemptTimeout opts \<le> tc_Timeout t)"

lemma validateICMPPayloadSizes_None: "validateICMPPayloadSizes t = None \<longleftrightarrow> mtu_opts_ok t"
proof -
  have c1: "(case x of None \<Rightarrow> None | Some (b, i, a) \<Rightarrow> Some (f b i a)) = None \<longleftrightarrow> x = None"
    for x :: "(int \<times> nat \<times> int) option" and f :: "int \<Rightarrow> nat \<Rightarrow> int \<Rightarrow> goerr"
    by (auto split: option.splits)
  have c2: "(case x of None \<Rightarrow> None | Some (i, v) \<Rightarrow> Some (f i v)) = None \<longleftrightarrow> x = None"
    for x :: "(nat \<times> int) option" and f :: "nat \<Rightarrow> int \<Rightarrow> goerr"
    by (auto split: option.splits)
  show ?thesis
    by (auto simp: validateICMPPayloadSizes_def mtu_opts_ok_def Let_def c1 c2
        first_not_descending_None first_not_positive_None)
qed

definition host_port_ok :: "string \<Rightarrow> bool" where
  "host_port_ok a \<longleftrightarrow>
     (\<exists>host port n. SplitHostPort a = Some (host, port) \<and> host \<noteq> [] \<and> Atoi port = Some n
        \<and> 1 \<le> n \<and> n \<le> 65535)"

lemma validateTCPAddress_None:
  "validateTCPAddress t = None \<longleftrightarrow> \<not> Contains (tc_Address t) ''://'' \<and> host_port_ok (tc_Address t)"
  by (auto simp: validateTCPAddress_def host_port_ok_def bad_port_def split: option.splits)

lemma validateProxyConnectAddress_None:
  "validateProxyConnectAddress t = None \<longleftrightarrow>
     \<not> Contains (tc_Address t) ''://'' \<and> host_port_ok (tc_Address t)"
  by (auto simp: validateProxyConnectAddress_def host_port_ok_def bad_port_def split: option.splits)

text \<open>A host name or an IPv4 literal without a port.\<close>

definition ipv4_only_ok :: "string \<Rightarrow> bool" where
  "ipv4_only_ok a \<longleftrightarrow>
     SplitHostPort a = None \<and> \<not> (HasPrefix a ''['' \<and> HasSuffix a '']'')
     \<and> (\<forall>ip. ParseIP a = Some ip \<longrightarrow> To4 ip \<noteq> None)"

lemma validateIPv4OnlyAddress_None: "validateIPv4OnlyAddress t = None \<longleftrightarrow> ipv4_only_ok (tc_Address t)"
  by (cases "SplitHostPort (tc_Address t)")
    (auto simp: validateIPv4OnlyAddress_def ipv4_only_ok_def Let_def split: option.splits)

lemma validateDNSQueryType_None:
  "validateDNSQueryType t = None \<longleftrightarrow>
     po_DNSQueryType (tc_ProbeOpts t) = [] \<or> po_DNSQueryType (tc_ProbeOpts t) \<in> set ValidDNSQueryTypes"
  by (auto simp: validateDNSQueryType_def Let_def)

lemma resolveTargetProxyD:
  "resolveTargetProxy t ps req = Inr t' \<Longrightarrow>
     (tc_ProxyName t = [] \<and> \<not> req \<and> t' = t)
     \<or> (\<exists>p. mget ps (tc_ProxyName t) = Some p \<and> t' = t\<lparr>tc_ResolvedProxy := Some (resolved_of p)\<rparr>)"
  by (auto simp: resolveTargetProxy_def split: if_splits option.splits)

definition same_but_proxy :: "TargetConfig \<Rightarrow> TargetConfig \<Rightarrow> bool" where
  "same_but_proxy t t' \<longleftrightarrow> (\<exists>r. t' = t\<lparr>tc_ResolvedProxy := r\<rparr>)"

lemma same_but_proxy_refl [simp]: "same_but_proxy t t"
  unfolding same_but_proxy_def by (rule exI [of _ "tc_ResolvedProxy t"]) simp

lemma same_but_proxy_upd [simp]: "same_but_proxy t (t\<lparr>tc_ResolvedProxy := r\<rparr>)"
  unfolding same_but_proxy_def by (rule exI) (rule refl)

lemma same_but_proxyD:
  assumes "same_but_proxy t t'"
  shows "tc_Name t' = tc_Name t" "tc_Address t' = tc_Address t" "tc_ProbeType t' = tc_ProbeType t"
    "tc_Interval t' = tc_Interval t" "tc_Timeout t' = tc_Timeout t" "tc_Tags t' = tc_Tags t"
    "tc_ProbeOpts t' = tc_ProbeOpts t" "tc_ProxyName t' = tc_ProxyName t"
    "tc_DNSResolver t' = tc_DNSResolver t"
  using assms by (auto simp: same_but_proxy_def)

text \<open>The proxy of an accepted target comes from the registry, and \<^verbatim>\<open>proxy_connect\<close> needs one.\<close>

definition proxy_attached :: "ProxyConfig gomap \<Rightarrow> TargetConfig \<Rightarrow> TargetConfig \<Rightarrow> bool" where
  "proxy_attached ps t t' \<longleftrightarrow>
     (tc_ProxyName t = [] \<and> tc_ProbeType t \<noteq> ProbeTypeProxyConnect \<and> t' = t)
     \<or> (\<exists>p. mget ps (tc_ProxyName t) = Some p \<and> t' = t\<lparr>tc_ResolvedProxy := Some (resolved_of p)\<rparr>)"

lemma proxy_attached_same: "proxy_attached ps t t' \<Longrightarrow> same_but_proxy t t'"
  by (auto simp: proxy_attached_def)

definition opts_ok :: "TargetConfig \<Rightarrow> bool" where
  "opts_ok t \<longleftrightarrow>
     (let opts = tc_ProbeOpts t; ty = tc_ProbeType t in
      0 \<le> po_RequestBodyBytes opts \<and> po_RequestBodyBytes opts \<le> MaxHTTPRequestBodyBytes
      \<and> (0 < po_RequestBodyBytes opts \<longrightarrow> ty = ProbeTypeHTTP \<and> po_Method opts = ''POST'')
      \<and> 0 \<le> po_ResponseBodyLimitBytes opts
      \<and> (po_Method opts = [] \<or> po_Method opts \<in> set validHTTPMethods)
      \<and> (\<forall>c \<in> set (elems (po_ExpectedStatusCodes opts)). 100 \<le> c \<and> c \<le> 599)
      \<and> (\<forall>c \<in> set (elems (po_ExpectedProxyConnectStatusCodes opts)). 100 \<le> c \<and> c \<le> 599)
      \<and> (ty = ProbeTypeHTTPBody \<longrightarrow> po_BodyMatchRegex opts \<noteq> [] \<or> po_BodyMatchString opts \<noteq> [])
      \<and> (ty = ProbeTypeMTU \<longrightarrow> mtu_opts_ok t)
      \<and> (ty = ProbeTypeMTU \<or> ty = ProbeTypeICMP \<longrightarrow> ipv4_only_ok (tc_Address t))
      \<and> (ty = ProbeTypeDNS \<longrightarrow>
           po_DNSQueryType opts = [] \<or> po_DNSQueryType opts \<in> set ValidDNSQueryTypes)
      \<and> (ty = ProbeTypeTCP \<or> ty = ProbeTypeProxyConnect \<longrightarrow> host_port_ok (tc_Address t)))"

definition target_ok :: "TargetConfig \<Rightarrow> bool" where
  "target_ok t \<longleftrightarrow>
     tc_Name t \<noteq> [] \<and> tc_Address t \<noteq> [] \<and> tc_ProbeType t \<in> set ValidProbeTypes
     \<and> 0 < tc_Timeout t \<and> tc_Timeout t \<le> tc_Interval t \<and> slen (tc_Tags t) \<le> MaxTagsPerTarget
     \<and> opts_ok t"

lemma mtu_opts_ok_proxy [simp]: "mtu_opts_ok (t\<lparr>tc_ResolvedProxy := r\<rparr>) = mtu_opts_ok t"
  by (simp add: mtu_opts_ok_def)

lemma target_ok_proxy [simp]: "target_ok (t\<lparr>tc_ResolvedProxy := r\<rparr>) = target_ok t"
  by (simp add: target_ok_def opts_ok_def)

lemma codes_None:
  "validateExpectedStatusCodes t = None
     \<longleftrightarrow> (\<forall>c \<in> set (elems (po_ExpectedStatusCodes (tc_ProbeOpts t))). 100 \<le> c \<and> c \<le> 599)"
  "validateExpectedProxyConnectStatusCodes t = None
     \<longleftrightarrow> (\<forall>c \<in> set (elems (po_ExpectedProxyConnectStatusCodes (tc_ProbeOpts t))). 100 \<le> c \<and> c \<le> 599)"
  by (auto simp: validateExpectedStatusCodes_def validateExpectedProxyConnectStatusCodes_def
      bad_code_def list_all_iff not_less)

text \<open>What the switch says of a target, one probe type at a time.\<close>

lemma switch_plain:
  assumes "validateProbeOpts_switch E t ps = Inr t'"
  shows "tc_ProbeType t = ProbeTypeTCP \<Longrightarrow>
      t' = t \<and> validateProxyNameUnsupported t = None \<and> validateTCPAddress t = None"
    and "tc_ProbeType t = ProbeTypeICMP \<Longrightarrow>
      t' = t \<and> validateProxyNameUnsupported t = None \<and> validateIPv4OnlyAddress t = None"
    and "tc_ProbeType t = ProbeTypeMTU \<Longrightarrow>
      t' = t \<and> validateProxyNameUnsupported t = None \<and> validateIPv4OnlyAddress t = None
      \<and> validateICMPPayloadSizes t = None"
    and "tc_ProbeType t = ProbeTypeDNS \<Longrightarrow>
      t' = t \<and> validateProxyNameUnsupported t = None \<and> validateDNSQueryType t = None
      \<and> validateDNSServer (po_DNSServer (tc_ProbeOpts t)) = None"
    and "tc_ProbeType t = ProbeTypeTLSCert \<Longrightarrow> resolveTargetProxy t ps False = Inr t'"
  using assms by (fastforce simp: validateProbeOpts_switch_def Let_def)+

lemma switch_connect_raw:
  assumes "validateProbeOpts_switch E t ps = Inr t'" "tc_ProbeType t = ProbeTypeProxyConnect"
  shows "resolveTargetProxy t ps True = Inr t' \<and> validateProxyConnectAddress t' = None
    \<and> elems (po_ExpectedStatusCodes (tc_ProbeOpts t)) = []
    \<and> validateExpectedProxyConnectStatusCodes t' = None"
  using assms by (cases "resolveTargetProxy t ps True") (fastforce simp: validateProbeOpts_switch_def Let_def)+

lemma switch_http_raw:
  assumes "validateProbeOpts_switch E t ps = Inr t'"
    and "tc_ProbeType t = ProbeTypeHTTP \<or> tc_ProbeType t = ProbeTypeHTTPBody"
  shows "resolveTargetProxy t ps False = Inr t' \<and> validateHTTPMethod t' = None
    \<and> validateHTTPRequestBody t' = None \<and> validateExpectedStatusCodes t' = None
    \<and> (tc_ProbeType t = ProbeTypeHTTPBody \<longrightarrow>
        (po_BodyMatchRegex (tc_ProbeOpts t) \<noteq> [] \<or> po_BodyMatchString (tc_ProbeOpts t) \<noteq> [])
        \<and> validateBodyMatchRegex E t' = None)"
  using assms
  by (cases "resolveTargetProxy t ps False"; elim disjE)
    (fastforce simp: validateProbeOpts_switch_def Let_def)+

lemma switch_attached:
  assumes sw: "validateProbeOpts_switch E t ps = Inr t'" and "tc_ProbeType t \<in> set ValidProbeTypes"
  shows "proxy_attached ps t t'"
proof -
  have n: "validateProxyNameUnsupported t = None \<longleftrightarrow> tc_ProxyName t = []"
    by (simp add: validateProxyNameUnsupported_def)
  consider "tc_ProbeType t = ProbeTypeTCP" | "tc_ProbeType t = ProbeTypeICMP"
    | "tc_ProbeType t = ProbeTypeMTU" | "tc_ProbeType t = ProbeTypeDNS"
    | "tc_ProbeType t = ProbeTypeTLSCert" | "tc_ProbeType t = ProbeTypeProxyConnect"
    | "tc_ProbeType t = ProbeTypeHTTP \<or> tc_ProbeType t = ProbeTypeHTTPBody"
    using assms(2) by (auto simp: ValidProbeTypes_def)
  then show ?thesis
  proof cases
    case 1
    with switch_plain(1) [OF sw] n show ?thesis by (simp add: proxy_attached_def)
  next
    case 2
    with switch_plain(2) [OF sw] n show ?thesis by (simp add: proxy_attached_def)
  next
    case 3
    with switch_plain(3) [OF sw] n show ?thesis by (simp add: proxy_attached_def)
  next
    case 4
    with switch_plain(4) [OF sw] n show ?thesis by (simp add: proxy_attached_def)
  next
    case 5
    with resolveTargetProxyD [OF switch_plain(5) [OF sw]] show ?thesis
      by (auto simp: proxy_attached_def)
  next
    case 6
    with switch_connect_raw [OF sw] show ?thesis
      by (auto simp: proxy_attached_def dest!: resolveTargetProxyD)
  next
    case 7
    with switch_http_raw [OF sw] show ?thesis
      by (auto simp: proxy_attached_def dest!: resolveTargetProxyD)
  qed
qed

lemma validateHTTPMethod_None:
  "validateHTTPMethod t = None \<longleftrightarrow> po_Method (tc_ProbeOpts t) = [] \<or> po_Method (tc_ProbeOpts t) \<in> set validHTTPMethods"
  by (simp add: validateHTTPMethod_def Let_def)

lemma validateHTTPRequestBody_None:
  "validateHTTPRequestBody t = None \<longleftrightarrow>
     po_RequestBodyBytes (tc_ProbeOpts t) = 0 \<or> po_Method (tc_ProbeOpts t) = ''POST''"
  by (simp add: validateHTTPRequestBody_def)

lemma first_err_nth: "first_err es = None \<Longrightarrow> i < length es \<Longrightarrow> es ! i = None"
  by (simp add: list_all_length)

lemma common_None:
  assumes "validateProbeOpts_common t = None"
  shows "0 \<le> po_ResponseBodyLimitBytes (tc_ProbeOpts t)"
    "0 \<le> po_RequestBodyBytes (tc_ProbeOpts t)"
    "po_RequestBodyBytes (tc_ProbeOpts t) \<le> MaxHTTPRequestBodyBytes"
    "po_RequestBodyBytes (tc_ProbeOpts t) > 0 \<longrightarrow> tc_ProbeType t = ProbeTypeHTTP"
    "elems (po_ExpectedProxyConnectStatusCodes (tc_ProbeOpts t)) \<noteq> [] \<longrightarrow> tc_ProbeType t = ProbeTypeProxyConnect"
    "po_Method (tc_ProbeOpts t) \<noteq> [] \<longrightarrow> tc_ProbeType t = ProbeTypeHTTP \<or> tc_ProbeType t = ProbeTypeHTTPBody"
    "elems (po_ExpectedStatusCodes (tc_ProbeOpts t)) \<noteq> [] \<longrightarrow> tc_ProbeType t = ProbeTypeHTTP
       \<or> tc_ProbeType t = ProbeTypeHTTPBody \<or> tc_ProbeType t = ProbeTypeProxyConnect"
proof -
  note nth = first_err_nth [OF assms [unfolded validateProbeOpts_common_def Let_def]]
  show "0 \<le> po_ResponseBodyLimitBytes (tc_ProbeOpts t)" using nth [of 0] by (simp add: not_less)
  show "0 \<le> po_RequestBodyBytes (tc_ProbeOpts t)" using nth [of 1] by (simp add: not_less)
  show "po_RequestBodyBytes (tc_ProbeOpts t) \<le> MaxHTTPRequestBodyBytes"
    using nth [of 2] by (simp add: not_less)
  show "po_RequestBodyBytes (tc_ProbeOpts t) > 0 \<longrightarrow> tc_ProbeType t = ProbeTypeHTTP"
    using nth [of 3] by auto
  show "elems (po_ExpectedProxyConnectStatusCodes (tc_ProbeOpts t)) \<noteq> [] \<longrightarrow>
      tc_ProbeType t = ProbeTypeProxyConnect"
    using nth [of 4] by auto
  show "po_Method (tc_ProbeOpts t) \<noteq> [] \<longrightarrow>
      tc_ProbeType t = ProbeTypeHTTP \<or> tc_ProbeType t = ProbeTypeHTTPBody"
    using nth [of 6] by auto
  show "elems (po_ExpectedStatusCodes (tc_ProbeOpts t)) \<noteq> [] \<longrightarrow> tc_ProbeType t = ProbeTypeHTTP
      \<or> tc_ProbeType t = ProbeTypeHTTPBody \<or> tc_ProbeType t = ProbeTypeProxyConnect"
    using nth [of 10] by auto
qed

lemmas check_None =
  validateHTTPMethod_None validateHTTPRequestBody_None codes_None validateICMPPayloadSizes_None
  validateTCPAddress_None validateProxyConnectAddress_None validateIPv4OnlyAddress_None
  validateDNSQueryType_None

lemma switch_opts_ok:
  assumes sw: "validateProbeOpts_switch E t ps = Inr t'"
    and ty: "tc_ProbeType t \<in> set ValidProbeTypes" and cm: "validateProbeOpts_common t = None"
  shows "opts_ok t"
proof -
  note att = switch_attached [OF sw ty]
  note ff = same_but_proxyD [OF proxy_attached_same [OF att]]
  note h = switch_http_raw [OF sw] and c = switch_connect_raw [OF sw]
  have "0 < po_RequestBodyBytes (tc_ProbeOpts t) \<longrightarrow>
      tc_ProbeType t = ProbeTypeHTTP \<and> po_Method (tc_ProbeOpts t) = ''POST''"
    using common_None(4) [OF cm] h by (auto simp: check_None ff)
  moreover have "po_Method (tc_ProbeOpts t) = [] \<or> po_Method (tc_ProbeOpts t) \<in> set validHTTPMethods"
    using common_None(6) [OF cm] h by (auto simp: check_None ff)
  moreover have "\<forall>c \<in> set (elems (po_ExpectedStatusCodes (tc_ProbeOpts t))). 100 \<le> c \<and> c \<le> 599"
    using common_None(7) [OF cm] h c
    by (cases "elems (po_ExpectedStatusCodes (tc_ProbeOpts t)) = []") (auto simp: check_None ff)
  moreover have "\<forall>c \<in> set (elems (po_ExpectedProxyConnectStatusCodes (tc_ProbeOpts t))). 100 \<le> c \<and> c \<le> 599"
    using common_None(5) [OF cm] c
    by (cases "elems (po_ExpectedProxyConnectStatusCodes (tc_ProbeOpts t)) = []") (auto simp: check_None ff)
  moreover have "tc_ProbeType t = ProbeTypeTCP \<or> tc_ProbeType t = ProbeTypeProxyConnect \<longrightarrow>
      host_port_ok (tc_Address t)"
    using switch_plain(1) [OF sw] c by (auto simp: check_None ff)
  moreover have "tc_ProbeType t = ProbeTypeMTU \<longrightarrow> mtu_opts_ok t"
    using switch_plain(3) [OF sw] by (simp add: check_None)
  moreover have "tc_ProbeType t = ProbeTypeMTU \<or> tc_ProbeType t = ProbeTypeICMP \<longrightarrow>
      ipv4_only_ok (tc_Address t)"
    using switch_plain(2,3) [OF sw] by (auto simp: check_None)
  moreover have "tc_ProbeType t = ProbeTypeDNS \<longrightarrow>
      po_DNSQueryType (tc_ProbeOpts t) = [] \<or> po_DNSQueryType (tc_ProbeOpts t) \<in> set ValidDNSQueryTypes"
    using switch_plain(4) [OF sw] by (simp add: check_None)
  moreover note common_None(1-3) [OF cm] h
  ultimately show ?thesis unfolding opts_ok_def Let_def by blast
qed

section \<open>The proxies\<close>

text \<open>What the registry holds for a proxy after the loop; \<open>p\<close> is its entry before.\<close>

definition proxy_ok :: "cfg_env \<Rightarrow> string \<Rightarrow> ProxyConfig \<Rightarrow> ProxyConfig \<Rightarrow> bool" where
  "proxy_ok E name p p' \<longleftrightarrow>
     proxyNameRe name
     \<and> (\<exists>u creds. ProxyURL_Parse (env_ParseURI E) (pc_URL p) = Inr u
          \<and> (pc_TLSSkipVerify p \<longrightarrow> u_Scheme u = ''https'')
          \<and> resolveProxyCredentials name (p\<lparr>pc_Endpoint := ProxyURL_Endpoint u\<rparr>) E = Inr creds
          \<and> p' = p\<lparr>pc_Endpoint := ProxyURL_Endpoint u, pc_Credentials := creds\<rparr>)"

lemma validateProxyD:
  assumes "validateProxy E eps name p = Inr p'"
  shows "proxy_ok E name p p' \<and> mget eps (pc_Endpoint p') = None"
proof -
  obtain u where u: "ProxyURL_Parse (env_ParseURI E) (pc_URL p) = Inr u"
    using assms by (cases "ProxyURL_Parse (env_ParseURI E) (pc_URL p)") (simp_all add: validateProxy_def)
  obtain c where c: "resolveProxyCredentials name (p\<lparr>pc_Endpoint := ProxyURL_Endpoint u\<rparr>) E = Inr c"
    using assms u by (cases "resolveProxyCredentials name (p\<lparr>pc_Endpoint := ProxyURL_Endpoint u\<rparr>) E")
      (simp_all add: validateProxy_def Let_def)
  have "mget eps (ProxyURL_Endpoint u) = None"
    using assms u by (cases "mget eps (ProxyURL_Endpoint u)") (simp_all add: validateProxy_def Let_def)
  with assms u c show ?thesis
    by (auto simp: validateProxy_def proxy_ok_def Let_def)
qed

text \<open>The entry of a visited name, when \<open>eps\<close> are the endpoints taken before.\<close>

definition visited_ok ::
  "cfg_env \<Rightarrow> string gomap \<Rightarrow> ProxyConfig gomap \<Rightarrow> ProxyConfig gomap \<Rightarrow> string \<Rightarrow> bool" where
  "visited_ok E eps ps ps' n \<longleftrightarrow>
     (case mget ps n of
        None \<Rightarrow> mget ps' n = None
      | Some p \<Rightarrow> \<exists>p'. mget ps' n = Some p' \<and> proxy_ok E n p p' \<and> mget eps (pc_Endpoint p') = None)"

definition apart :: "ProxyConfig gomap \<Rightarrow> string set \<Rightarrow> bool" where
  "apart ps N \<longleftrightarrow>
     (\<forall>a \<in> N. \<forall>b \<in> N. \<forall>p q. mget ps a = Some p \<and> mget ps b = Some q \<and> a \<noteq> b
        \<longrightarrow> pc_Endpoint p \<noteq> pc_Endpoint q)"

lemma apart_insert:
  assumes "apart ps N" and "\<And>b p q. b \<in> N \<Longrightarrow> mget ps a = Some p \<Longrightarrow> mget ps b = Some q \<Longrightarrow>
    pc_Endpoint p \<noteq> pc_Endpoint q"
  shows "apart ps (insert a N)"
  unfolding apart_def
proof (intro ballI allI impI, elim conjE)
  fix x y p q
  assume *: "x \<in> insert a N" "y \<in> insert a N" "mget ps x = Some p" "mget ps y = Some q" "x \<noteq> y"
  consider "x = a" "y \<in> N" | "y = a" "x \<in> N" | "x \<in> N" "y \<in> N" using * by blast
  then show "pc_Endpoint p \<noteq> pc_Endpoint q"
  proof cases
    case 1
    with assms(2) * show ?thesis by blast
  next
    case 2
    with assms(2) [of x q p] * show ?thesis by metis
  next
    case 3
    with assms(1) * show ?thesis unfolding apart_def by blast
  qed
qed

lemma visited_ok_step:
  assumes "visited_ok E (mput eps (pc_Endpoint p') name) (mput ps name p') ps' m" and "m \<noteq> name"
  shows "visited_ok E eps ps ps' m"
    and "mget ps' m = Some q \<Longrightarrow> pc_Endpoint p' \<noteq> pc_Endpoint q"
  using assms by (cases "mget ps m"; auto simp: visited_ok_def split: if_splits)+

lemma validateProxies_loopD:
  assumes "validateProxies_loop E names eps ps = Inr ps'" "distinct names"
  shows "(\<forall>n. n \<notin> set names \<longrightarrow> mget ps' n = mget ps n)
    \<and> (\<forall>n \<in> set names. visited_ok E eps ps ps' n) \<and> apart ps' (set names)"
  using assms
proof (induction names arbitrary: eps ps)
  case Nil
  then show ?case by (simp add: apart_def)
next
  case (Cons name names)
  show ?case
  proof (cases "mget ps name")
    case None
    with Cons.prems have "validateProxies_loop E names eps ps = Inr ps'" "distinct names" by simp_all
    note IH = Cons.IH [OF this]
    with Cons.prems None have n: "mget ps' name = None" by simp
    with IH have "apart ps' (insert name (set names))" by (auto intro!: apart_insert)
    with IH None n show ?thesis by (simp add: visited_ok_def)
  next
    case (Some p)
    with Cons.prems obtain p' where v: "validateProxy E eps name p = Inr p'"
      and l: "validateProxies_loop E names (mput eps (pc_Endpoint p') name) (mput ps name p') = Inr ps'"
      by (cases "validateProxy E eps name p") simp_all
    from Cons.prems have nd: "distinct names" "name \<notin> set names" by simp_all
    note IH = Cons.IH [OF l nd(1)]
    from IH nd have n: "mget ps' name = Some p'" by simp
    have t: "visited_ok E (mput eps (pc_Endpoint p') name) (mput ps name p') ps' m" "m \<noteq> name"
      if "m \<in> set names" for m
      using that IH nd by auto
    have "apart ps' (insert name (set names))"
      using IH n visited_ok_step(2) [OF t] by (auto intro!: apart_insert)
    moreover have "visited_ok E eps ps ps' name"
      using validateProxyD [OF v] n Some by (simp add: visited_ok_def)
    ultimately show ?thesis using IH nd visited_ok_step(1) [OF t] by simp
  qed
qed

text \<open>One endpoint has one owner in the registry.\<close>

definition endpoints_unique :: "ProxyConfig gomap \<Rightarrow> bool" where
  "endpoints_unique ps \<longleftrightarrow>
     (\<forall>a b p q. mget ps a = Some p \<and> mget ps b = Some q \<and> pc_Endpoint p = pc_Endpoint q \<longrightarrow> a = b)"

definition registry_of :: "cfg_env \<Rightarrow> ProxyConfig gomap \<Rightarrow> ProxyConfig gomap \<Rightarrow> bool" where
  "registry_of E ps ps' \<longleftrightarrow>
     (\<forall>n. case mget ps n of
            None \<Rightarrow> mget ps' n = None
          | Some p \<Rightarrow> \<exists>p'. mget ps' n = Some p' \<and> proxy_ok E n p p')"

lemma validateProxiesD:
  assumes "validateProxies E cfg = Inr cfg'" "mok (cf_Proxies cfg)"
  shows "cf_Agent cfg' = cf_Agent cfg \<and> cf_Targets cfg' = cf_Targets cfg \<and> registry_of E (cf_Proxies cfg) (cf_Proxies cfg')
    \<and> endpoints_unique (cf_Proxies cfg') \<and> slen (cf_Proxies cfg) \<le> MaxProxies"
proof -
  let ?names = "sort (mkeys (cf_Proxies cfg))"
  obtain ps where l: "validateProxies_loop E ?names (Some []) (cf_Proxies cfg) = Inr ps"
    and c: "cfg' = cfg\<lparr>cf_Proxies := ps\<rparr>" and m: "slen (cf_Proxies cfg) \<le> MaxProxies"
    using assms(1)
    by (cases "validateProxies_loop E ?names (Some []) (cf_Proxies cfg)")
      (simp_all add: validateProxies_def)
  have d: "distinct ?names" using assms(2) by (simp add: mok_def)
  note L = validateProxies_loopD [OF l d]
  have k: "n \<in> set ?names \<longleftrightarrow> mget (cf_Proxies cfg) n \<noteq> None" for n
    by (simp add: mget_None_iff)
  have r: "registry_of E (cf_Proxies cfg) ps"
    unfolding registry_of_def
  proof
    fix n
    show "case mget (cf_Proxies cfg) n of None \<Rightarrow> mget ps n = None
          | Some p \<Rightarrow> \<exists>p'. mget ps n = Some p' \<and> proxy_ok E n p p'"
      using L [THEN conjunct2, THEN conjunct1, THEN bspec, of n] L k [of n]
      by (cases "mget (cf_Proxies cfg) n") (auto simp: visited_ok_def)
  qed
  have "n \<in> set ?names" if "mget ps n = Some p" for n p
    using that k [of n] L by (cases "n \<in> set ?names") simp_all
  with L have "endpoints_unique ps"
    unfolding endpoints_unique_def apart_def by blast
  with r c m show ?thesis by simp
qed

section \<open>The targets and the whole configuration\<close>

lemma validate_targetD:
  assumes "validate_target E m al ps i seen t = Inr t'"
  shows "target_ok t \<and> proxy_attached ps t t' \<and> tc_Name t \<notin> set seen \<and> validateTagKeys t m al = None
    \<and> (\<forall>r. tc_DNSResolver t = Some r \<longrightarrow> validateDNSResolver r = None)"
proof -
  from assms have sw: "validateProbeOpts_common t = None" "validateProbeOpts_switch E t ps = Inr t'"
    and ty: "tc_ProbeType t \<in> set ValidProbeTypes"
    and basic: "tc_Name t \<noteq> []" "tc_Address t \<noteq> []" "tc_Name t \<notin> set seen" "0 < tc_Timeout t"
      "tc_Timeout t \<le> tc_Interval t" "slen (tc_Tags t) \<le> MaxTagsPerTarget"
      "validateTagKeys t m al = None"
    and dns: "(case tc_DNSResolver t of None \<Rightarrow> None
      | Some r \<Rightarrow> wrapf ''target %q: %w'' [FStr (tc_Name t)] (validateDNSResolver r)) = None"
    by (simp_all add: validate_target_def validateProbeOpts_def not_less not_le)
  from switch_opts_ok [OF sw(2) ty sw(1)] switch_attached [OF sw(2) ty] basic ty dns show ?thesis
    by (auto simp: target_ok_def)
qed

lemma validate_targetsD:
  assumes "validate_targets E m al ps i seen shortest ts = Inr (ts', sh)"
  shows "list_all2 (proxy_attached ps) ts ts' \<and> distinct (map tc_Name ts)
    \<and> set seen \<inter> tc_Name ` set ts = {}
    \<and> (\<forall>t \<in> set ts. target_ok t \<and> validateTagKeys t m al = None
      \<and> (\<forall>r. tc_DNSResolver t = Some r \<longrightarrow> validateDNSResolver r = None))"
  using assms
proof (induction ts arbitrary: i seen shortest ts' sh)
  case Nil
  then show ?case by simp
next
  case (Cons t ts)
  then obtain t' ts1 where t: "validate_target E m al ps i seen t = Inr t'" "ts' = t' # ts1"
    and r: "validate_targets E m al ps (Suc i) (tc_Name t # seen) (next_shortest shortest t) ts = Inr (ts1, sh)"
    by (auto split: sum.splits prod.splits)
  from Cons.IH [OF r] validate_targetD [OF t(1)] t(2) show ?case by auto
qed

lemma validate_targets_shortest:
  assumes "validate_targets E m al ps i seen shortest ts = Inr (ts', sh)" "0 \<le> shortest"
  shows "0 \<le> sh \<and> (0 < shortest \<longrightarrow> 0 < sh \<and> sh \<le> shortest)
    \<and> (\<forall>t \<in> set ts. 0 < sh \<and> sh \<le> tc_Interval t)"
  using assms
proof (induction ts arbitrary: i seen shortest ts' sh)
  case Nil
  then show ?case by simp
next
  case (Cons t ts)
  then obtain t' ts1 where t: "validate_target E m al ps i seen t = Inr t'"
    and r: "validate_targets E m al ps (Suc i) (tc_Name t # seen) (next_shortest shortest t) ts = Inr (ts1, sh)"
    by (auto split: sum.splits prod.splits)
  from validate_targetD [OF t] have "0 < tc_Interval t" by (auto simp: target_ok_def)
  with Cons.prems(2) have n: "0 < next_shortest shortest t" "next_shortest shortest t \<le> tc_Interval t"
    "0 < shortest \<longrightarrow> next_shortest shortest t \<le> shortest"
    by (auto simp: next_shortest_def)
  from Cons.IH [OF r] n show ?case by auto
qed

lemma validateE:
  assumes "validate E cfg = Inr cfg'"
  obtains cfg1 ts sh where "validate_agent (cf_Agent cfg) = None"
    and "validateProxies E cfg = Inr cfg1"
    and "elems (ac_DefaultICMPPayloadSizes (cf_Agent cfg)) \<noteq> [] \<longrightarrow>
      validateDefaultSizes (elems (ac_DefaultICMPPayloadSizes (cf_Agent cfg))) = None"
    and "validateAllowedTagKeys (elems (ac_AllowedTagKeys (cf_Agent cfg))) = None"
    and "validate_targets E (elems (ac_AllowedTagKeys (cf_Agent cfg)) \<noteq> [])
      (elems (ac_AllowedTagKeys (cf_Agent cfg))) (cf_Proxies cfg1) 0 [] 0 (elems (cf_Targets cfg)) = Inr (ts, sh)"
    and "cfg' = cfg1\<lparr>cf_Targets := map_option (\<lambda>_. ts) (cf_Targets cfg)\<rparr>"
    and "\<not> (ac_InitialProbeJitter (cf_Agent cfg) > 0 \<and> sh > 0 \<and> ac_InitialProbeJitter (cf_Agent cfg) > sh)"
    and "elems (ac_AllowedTagKeys (cf_Agent cfg)) = [] \<longrightarrow>
      int (length (collectDynamicTagKeys cfg')) \<le> MaxGlobalTagKeys"
proof -
  let ?vt = "\<lambda>cfg1. validate_targets E (elems (ac_AllowedTagKeys (cf_Agent cfg)) \<noteq> [])
      (elems (ac_AllowedTagKeys (cf_Agent cfg))) (cf_Proxies cfg1) 0 [] 0 (elems (cf_Targets cfg))"
  obtain cfg1 where p: "validateProxies E cfg = Inr cfg1"
    using assms by (cases "validateProxies E cfg") (simp_all add: validate_def Let_def)
  obtain ts sh where t: "?vt cfg1 = Inr (ts, sh)"
    using assms p by (cases "?vt cfg1") (auto simp: validate_def Let_def)
  have "elems (ac_DefaultICMPPayloadSizes (cf_Agent cfg)) \<noteq> [] \<longrightarrow>
      validateDefaultSizes (elems (ac_DefaultICMPPayloadSizes (cf_Agent cfg))) = None"
    using assms p t by (auto simp: validate_def Let_def)
  with assms p t show thesis
    by (intro that [of cfg1 ts sh]) (auto simp: validate_def Let_def not_less)
qed

text \<open>
  The facts on an accepted configuration that the other components use: \<open>cfg\<close> is the configuration
  before the checks, \<open>cfg'\<close> the one they return.
\<close>

lemma validate_result:
  assumes "validate E cfg = Inr cfg'" and m: "mok (cf_Proxies cfg)"
  shows "cf_Agent cfg' = cf_Agent cfg"
    and "list_all2 (proxy_attached (cf_Proxies cfg')) (elems (cf_Targets cfg)) (elems (cf_Targets cfg'))"
    and "registry_of E (cf_Proxies cfg) (cf_Proxies cfg')" and "endpoints_unique (cf_Proxies cfg')"
    and "distinct (map tc_Name (elems (cf_Targets cfg)))"
    and "\<forall>t \<in> set (elems (cf_Targets cfg)). target_ok t
      \<and> validateTagKeys t (elems (ac_AllowedTagKeys (cf_Agent cfg)) \<noteq> []) (elems (ac_AllowedTagKeys (cf_Agent cfg))) = None
      \<and> (\<forall>r. tc_DNSResolver t = Some r \<longrightarrow> validateDNSResolver r = None)"
    and "\<forall>t \<in> set (elems (cf_Targets cfg)). ac_InitialProbeJitter (cf_Agent cfg) \<le> tc_Interval t"
    and "0 \<le> ac_InitialProbeJitter (cf_Agent cfg)"
proof -
  from assms(1) obtain cfg1 ts sh where a: "validate_agent (cf_Agent cfg) = None"
    and p: "validateProxies E cfg = Inr cfg1"
    and t: "validate_targets E (elems (ac_AllowedTagKeys (cf_Agent cfg)) \<noteq> [])
      (elems (ac_AllowedTagKeys (cf_Agent cfg))) (cf_Proxies cfg1) 0 [] 0 (elems (cf_Targets cfg)) = Inr (ts, sh)"
    and c: "cfg' = cfg1\<lparr>cf_Targets := map_option (\<lambda>_. ts) (cf_Targets cfg)\<rparr>"
    and j: "\<not> (ac_InitialProbeJitter (cf_Agent cfg) > 0 \<and> sh > 0 \<and> ac_InitialProbeJitter (cf_Agent cfg) > sh)"
    by (rule validateE)
  note P = validateProxiesD [OF p m] and T = validate_targetsD [OF t]
  have e: "elems (cf_Targets cfg') = ts"
    using T c by (cases "cf_Targets cfg") auto
  from P c show "cf_Agent cfg' = cf_Agent cfg" by simp
  have ps: "cf_Proxies cfg' = cf_Proxies cfg1" using c by simp
  show "list_all2 (proxy_attached (cf_Proxies cfg')) (elems (cf_Targets cfg)) (elems (cf_Targets cfg'))"
    using T e ps by simp
  show "registry_of E (cf_Proxies cfg) (cf_Proxies cfg')" "endpoints_unique (cf_Proxies cfg')"
    using P ps by simp_all
  show "distinct (map tc_Name (elems (cf_Targets cfg)))" using T by simp
  show "\<forall>t \<in> set (elems (cf_Targets cfg)). target_ok t
      \<and> validateTagKeys t (elems (ac_AllowedTagKeys (cf_Agent cfg)) \<noteq> []) (elems (ac_AllowedTagKeys (cf_Agent cfg))) = None
      \<and> (\<forall>r. tc_DNSResolver t = Some r \<longrightarrow> validateDNSResolver r = None)"
    using T by blast
  show n: "0 \<le> ac_InitialProbeJitter (cf_Agent cfg)"
    using a by (simp add: validate_agent_def)
  show "\<forall>t \<in> set (elems (cf_Targets cfg)). ac_InitialProbeJitter (cf_Agent cfg) \<le> tc_Interval t"
    using validate_targets_shortest [OF t] j by fastforce
qed

end
