(* ===== verification/Metrics.thy ===== *)
theory Metrics
  imports Probe_Result Config_Load
begin

text \<open>
  \<^verbatim>\<open>internal/metrics/metrics.go\<close>. The metric vectors of the Prometheus client are outside the
  repository: a vector is a value of \<open>'v\<close> and its methods are the record \<open>vec_ops\<close>, of which
  \<open>vec_laws\<close> states the documented behaviour (a vector is a map from label sets to values, \<^verbatim>\<open>Delete\<close>
  removes one series and \<^verbatim>\<open>DeletePartialMatch\<close> all whose labels include the given ones). Each method
  of the exporter is the list of calls on vectors it makes, in order, run by \<open>run_ops\<close>. The two plain
  gauges are vectors without labels.

  The observation \<open>obs\<close> of an exporter, the map from metric and labels to value that a scrape of
  \<^verbatim>\<open>/metrics\<close> shows, is the abstract specification: \<open>obs_run\<close> says what each list of calls does to it.
\<close>

section \<open>Vectors and calls\<close>

type_synonym labels = "string \<Rightarrow> string option"

datatype metric = probeSuccess | probeDuration | probeTimeout | probeInterval | probeTimedOut
  | probePhaseDuration | httpStatusCode | proxyConnectStatusCode | tlsCertExpiry | tlsCertChainExpiry
  | icmpPacketLoss | icmpAvgRTT | icmpStddevRTT | mtuBytes | mtuState | dnsResolveTime
  | dnsResultMatch | httpBodyMatch | httpResponseTruncated | probeSkippedOverlapTotal | buildInfo
  | configInfo | targetProxyInfo | targetsTotal | configReloadTS

record 'v vec_ops =
  v_new :: 'v
  v_get :: "'v \<Rightarrow> labels \<Rightarrow> real option"
  v_set :: "labels \<Rightarrow> real \<Rightarrow> 'v \<Rightarrow> 'v"
  v_with :: "labels \<Rightarrow> 'v \<Rightarrow> 'v"
  v_inc :: "labels \<Rightarrow> 'v \<Rightarrow> 'v"
  v_delete :: "labels \<Rightarrow> 'v \<Rightarrow> 'v"
  v_deletePartialMatch :: "labels \<Rightarrow> 'v \<Rightarrow> 'v"
  v_reset :: "'v \<Rightarrow> 'v"
  v_registers :: "string list \<Rightarrow> bool"

datatype vecop = VSet metric labels real | VWith metric labels | VInc metric labels
  | VDelete metric labels | VDeletePartial metric labels | VReset metric

record 'v MetricsExporter =
  me_tagKeys :: "string list"
  me_vecs :: "metric \<Rightarrow> 'v"

definition on_vec :: "metric \<Rightarrow> ('v \<Rightarrow> 'v) \<Rightarrow> 'v MetricsExporter \<Rightarrow> 'v MetricsExporter" where
  "on_vec m f e = e\<lparr>me_vecs := (me_vecs e)(m := f (me_vecs e m))\<rparr>"

fun exec :: "'v vec_ops \<Rightarrow> vecop \<Rightarrow> 'v MetricsExporter \<Rightarrow> 'v MetricsExporter" where
  "exec V (VSet m l x) e = on_vec m (v_set V l x) e"
| "exec V (VWith m l) e = on_vec m (v_with V l) e"
| "exec V (VInc m l) e = on_vec m (v_inc V l) e"
| "exec V (VDelete m l) e = on_vec m (v_delete V l) e"
| "exec V (VDeletePartial m l) e = on_vec m (v_deletePartialMatch V l) e"
| "exec V (VReset m) e = on_vec m (v_reset V) e"

definition run_ops :: "'v vec_ops \<Rightarrow> vecop list \<Rightarrow> 'v MetricsExporter \<Rightarrow> 'v MetricsExporter" where
  "run_ops V ops e = foldl (\<lambda>e op. exec V op e) e ops"

section \<open>The exporter\<close>

definition baseLabels :: "string list" where
  "baseLabels = [''target'', ''target_name'', ''probe_type'', ''proxy_name'']"

text \<open>The label names with which \<^verbatim>\<open>NewMetricsExporter\<close> creates each vector.\<close>

fun label_names :: "string list \<Rightarrow> metric \<Rightarrow> string list" where
  "label_names tagKeys probePhaseDuration = baseLabels @ tagKeys @ [''phase'']"
| "label_names tagKeys tlsCertChainExpiry = baseLabels @ tagKeys @ [''cert_index'', ''cert_role'']"
| "label_names tagKeys mtuState = baseLabels @ tagKeys @ [''state'', ''detail'']"
| "label_names tagKeys buildInfo = [''version'', ''revision'', ''build_date'']"
| "label_names tagKeys configInfo = [''hash'']"
| "label_names tagKeys targetProxyInfo = [''target_name'', ''proxy_name'', ''proxy_endpoint'']"
| "label_names tagKeys targetsTotal = []"
| "label_names tagKeys configReloadTS = []"
| "label_names tagKeys m = baseLabels @ tagKeys"

definition all_metrics :: "metric list" where
  "all_metrics = [probeSuccess, probeDuration, probeTimeout, probeInterval, probeTimedOut,
     probePhaseDuration, httpStatusCode, proxyConnectStatusCode, tlsCertExpiry, tlsCertChainExpiry,
     icmpPacketLoss, icmpAvgRTT, icmpStddevRTT, mtuBytes, mtuState, probeSkippedOverlapTotal,
     dnsResolveTime, dnsResultMatch, httpBodyMatch, httpResponseTruncated, buildInfo, configInfo,
     targetProxyInfo, targetsTotal, configReloadTS]"

text \<open>\<open>None\<close> is the panic of \<^verbatim>\<open>MustRegister\<close>.\<close>

definition NewMetricsExporter :: "'v vec_ops \<Rightarrow> string list \<Rightarrow> 'v MetricsExporter option" where
  "NewMetricsExporter V tagKeys =
     (if list_all (\<lambda>m. v_registers V (label_names tagKeys m)) all_metrics
      then Some \<lparr>me_tagKeys = tagKeys, me_vecs = (\<lambda>_. v_new V)\<rparr> else None)"

definition tag_value :: "TargetConfig \<Rightarrow> string \<Rightarrow> string" where
  "tag_value target key = (case mget (tc_Tags target) key of None \<Rightarrow> [] | Some v \<Rightarrow> v)"

definition buildLabels :: "string list \<Rightarrow> TargetConfig \<Rightarrow> labels" where
  "buildLabels tagKeys target =
     foldl (\<lambda>l key. l(key \<mapsto> tag_value target key))
       [''target'' \<mapsto> tc_Address target, ''target_name'' \<mapsto> tc_Name target,
        ''probe_type'' \<mapsto> tc_ProbeType target, ''proxy_name'' \<mapsto> tc_ProxyName target] tagKeys"

definition flag :: "bool \<Rightarrow> real" where
  "flag b = (if b then 1 else 0)"

definition phase_labels :: "labels \<Rightarrow> string \<Rightarrow> labels" where
  "phase_labels l phase = l(''phase'' \<mapsto> phase)"

definition set_or_delete :: "bool \<Rightarrow> metric \<Rightarrow> labels \<Rightarrow> real \<Rightarrow> vecop" where
  "set_or_delete b m l x = (if b then VSet m l x else VDelete m l)"

text \<open>\<^verbatim>\<open>Time.Unix\<close>: seconds since 1970, of an instant counted in nanoseconds from year 1.\<close>

definition time_Unix :: "gotime \<Rightarrow> int" where
  "time_Unix t = t div 1000000000 - 62135596800"

definition certificateRole :: "nat \<Rightarrow> Certificate \<Rightarrow> string" where
  "certificateRole index cert =
     (if index = 0 then ''leaf''
      else if ce_RawIssuer cert = ce_RawSubject cert then ''root'' else ''intermediate'')"

definition clearTLSResult :: "labels \<Rightarrow> vecop list" where
  "clearTLSResult l = [VDelete tlsCertExpiry l, VDeletePartial tlsCertChainExpiry l]"

definition cert_labels :: "labels \<Rightarrow> nat \<Rightarrow> Certificate \<Rightarrow> labels" where
  "cert_labels l i cert = l(''cert_index'' \<mapsto> Itoa (int i), ''cert_role'' \<mapsto> certificateRole i cert)"

fun cert_ops :: "labels \<Rightarrow> nat \<Rightarrow> Certificate option list \<Rightarrow> vecop list" where
  "cert_ops l i [] = []"
| "cert_ops l i (None # cs) = cert_ops l (Suc i) cs"
| "cert_ops l i (Some c # cs) =
     VSet tlsCertChainExpiry (cert_labels l i c) (of_int (time_Unix (ce_NotAfter c))) # cert_ops l (Suc i) cs"

definition recordTLSResult :: "ProbeResult \<Rightarrow> labels \<Rightarrow> vecop list" where
  "recordTLSResult r l =
     clearTLSResult l
     @ (if pr_CertObserved r then [VSet tlsCertExpiry l (of_int (time_Unix (pr_CertExpiry r)))] else [])
     @ cert_ops l 0 (pr_TLSCertificates r)"

definition recordMTUResult :: "ProbeResult \<Rightarrow> labels \<Rightarrow> vecop list" where
  "recordMTUResult r l =
     [VDeletePartial mtuState l,
      set_or_delete (pr_PathMTU r > 0) mtuBytes l (of_int (pr_PathMTU r)),
      VSet mtuState (l(''state'' \<mapsto> pr_MTUState r, ''detail'' \<mapsto> pr_MTUDetail r)) 1]"

definition recordICMPAvgRTT :: "ProbeResult \<Rightarrow> labels \<Rightarrow> vecop" where
  "recordICMPAvgRTT r l =
     set_or_delete (pr_ICMPRepliesObserved r \<ge> 1) icmpAvgRTT l (dur_Seconds (pr_ICMPAvgRTT r))"

definition recordICMPStddevRTT :: "ProbeResult \<Rightarrow> labels \<Rightarrow> vecop" where
  "recordICMPStddevRTT r l =
     set_or_delete (pr_ICMPRepliesObserved r \<ge> 2) icmpStddevRTT l (dur_Seconds (pr_ICMPStddevRTT r))"

definition knownPhases :: "string list" where
  "knownPhases = AllPhases"

text \<open>The calls of \<^verbatim>\<open>Record\<close> before its switch on the probe type, and those of the switch.\<close>

definition record_common :: "TargetConfig \<Rightarrow> ProbeResult \<Rightarrow> labels \<Rightarrow> vecop list" where
  "record_common target r l =
     [VSet probeSuccess l (flag (pr_Success r)), VSet probeDuration l (dur_Seconds (pr_Duration r)),
      VSet probeTimedOut l (flag (pr_TimedOut r))]
     @ (if tc_ProbeType target \<in> {ProbeTypeProxyConnect, ProbeTypeHTTP, ProbeTypeHTTPBody, ProbeTypeTLSCert}
        then [set_or_delete (pr_ProxyConnectResponseReceived r) proxyConnectStatusCode l
                (of_int (pr_ProxyConnectStatusCode r))]
        else [])
     @ map (\<lambda>p. VDelete probePhaseDuration (phase_labels l p)) knownPhases
     @ map (\<lambda>(p, d). VSet probePhaseDuration (phase_labels l p) (dur_Seconds d)) (elems (pr_Phases r))"

definition record_special :: "TargetConfig \<Rightarrow> ProbeResult \<Rightarrow> labels \<Rightarrow> vecop list" where
  "record_special target r l =
     (let ty = tc_ProbeType target;
          status = set_or_delete (pr_HTTPResponseReceived r) httpStatusCode l (of_int (pr_StatusCode r)) in
      if ty = ProbeTypeHTTP then
        [status]
        @ (if po_TLSEmitCertMetrics (tc_ProbeOpts target) then recordTLSResult r l else clearTLSResult l)
        @ [set_or_delete (pr_HTTPTruncationEvaluated r) httpResponseTruncated l (flag (pr_HTTPResponseTruncated r))]
      else if ty = ProbeTypeICMP then
        [VSet icmpPacketLoss l (pr_PacketLoss r), recordICMPAvgRTT r l, recordICMPStddevRTT r l]
      else if ty = ProbeTypeMTU then recordMTUResult r l @ [recordICMPAvgRTT r l]
      else if ty = ProbeTypeDNS then
        [VSet dnsResolveTime l (dur_Seconds (pr_DNSResolveTime r)),
         set_or_delete (pr_DNSMatchEvaluated r) dnsResultMatch l (flag (pr_DNSMatched r))]
      else if ty = ProbeTypeTLSCert then recordTLSResult r l
      else if ty = ProbeTypeHTTPBody then
        [set_or_delete (pr_HTTPBodyEvaluated r) httpBodyMatch l (flag (pr_BodyMatch r)), status]
      else [])"

definition Record_ops :: "string list \<Rightarrow> TargetConfig \<Rightarrow> ProbeResult \<Rightarrow> vecop list" where
  "Record_ops tagKeys target r =
     (let l = buildLabels tagKeys target in record_common target r l @ record_special target r l)"

definition Record :: "'v vec_ops \<Rightarrow> TargetConfig \<Rightarrow> ProbeResult \<Rightarrow> 'v MetricsExporter \<Rightarrow> 'v MetricsExporter" where
  "Record V target r e = run_ops V (Record_ops (me_tagKeys e) target r) e"

definition proxy_info_labels :: "TargetConfig \<Rightarrow> ResolvedProxyConfig \<Rightarrow> labels" where
  "proxy_info_labels target rp =
     [''target_name'' \<mapsto> tc_Name target, ''proxy_name'' \<mapsto> tc_ProxyName target,
      ''proxy_endpoint'' \<mapsto> rp_Endpoint rp]"

definition deleteTargetProxyInfo :: "TargetConfig \<Rightarrow> vecop" where
  "deleteTargetProxyInfo target =
     (case tc_ResolvedProxy target of
        Some rp \<Rightarrow>
          if tc_ProxyName target = [] then VDeletePartial targetProxyInfo [''target_name'' \<mapsto> tc_Name target]
          else VDelete targetProxyInfo (proxy_info_labels target rp)
      | None \<Rightarrow> VDeletePartial targetProxyInfo [''target_name'' \<mapsto> tc_Name target])"

definition DeleteTarget_ops :: "string list \<Rightarrow> TargetConfig \<Rightarrow> vecop list" where
  "DeleteTarget_ops tagKeys target =
     (let l = buildLabels tagKeys target in
      [VDelete probeSuccess l, VDelete probeDuration l, VDelete probeTimeout l, VDelete probeInterval l,
       VDelete probeTimedOut l, VDelete proxyConnectStatusCode l, VDelete httpStatusCode l,
       VDelete tlsCertExpiry l, VDeletePartial tlsCertChainExpiry l, VDelete icmpPacketLoss l,
       VDelete icmpAvgRTT l, VDelete icmpStddevRTT l, VDelete mtuBytes l, VDeletePartial mtuState l,
       VDelete probeSkippedOverlapTotal l, VDelete dnsResolveTime l, VDelete dnsResultMatch l,
       VDelete httpBodyMatch l, VDelete httpResponseTruncated l, deleteTargetProxyInfo target]
      @ map (\<lambda>p. VDelete probePhaseDuration (phase_labels l p)) knownPhases)"

definition DeleteTarget :: "'v vec_ops \<Rightarrow> TargetConfig \<Rightarrow> 'v MetricsExporter \<Rightarrow> 'v MetricsExporter" where
  "DeleteTarget V target e = run_ops V (DeleteTarget_ops (me_tagKeys e) target) e"

definition EnsureTarget_ops :: "string list \<Rightarrow> TargetConfig \<Rightarrow> vecop list" where
  "EnsureTarget_ops tagKeys target =
     (let l = buildLabels tagKeys target in
      [VSet probeTimeout l (dur_Seconds (tc_Timeout target)),
       VSet probeInterval l (dur_Seconds (tc_Interval target)), VWith probeSkippedOverlapTotal l]
      @ (case tc_ResolvedProxy target of
           None \<Rightarrow> []
         | Some rp \<Rightarrow> if tc_ProxyName target \<noteq> [] then [VSet targetProxyInfo (proxy_info_labels target rp) 1] else []))"

definition EnsureTarget :: "'v vec_ops \<Rightarrow> TargetConfig \<Rightarrow> 'v MetricsExporter \<Rightarrow> 'v MetricsExporter" where
  "EnsureTarget V target e = run_ops V (EnsureTarget_ops (me_tagKeys e) target) e"

definition IncrSkippedOverlap :: "'v vec_ops \<Rightarrow> TargetConfig \<Rightarrow> 'v MetricsExporter \<Rightarrow> 'v MetricsExporter" where
  "IncrSkippedOverlap V target e =
     run_ops V [VInc probeSkippedOverlapTotal (buildLabels (me_tagKeys e) target)] e"

definition SetBuildInfo :: "'v vec_ops \<Rightarrow> string \<Rightarrow> string \<Rightarrow> string \<Rightarrow> 'v MetricsExporter \<Rightarrow> 'v MetricsExporter" where
  "SetBuildInfo V version revision buildDate e =
     run_ops V [VSet buildInfo [''version'' \<mapsto> version, ''revision'' \<mapsto> revision, ''build_date'' \<mapsto> buildDate] 1] e"

definition SetConfigInfo :: "'v vec_ops \<Rightarrow> string \<Rightarrow> 'v MetricsExporter \<Rightarrow> 'v MetricsExporter" where
  "SetConfigInfo V hash e = run_ops V [VReset configInfo, VSet configInfo [''hash'' \<mapsto> hash] 1] e"

definition SetTargetsTotal :: "'v vec_ops \<Rightarrow> int \<Rightarrow> 'v MetricsExporter \<Rightarrow> 'v MetricsExporter" where
  "SetTargetsTotal V n e = run_ops V [VSet targetsTotal Map.empty (of_int n)] e"

definition SetConfigReloadTimestamp :: "'v vec_ops \<Rightarrow> gotime \<Rightarrow> 'v MetricsExporter \<Rightarrow> 'v MetricsExporter" where
  "SetConfigReloadTimestamp V t e = run_ops V [VSet configReloadTS Map.empty (of_int (time_Unix t))] e"

section \<open>Observations\<close>

type_synonym view = "metric \<Rightarrow> labels \<Rightarrow> real option"

definition vec_laws :: "'v vec_ops \<Rightarrow> bool" where
  "vec_laws V \<longleftrightarrow>
     v_get V (v_new V) = Map.empty
   \<and> (\<forall>v l x. v_get V (v_set V l x v) = (v_get V v)(l \<mapsto> x))
   \<and> (\<forall>v l. v_get V (v_with V l v) = (v_get V v)(l \<mapsto> (case v_get V v l of None \<Rightarrow> 0 | Some x \<Rightarrow> x)))
   \<and> (\<forall>v l. v_get V (v_inc V l v) = (v_get V v)(l \<mapsto> (case v_get V v l of None \<Rightarrow> 1 | Some x \<Rightarrow> x + 1)))
   \<and> (\<forall>v l. v_get V (v_delete V l v) = (v_get V v)(l := None))
   \<and> (\<forall>v p. v_get V (v_deletePartialMatch V p v) = (\<lambda>l. if p \<subseteq>\<^sub>m l then None else v_get V v l))
   \<and> (\<forall>v. v_get V (v_reset V v) = Map.empty)
   \<and> (\<forall>ns. v_registers V ns \<longleftrightarrow> distinct ns \<and> (\<forall>n \<in> set ns. prometheusLabelRe n \<and> \<not> HasPrefix n ''__''))"

definition obs :: "'v vec_ops \<Rightarrow> 'v MetricsExporter \<Rightarrow> view" where
  "obs V e = (\<lambda>m. v_get V (me_vecs e m))"

fun obs_op :: "vecop \<Rightarrow> view \<Rightarrow> view" where
  "obs_op (VSet m l x) s = s(m := (s m)(l \<mapsto> x))"
| "obs_op (VWith m l) s = s(m := (s m)(l \<mapsto> (case s m l of None \<Rightarrow> 0 | Some x \<Rightarrow> x)))"
| "obs_op (VInc m l) s = s(m := (s m)(l \<mapsto> (case s m l of None \<Rightarrow> 1 | Some x \<Rightarrow> x + 1)))"
| "obs_op (VDelete m l) s = s(m := (s m)(l := None))"
| "obs_op (VDeletePartial m p) s = s(m := (\<lambda>l. if p \<subseteq>\<^sub>m l then None else s m l))"
| "obs_op (VReset m) s = s(m := Map.empty)"

definition obs_run :: "vecop list \<Rightarrow> view \<Rightarrow> view" where
  "obs_run ops s = foldl (\<lambda>s op. obs_op op s) s ops"

lemma obs_on_vec: "obs V (on_vec m f e) = (obs V e)(m := v_get V (f (me_vecs e m)))"
  by (auto simp: obs_def on_vec_def fun_eq_iff)

lemma me_tagKeys_exec [simp]: "me_tagKeys (exec V op e) = me_tagKeys e"
  by (cases op) (simp_all add: on_vec_def)

lemma me_tagKeys_run [simp]: "me_tagKeys (run_ops V ops e) = me_tagKeys e"
  unfolding run_ops_def by (induction ops arbitrary: e) simp_all

lemma obs_at: "v_get V (me_vecs e m) = obs V e m"
  by (simp add: obs_def)

lemma obs_exec: "vec_laws V \<Longrightarrow> obs V (exec V op e) = obs_op op (obs V e)"
  by (cases op) (simp_all add: obs_on_vec vec_laws_def obs_at cong: if_cong)

lemma obs_run_ops: "vec_laws V \<Longrightarrow> obs V (run_ops V ops e) = obs_run ops (obs V e)"
  unfolding run_ops_def obs_run_def by (induction ops arbitrary: e) (simp_all add: obs_exec)

lemma obs_run_simps [simp]:
  "obs_run [] s = s" "obs_run (op # ops) s = obs_run ops (obs_op op s)"
  "obs_run (ops @ ops') s = obs_run ops' (obs_run ops s)"
  by (simp_all add: obs_run_def)

section \<open>Which series a call touches\<close>

fun touches :: "vecop \<Rightarrow> metric \<Rightarrow> labels \<Rightarrow> bool" where
  "touches (VSet m' l' x) m l = (m' = m \<and> l' = l)"
| "touches (VWith m' l') m l = (m' = m \<and> l' = l)"
| "touches (VInc m' l') m l = (m' = m \<and> l' = l)"
| "touches (VDelete m' l') m l = (m' = m \<and> l' = l)"
| "touches (VDeletePartial m' p) m l = (m' = m \<and> p \<subseteq>\<^sub>m l)"
| "touches (VReset m') m l = (m' = m)"

fun op_labels :: "vecop \<Rightarrow> labels" where
  "op_labels (VSet m l x) = l"
| "op_labels (VWith m l) = l"
| "op_labels (VInc m l) = l"
| "op_labels (VDelete m l) = l"
| "op_labels (VDeletePartial m l) = l"
| "op_labels (VReset m) = Map.empty"

fun is_delete :: "vecop \<Rightarrow> bool" where
  "is_delete (VDelete m l) = True"
| "is_delete (VDeletePartial m l) = True"
| "is_delete _ = False"

lemma touches_labels: "touches op m l \<Longrightarrow> op_labels op \<subseteq>\<^sub>m l"
  by (cases op) auto

lemma obs_op_untouched: "\<not> touches op m l \<Longrightarrow> obs_op op s m l = s m l"
  by (cases op) auto

lemma obs_run_untouched: "\<forall>op \<in> set ops. \<not> touches op m l \<Longrightarrow> obs_run ops s m l = s m l"
  by (induction ops arbitrary: s) (simp_all add: obs_op_untouched)

lemma obs_op_delete: "is_delete op \<Longrightarrow> obs_op op s m l = (if touches op m l then None else s m l)"
  by (cases op) auto

lemma obs_run_delete:
  "\<forall>op \<in> set ops. is_delete op \<Longrightarrow>
     obs_run ops s m l = (if \<exists>op \<in> set ops. touches op m l then None else s m l)"
  by (induction ops arbitrary: s) (auto simp: obs_op_delete)

section \<open>Labels of a target\<close>

lemma foldl_upd:
  "foldl (\<lambda>l k. l(k \<mapsto> f k)) l0 ks k = (if k \<in> set ks then Some (f k) else l0 k)"
  by (induction ks arbitrary: l0) auto

lemma buildLabels_at:
  "buildLabels ks t k =
     (if k \<in> set ks then Some (tag_value t k)
      else [''target'' \<mapsto> tc_Address t, ''target_name'' \<mapsto> tc_Name t, ''probe_type'' \<mapsto> tc_ProbeType t,
            ''proxy_name'' \<mapsto> tc_ProxyName t] k)"
  by (simp add: buildLabels_def foldl_upd)

lemma dom_buildLabels: "dom (buildLabels ks t) = set (baseLabels @ ks)"
  by (auto simp: dom_def buildLabels_at baseLabels_def split: if_splits)

lemma buildLabels_name: "''target_name'' \<notin> set ks \<Longrightarrow> buildLabels ks t ''target_name'' = Some (tc_Name t)"
  by (simp add: buildLabels_at)

lemma submap_same_dom: "m \<subseteq>\<^sub>m m' \<Longrightarrow> dom m = dom m' \<Longrightarrow> m' = m"
  by (metis map_le_antisym map_le_def)

section \<open>Well-labelled calls\<close>

text \<open>
  The tag keys an exporter can have: they pass the validation of the configuration, and the vectors
  could be registered with them.
\<close>

definition keys_ok :: "string list \<Rightarrow> bool" where
  "keys_ok ks \<longleftrightarrow> set ks \<inter> set FixedLabels = {} \<and> (\<forall>m. distinct (label_names ks m))"

text \<open>
  A call that names one series gives exactly the labels of its vector: otherwise \<^verbatim>\<open>With\<close> panics and
  \<^verbatim>\<open>Delete\<close> deletes nothing; the phase is a known one. A partial match names labels of its vector only,
  otherwise it matches nothing.
\<close>

definition series_ok :: "string list \<Rightarrow> metric \<Rightarrow> labels \<Rightarrow> bool" where
  "series_ok ks m l \<longleftrightarrow> dom l = set (label_names ks m)
     \<and> (m = probePhaseDuration \<longrightarrow> (\<exists>p \<in> set AllPhases. l ''phase'' = Some p))"

fun op_ok :: "string list \<Rightarrow> vecop \<Rightarrow> bool" where
  "op_ok ks (VSet m l x) = series_ok ks m l"
| "op_ok ks (VWith m l) = series_ok ks m l"
| "op_ok ks (VInc m l) = series_ok ks m l"
| "op_ok ks (VDelete m l) = series_ok ks m l"
| "op_ok ks (VDeletePartial m l) = (dom l \<subseteq> set (label_names ks m))"
| "op_ok ks (VReset m) = True"

definition view_ok :: "string list \<Rightarrow> view \<Rightarrow> bool" where
  "view_ok ks s \<longleftrightarrow> (\<forall>m l x. s m l = Some x \<longrightarrow> series_ok ks m l)"

lemma view_ok_op: "op_ok ks op \<Longrightarrow> view_ok ks s \<Longrightarrow> view_ok ks (obs_op op s)"
  by (cases op) (auto simp: view_ok_def split: if_splits)

lemma view_ok_run: "\<forall>op \<in> set ops. op_ok ks op \<Longrightarrow> view_ok ks s \<Longrightarrow> view_ok ks (obs_run ops s)"
  by (induction ops arbitrary: s) (simp_all add: view_ok_op)

lemma series_ok_common:
  "label_names ks m = baseLabels @ ks \<Longrightarrow> series_ok ks m (buildLabels ks t)"
  by (cases m) (auto simp: series_ok_def dom_buildLabels)

lemma set_or_delete_ok: "series_ok ks m l \<Longrightarrow> op_ok ks (set_or_delete b m l x)"
  by (simp add: set_or_delete_def)

lemma cert_ops_ok: "op \<in> set (cert_ops (buildLabels ks t) i cs) \<Longrightarrow> op_ok ks op"
  by (induction "buildLabels ks t" i cs rule: cert_ops.induct)
    (auto simp: series_ok_def cert_labels_def dom_buildLabels)

lemma clearTLS_ok: "op \<in> set (clearTLSResult (buildLabels ks t)) \<Longrightarrow> op_ok ks op"
  by (auto simp: clearTLSResult_def series_ok_common dom_buildLabels)

lemma recordTLS_ok: "op \<in> set (recordTLSResult r (buildLabels ks t)) \<Longrightarrow> op_ok ks op"
  by (auto simp: recordTLSResult_def series_ok_common dest: cert_ops_ok clearTLS_ok split: if_splits)

lemma phase_ok: "p \<in> set AllPhases \<Longrightarrow> series_ok ks probePhaseDuration (phase_labels (buildLabels ks t) p)"
  by (auto simp: series_ok_def phase_labels_def dom_buildLabels)

lemma recordMTU_ok: "op \<in> set (recordMTUResult r (buildLabels ks t)) \<Longrightarrow> op_ok ks op"
  by (auto simp: recordMTUResult_def series_ok_def dom_buildLabels series_ok_common intro!: set_or_delete_ok)

lemma Record_ops_ok:
  assumes "phases_ok (pr_Phases r)" "op \<in> set (Record_ops ks t r)"
  shows "op_ok ks op"
proof -
  have ph: "series_ok ks probePhaseDuration (phase_labels (buildLabels ks t) p)"
    if "(p, d) \<in> set (elems (pr_Phases r))" for p d
    using that assms(1) by (intro phase_ok) (force simp: phases_ok_def mkeys_def)
  from assms(2) consider "op \<in> set (record_common t r (buildLabels ks t))"
    | "op \<in> set (record_special t r (buildLabels ks t))"
    by (auto simp: Record_ops_def Let_def)
  then show ?thesis
  proof cases
    case 1
    then show ?thesis
      by (auto simp: record_common_def series_ok_common ph phase_ok knownPhases_def intro!: set_or_delete_ok
          split: if_splits)
  next
    case 2
    then show ?thesis
      by (auto simp: record_special_def Let_def series_ok_common recordICMPAvgRTT_def recordICMPStddevRTT_def
          intro!: set_or_delete_ok dest: recordTLS_ok clearTLS_ok recordMTU_ok split: if_splits)
  qed
qed

lemma series_ok_info: "series_ok ks targetProxyInfo (proxy_info_labels t rp)"
  by (auto simp: series_ok_def proxy_info_labels_def)

lemma EnsureTarget_ops_ok: "op \<in> set (EnsureTarget_ops ks t) \<Longrightarrow> op_ok ks op"
  by (auto simp: EnsureTarget_ops_def Let_def series_ok_common series_ok_info
      split: option.splits if_splits)

lemma DeleteTarget_ops_ok: "op \<in> set (DeleteTarget_ops ks t) \<Longrightarrow> op_ok ks op"
  by (auto simp: DeleteTarget_ops_def Let_def series_ok_common series_ok_info dom_buildLabels phase_ok knownPhases_def
      deleteTargetProxyInfo_def split: option.splits)

text \<open>
  C35: every call on a vector carries labels that fit it. Whatever the target and the result (with the
  phases a prober may report), each \<^verbatim>\<open>With\<close>, \<^verbatim>\<open>Set\<close>, \<^verbatim>\<open>Inc\<close> and \<^verbatim>\<open>Delete\<close> that \<^verbatim>\<open>Record\<close>, \<^verbatim>\<open>EnsureTarget\<close>,
  \<^verbatim>\<open>DeleteTarget\<close> and \<^verbatim>\<open>IncrSkippedOverlap\<close> make gives exactly the label names its vector was created with,
  so that none panics and no deletion is without effect over a missing label, a phase is one that
  \<^verbatim>\<open>DeleteTarget\<close> knows, and each \<^verbatim>\<open>DeletePartialMatch\<close> gives label names of its vector only.
\<close>

theorem exporter_calls_well_labelled:
  assumes "phases_ok (pr_Phases r)"
  shows "(\<forall>op \<in> set (Record_ops ks t r). op_ok ks op) \<and> (\<forall>op \<in> set (EnsureTarget_ops ks t). op_ok ks op)
    \<and> (\<forall>op \<in> set (DeleteTarget_ops ks t). op_ok ks op) \<and> op_ok ks (VInc probeSkippedOverlapTotal (buildLabels ks t))"
  using Record_ops_ok [OF assms] EnsureTarget_ops_ok DeleteTarget_ops_ok by (auto intro: series_ok_common)

theorem exporter_calls_well_labelled_witness:
  "list_all (op_ok [''env'']) (Record_ops [''env''] zero_target (zero_result\<lparr>pr_Phases := Some [(''ttfb'', 3)]\<rparr>))"
proof -
  have "phases_ok (pr_Phases (zero_result\<lparr>pr_Phases := Some [(''ttfb'', 3)]\<rparr>))"
    by (simp add: phases_ok_def mok_def mkeys_def mget_def AllPhases_def phase_defs)
  from exporter_calls_well_labelled [OF this] show ?thesis unfolding list_all_iff by blast
qed

section \<open>Isolation of targets\<close>

lemma set_or_delete_labels [simp]: "op_labels (set_or_delete b m l x) = l"
  by (simp add: set_or_delete_def)

lemma cert_ops_labels: "op \<in> set (cert_ops l i cs) \<Longrightarrow> op_labels op ''target_name'' = l ''target_name''"
  by (induction l i cs rule: cert_ops.induct) (auto simp: cert_labels_def)

lemmas record_defs = Record_ops_def record_common_def record_special_def recordTLSResult_def
  clearTLSResult_def recordMTUResult_def recordICMPAvgRTT_def recordICMPStddevRTT_def phase_labels_def

lemma Record_ops_name:
  "op \<in> set (Record_ops ks t r) \<Longrightarrow> op_labels op ''target_name'' = buildLabels ks t ''target_name''"
  by (auto simp: record_defs Let_def dest: cert_ops_labels split: if_splits)

lemma DeleteTarget_ops_name:
  "''target_name'' \<notin> set ks \<Longrightarrow> op \<in> set (DeleteTarget_ops ks t) \<Longrightarrow> op_labels op ''target_name'' = Some (tc_Name t)"
  by (auto simp: DeleteTarget_ops_def Let_def phase_labels_def deleteTargetProxyInfo_def proxy_info_labels_def
      buildLabels_name split: option.splits)

lemma EnsureTarget_ops_name:
  "''target_name'' \<notin> set ks \<Longrightarrow> op \<in> set (EnsureTarget_ops ks t) \<Longrightarrow> op_labels op ''target_name'' = Some (tc_Name t)"
  by (auto simp: EnsureTarget_ops_def Let_def proxy_info_labels_def buildLabels_name
      split: option.splits if_splits)

lemma obs_run_other_name:
  assumes "\<forall>op \<in> set ops. op_labels op ''target_name'' = Some n" and "l ''target_name'' \<noteq> Some n"
  shows "obs_run ops s m l = s m l"
proof (rule obs_run_untouched, rule ballI, rule notI)
  fix op assume "op \<in> set ops" "touches op m l"
  with touches_labels [of op m l] assms show False by (auto simp: map_le_def dom_def)
qed

text \<open>
  The methods of the exporter for one target touch no series of another: recording a result,
  creating and deleting the series of a target and counting a skipped tick leave every series
  with a different target name as it was.
\<close>

lemma target_series_isolated:
  assumes "vec_laws V" and "''target_name'' \<notin> set (me_tagKeys e)" and "l ''target_name'' \<noteq> Some (tc_Name t)"
  shows "obs V (Record V t r e) m l = obs V e m l \<and> obs V (DeleteTarget V t e) m l = obs V e m l
    \<and> obs V (EnsureTarget V t e) m l = obs V e m l \<and> obs V (IncrSkippedOverlap V t e) m l = obs V e m l"
  unfolding Record_def DeleteTarget_def EnsureTarget_def IncrSkippedOverlap_def obs_run_ops [OF assms(1)]
  using assms Record_ops_name DeleteTarget_ops_name EnsureTarget_ops_name
  by (intro conjI obs_run_other_name [where n = "tc_Name t"]) (auto simp: buildLabels_name)

text \<open>A vector as a function from label sets to values.\<close>

definition map_vec :: "(labels \<Rightarrow> real option) vec_ops" where
  "map_vec =
     \<lparr>v_new = Map.empty, v_get = (\<lambda>v. v), v_set = (\<lambda>l x v. v(l \<mapsto> x)),
      v_with = (\<lambda>l v. v(l \<mapsto> (case v l of None \<Rightarrow> 0 | Some x \<Rightarrow> x))),
      v_inc = (\<lambda>l v. v(l \<mapsto> (case v l of None \<Rightarrow> 1 | Some x \<Rightarrow> x + 1))),
      v_delete = (\<lambda>l v. v(l := None)), v_deletePartialMatch = (\<lambda>p v l. if p \<subseteq>\<^sub>m l then None else v l),
      v_reset = (\<lambda>_. Map.empty),
      v_registers = (\<lambda>ns. distinct ns \<and> (\<forall>n \<in> set ns. prometheusLabelRe n \<and> \<not> HasPrefix n ''__''))\<rparr>"

lemma map_vec_laws: "vec_laws map_vec"
  by (simp add: vec_laws_def map_vec_def cong: if_cong)

definition empty_exporter :: "string list \<Rightarrow> (labels \<Rightarrow> real option) MetricsExporter" where
  "empty_exporter ks = \<lparr>me_tagKeys = ks, me_vecs = (\<lambda>_. Map.empty)\<rparr>"

section \<open>Deletion\<close>

lemma DeleteTarget_ops_delete: "\<forall>op \<in> set (DeleteTarget_ops ks t). is_delete op"
  by (auto simp: DeleteTarget_ops_def Let_def deleteTargetProxyInfo_def split: option.splits)

lemma labels_of_target:
  assumes "series_ok ks m l" "buildLabels ks t \<subseteq>\<^sub>m l" "label_names ks m = baseLabels @ ks"
  shows "l = buildLabels ks t"
  using assms submap_same_dom [of "buildLabels ks t" l] by (simp add: series_ok_def dom_buildLabels)

lemma labels_of_phase:
  assumes "series_ok ks probePhaseDuration l" "buildLabels ks t \<subseteq>\<^sub>m l" "''phase'' \<notin> set (baseLabels @ ks)"
  shows "\<exists>p \<in> set AllPhases. l = phase_labels (buildLabels ks t) p"
proof -
  from assms(1) obtain p where p: "p \<in> set AllPhases" "l ''phase'' = Some p"
    and d: "dom l = insert ''phase'' (dom (buildLabels ks t))"
    by (auto simp: series_ok_def dom_buildLabels)
  have n: "''phase'' \<notin> dom (buildLabels ks t)" using assms(3) by (simp add: dom_buildLabels)
  have "phase_labels (buildLabels ks t) p \<subseteq>\<^sub>m l"
    using assms(2) p(2) by (auto simp: phase_labels_def map_le_def)
  moreover have "dom (phase_labels (buildLabels ks t) p) = dom l" using d by (simp add: phase_labels_def)
  ultimately have "l = phase_labels (buildLabels ks t) p" by (rule submap_same_dom)
  with p show ?thesis by blast
qed

lemma DeleteTarget_touches:
  assumes "series_ok ks m l" "buildLabels ks t \<subseteq>\<^sub>m l" "keys_ok ks"
    and "m \<notin> {buildInfo, configInfo, targetProxyInfo, targetsTotal, configReloadTS}"
  shows "\<exists>op \<in> set (DeleteTarget_ops ks t). touches op m l"
proof (cases "m = probePhaseDuration")
  case True
  have "distinct (label_names ks probePhaseDuration)" using assms(3) by (simp add: keys_ok_def del: label_names.simps)
  then have "''phase'' \<notin> set (baseLabels @ ks)" by auto
  with labels_of_phase [of ks l t] assms(1,2) True show ?thesis
    by (auto simp: DeleteTarget_ops_def Let_def knownPhases_def)
next
  case False
  show ?thesis
  proof (cases "m = tlsCertChainExpiry \<or> m = mtuState")
    case True
    with assms(2) show ?thesis by (auto simp: DeleteTarget_ops_def Let_def)
  next
    case other: False
    with False assms(4) have "label_names ks m = baseLabels @ ks" by (cases m) simp_all
    from labels_of_target [OF assms(1,2) this] False other assms(4) show ?thesis
      by (cases m) (simp_all add: DeleteTarget_ops_def Let_def)
  qed
qed

text \<open>
  C33: deleting a target is complete. In an exporter whose series are well labelled (as every sequence
  of its methods keeps them), no series of any probe metric whose labels include those of the
  target survives \<^verbatim>\<open>DeleteTarget\<close>, phase, certificate and MTU state series included, and neither
  does the series that maps the target to its proxy.
\<close>

theorem DeleteTarget_complete:
  assumes "vec_laws V" and "keys_ok (me_tagKeys e)" and "view_ok (me_tagKeys e) (obs V e)"
    and "buildLabels (me_tagKeys e) t \<subseteq>\<^sub>m l"
    and "m \<notin> {buildInfo, configInfo, targetProxyInfo, targetsTotal, configReloadTS}"
  shows "obs V (DeleteTarget V t e) m l = None
    \<and> (\<forall>rp. tc_ResolvedProxy t = Some rp \<longrightarrow> obs V (DeleteTarget V t e) targetProxyInfo (proxy_info_labels t rp) = None)"
proof -
  let ?ops = "DeleteTarget_ops (me_tagKeys e) t"
  have run: "obs V (DeleteTarget V t e) m l
      = (if \<exists>op \<in> set ?ops. touches op m l then None else obs V e m l)" for m l
    unfolding DeleteTarget_def obs_run_ops [OF assms(1)] by (rule obs_run_delete [OF DeleteTarget_ops_delete])
  have 1: "obs V (DeleteTarget V t e) m l = None"
  proof (cases "obs V e m l")
    case (Some x)
    with assms(3) have "series_ok (me_tagKeys e) m l" by (auto simp: view_ok_def)
    from DeleteTarget_touches [OF this assms(4,2,5)] run show ?thesis by simp
  qed (simp add: run)
  have 2: "obs V (DeleteTarget V t e) targetProxyInfo (proxy_info_labels t rp) = None"
    if "tc_ResolvedProxy t = Some rp" for rp
  proof -
    have "touches (deleteTargetProxyInfo t) targetProxyInfo (proxy_info_labels t rp)"
      using that by (simp add: deleteTargetProxyInfo_def proxy_info_labels_def map_le_def)
    moreover have "deleteTargetProxyInfo t \<in> set ?ops" by (simp add: DeleteTarget_ops_def Let_def)
    ultimately show ?thesis using run by metis
  qed
  from 1 2 show ?thesis by blast
qed

lemma keys_ok_Nil: "keys_ok []"
proof -
  have "distinct (label_names [] m)" for m by (cases m) (simp_all add: baseLabels_def)
  then show ?thesis by (simp add: keys_ok_def)
qed

lemma view_ok_empty: "view_ok ks (obs map_vec (empty_exporter ks))"
  by (simp add: view_ok_def obs_def map_vec_def empty_exporter_def)

theorem DeleteTarget_complete_witness:
  "obs map_vec (DeleteTarget map_vec zero_target (Record map_vec zero_target zero_result (empty_exporter [])))
     probeSuccess (buildLabels [] zero_target) = None"
proof -
  let ?e = "Record map_vec zero_target zero_result (empty_exporter [])"
  have k: "me_tagKeys ?e = []" by (simp add: Record_def empty_exporter_def)
  have "obs map_vec ?e = obs_run (Record_ops [] zero_target zero_result) (obs map_vec (empty_exporter []))"
    unfolding Record_def obs_run_ops [OF map_vec_laws] by (simp add: empty_exporter_def)
  then have "view_ok [] (obs map_vec ?e)"
    using view_ok_run [OF _ view_ok_empty] Record_ops_ok [of zero_result _ "[]" zero_target] by simp
  with DeleteTarget_complete [OF map_vec_laws, of ?e zero_target "buildLabels [] zero_target" probeSuccess]
  show ?thesis by (simp add: k keys_ok_Nil)
qed

section \<open>Current observations\<close>

fun op_metric :: "vecop \<Rightarrow> metric" where
  "op_metric (VSet m l x) = m"
| "op_metric (VWith m l) = m"
| "op_metric (VInc m l) = m"
| "op_metric (VDelete m l) = m"
| "op_metric (VDeletePartial m l) = m"
| "op_metric (VReset m) = m"

lemma set_or_delete_metric [simp]: "op_metric (set_or_delete b m l x) = m"
  by (simp add: set_or_delete_def)

lemma touches_metric: "touches op m l \<Longrightarrow> op_metric op = m"
  by (cases op) auto

lemma obs_run_other_metric: "\<forall>op \<in> set ops. op_metric op \<noteq> m \<Longrightarrow> obs_run ops s m l = s m l"
  by (rule obs_run_untouched) (auto dest: touches_metric)

lemma cert_ops_metric: "op \<in> set (cert_ops l i cs) \<Longrightarrow> op_metric op = tlsCertChainExpiry"
  by (induction l i cs rule: cert_ops.induct) auto

lemma record_special_metric:
  "op \<in> set (record_special t r l) \<Longrightarrow>
     op_metric op \<notin> {probeSuccess, probeDuration, probeTimedOut, probePhaseDuration, proxyConnectStatusCode}"
  by (auto simp: record_defs Let_def dest: cert_ops_metric split: if_splits)

lemma phase_labels_inj [simp]: "phase_labels l p = phase_labels l q \<longleftrightarrow> p = q"
  by (auto simp: phase_labels_def dest: map_upd_eqD1)

lemma obs_run_sets:
  assumes "distinct (map fst xs)" "\<And>p q. f p = f q \<longleftrightarrow> p = q"
  shows "obs_run (map (\<lambda>(p, d). VSet m (f p) (g d)) xs) s m (f p)
     = (case map_of xs p of None \<Rightarrow> s m (f p) | Some d \<Rightarrow> Some (g d))"
  using assms(1)
proof (induction xs arbitrary: s)
  case (Cons x xs)
  obtain q d where x: "x = (q, d)" by (cases x)
  show ?case
  proof (cases "q = p")
    case True
    with Cons x have "map_of xs p = None" by (simp add: map_of_eq_None_iff)
    with Cons x True show ?thesis by simp
  next
    case False
    with Cons x assms(2) [of q p] assms(2) [of p q] show ?thesis by (auto split: option.splits)
  qed
qed simp

text \<open>
  C34: after a result is recorded the exporter shows this result and nothing older: success, duration
  and timeout flag are those of the result, and for every phase the series exists exactly if the
  result has that phase, with its duration in seconds, so a phase that an earlier probe reached and
  this one did not disappears.
\<close>

theorem Record_shows_current_result:
  assumes "vec_laws V" and "phases_ok (pr_Phases r)" and "p \<in> set AllPhases"
    and "l = buildLabels (me_tagKeys e) t" and "s = obs V (Record V t r e)"
  shows "s probeSuccess l = Some (if pr_Success r then 1 else 0)
    \<and> s probeDuration l = Some (dur_Seconds (pr_Duration r))
    \<and> s probeTimedOut l = Some (if pr_TimedOut r then 1 else 0)
    \<and> s probePhaseDuration (phase_labels l p) = map_option dur_Seconds (mget (pr_Phases r) p)"
proof -
  define s1 where "s1 = obs_run (record_common t r l) (obs V e)"
  have s: "s = obs_run (record_special t r l) s1"
    using assms(4,5) by (simp add: Record_def obs_run_ops [OF assms(1)] Record_ops_def s1_def Let_def)
  have keep: "s m l' = s1 m l'" if "m \<in> {probeSuccess, probeDuration, probeTimedOut, probePhaseDuration}" for m l'
    unfolding s using that by (intro obs_run_other_metric) (auto dest: record_special_metric)
  let ?head = "[VSet probeSuccess l (flag (pr_Success r)), VSet probeDuration l (dur_Seconds (pr_Duration r)),
      VSet probeTimedOut l (flag (pr_TimedOut r))]"
  let ?conn = "if tc_ProbeType t \<in> {ProbeTypeProxyConnect, ProbeTypeHTTP, ProbeTypeHTTPBody, ProbeTypeTLSCert}
        then [set_or_delete (pr_ProxyConnectResponseReceived r) proxyConnectStatusCode l
                (of_int (pr_ProxyConnectStatusCode r))] else []"
  let ?del = "map (\<lambda>p. VDelete probePhaseDuration (phase_labels l p)) knownPhases"
  let ?set = "map (\<lambda>(p, d). VSet probePhaseDuration (phase_labels l p) (dur_Seconds d)) (elems (pr_Phases r))"
  have s1: "s1 = obs_run ?set (obs_run ?del (obs_run ?conn (obs_run ?head (obs V e))))"
    unfolding s1_def record_common_def by (simp only: obs_run_simps)
  have head: "s1 m l = obs_run ?head (obs V e) m l" if "m \<in> {probeSuccess, probeDuration, probeTimedOut}" for m
    unfolding s1 using that by (subst obs_run_other_metric, fastforce)+ simp
  have "distinct (map fst (elems (pr_Phases r)))"
    using assms(2) by (simp add: phases_ok_def mok_def mkeys_def)
  then have "s1 probePhaseDuration (phase_labels l p)
      = (case mget (pr_Phases r) p of
           None \<Rightarrow> obs_run ?del (obs_run ?conn (obs_run ?head (obs V e))) probePhaseDuration (phase_labels l p)
         | Some d \<Rightarrow> Some (dur_Seconds d))"
    unfolding s1 mget_def by (rule obs_run_sets) simp
  moreover have "obs_run ?del s' probePhaseDuration (phase_labels l p) = None" for s'
    using assms(3) by (subst obs_run_delete) (auto simp: knownPhases_def)
  ultimately have "s1 probePhaseDuration (phase_labels l p) = map_option dur_Seconds (mget (pr_Phases r) p)"
    by (simp split: option.splits)
  with keep head show ?thesis by (simp add: flag_def)
qed

theorem Record_shows_current_result_witness:
  "obs map_vec (Record map_vec zero_target zero_result
      (Record map_vec zero_target (zero_result\<lparr>pr_Phases := Some [(PhaseTTFB, 3)]\<rparr>) (empty_exporter [])))
     probePhaseDuration (phase_labels (buildLabels [] zero_target) PhaseTTFB) = None"
proof -
  let ?e = "Record map_vec zero_target (zero_result\<lparr>pr_Phases := Some [(PhaseTTFB, 3)]\<rparr>) (empty_exporter [])"
  have k: "me_tagKeys ?e = []" by (simp add: Record_def empty_exporter_def)
  have p: "PhaseTTFB \<in> set AllPhases" by (simp add: AllPhases_def)
  have "phases_ok (pr_Phases zero_result)" by simp
  from Record_shows_current_result [OF map_vec_laws this p refl refl, of zero_target ?e] show ?thesis
    by (simp add: k mget_def)
qed

text \<open>
  After an MTU result is recorded, exactly one state series of the target exists, with the state
  and detail of that result.
\<close>

lemma Record_single_mtu_state:
  assumes "vec_laws V" and "tc_ProbeType t = ProbeTypeMTU" and "buildLabels (me_tagKeys e) t \<subseteq>\<^sub>m l"
  shows "obs V (Record V t r e) mtuState l
    = (if l = (buildLabels (me_tagKeys e) t)(''state'' \<mapsto> pr_MTUState r, ''detail'' \<mapsto> pr_MTUDetail r)
       then Some 1 else None)"
proof -
  let ?b = "buildLabels (me_tagKeys e) t"
  have ops: "Record_ops (me_tagKeys e) t r = record_common t r ?b @
      [VDeletePartial mtuState ?b, set_or_delete (pr_PathMTU r > 0) mtuBytes ?b (of_int (pr_PathMTU r)),
       VSet mtuState (?b(''state'' \<mapsto> pr_MTUState r, ''detail'' \<mapsto> pr_MTUDetail r)) 1, recordICMPAvgRTT r ?b]"
    using assms(2) by (simp add: Record_ops_def record_special_def recordMTUResult_def Let_def)
  have sd: "obs_op (set_or_delete b m' l' x) s m l = s m l" if "m' \<noteq> m" for b m' l' x s m l
    using that by (simp add: set_or_delete_def)
  show ?thesis using assms(3)
    by (simp add: Record_def obs_run_ops [OF assms(1)] ops recordICMPAvgRTT_def sd)
qed

text \<open>
  After \<^verbatim>\<open>SetConfigInfo\<close> exactly one configuration series is exposed, the one of the current hash.
\<close>

lemma SetConfigInfo_single:
  assumes "vec_laws V"
  shows "obs V (SetConfigInfo V hash e) configInfo l = (if l = [''hash'' \<mapsto> hash] then Some 1 else None)"
  by (simp add: SetConfigInfo_def obs_run_ops [OF assms])

section \<open>Registration\<close>

text \<open>The labels that some vectors have beside the common ones.\<close>

definition extra_labels :: "string list" where
  "extra_labels = [''phase'', ''cert_index'', ''cert_role'', ''state'', ''detail'']"

lemma literal_labels:
  "n \<in> set (baseLabels @ extra_labels @ [''version'', ''revision'', ''build_date'', ''hash'', ''proxy_endpoint'']) \<Longrightarrow>
     prometheusLabelRe n \<and> \<not> HasPrefix n ''__''"
  by (auto simp: baseLabels_def extra_labels_def go_eval letter_or_underscore_def is_digit_def)

lemma label_names_regular:
  assumes "distinct ks" "set ks \<inter> set FixedLabels = {}" "\<forall>k \<in> set ks. prometheusLabelRe k"
    "\<forall>k \<in> set ks. k \<notin> set extra_labels \<and> \<not> HasPrefix k ''__''"
  shows "distinct (label_names ks m) \<and> (\<forall>n \<in> set (label_names ks m). prometheusLabelRe n \<and> \<not> HasPrefix n ''__'')"
proof -
  have f: "set ks \<inter> set baseLabels = {}" using assms(2) by (auto simp: FixedLabels_def baseLabels_def)
  have x: "''phase'' \<notin> set ks" "''cert_index'' \<notin> set ks" "''cert_role'' \<notin> set ks" "''state'' \<notin> set ks"
    "''detail'' \<notin> set ks" using assms(4) by (auto simp: extra_labels_def)
  have b: "distinct baseLabels" by (simp add: baseLabels_def)
  have xb: "set extra_labels \<inter> set baseLabels = {}" by (simp add: extra_labels_def baseLabels_def)
  have sub: "set (label_names ks m) \<subseteq> set ks \<union> set (baseLabels @ extra_labels
      @ [''version'', ''revision'', ''build_date'', ''hash'', ''proxy_endpoint''])"
    by (cases m) (auto simp: extra_labels_def baseLabels_def)
  have "distinct (label_names ks m)"
    using assms(1) f x b xb by (cases m) (auto simp: extra_labels_def)
  moreover have "prometheusLabelRe n \<and> \<not> HasPrefix n ''__''" if "n \<in> set (label_names ks m)" for n
    using sub that assms(3,4) literal_labels [of n] by blast
  ultimately show ?thesis by blast
qed

lemma label_names_collision:
  assumes "k \<in> set ks" "k \<in> set extra_labels \<or> HasPrefix k ''__''"
  shows "\<exists>m \<in> set all_metrics. \<not> (distinct (label_names ks m)
    \<and> (\<forall>n \<in> set (label_names ks m). prometheusLabelRe n \<and> \<not> HasPrefix n ''__''))"
proof -
  have mem: "probePhaseDuration \<in> set all_metrics" "tlsCertChainExpiry \<in> set all_metrics" "mtuState \<in> set all_metrics"
    by (simp_all add: all_metrics_def)
  consider "k = ''phase''" | "k = ''cert_index'' \<or> k = ''cert_role''" | "k = ''state'' \<or> k = ''detail''"
    | "HasPrefix k ''__''"
    using assms(2) by (auto simp: extra_labels_def)
  then show ?thesis
  proof cases
    case 1
    with assms(1) mem(1) show ?thesis by (intro bexI [of _ probePhaseDuration]) auto
  next
    case 2
    with assms(1) mem(2) show ?thesis by (intro bexI [of _ tlsCertChainExpiry]) auto
  next
    case 3
    with assms(1) mem(3) show ?thesis by (intro bexI [of _ mtuState]) auto
  next
    case 4
    with assms(1) mem(1) show ?thesis by (intro bexI [of _ probePhaseDuration]) auto
  qed
qed

text \<open>
  C36: for tag keys as validation accepts them (distinct label names that are no fixed labels) the
  exporter can be created exactly if no key is one of \<^verbatim>\<open>phase\<close>, \<^verbatim>\<open>cert_index\<close>, \<^verbatim>\<open>cert_role\<close>, \<^verbatim>\<open>state\<close>
  and \<^verbatim>\<open>detail\<close> and none starts with two underscores; otherwise registration panics at startup.
\<close>

theorem NewMetricsExporter_panics_iff:
  assumes "vec_laws V" and "distinct ks"
    and "\<forall>k \<in> set ks. prometheusLabelRe k \<and> k \<notin> set FixedLabels"
  shows "NewMetricsExporter V ks = None \<longleftrightarrow> (\<exists>k \<in> set ks. k \<in> set extra_labels \<or> HasPrefix k ''__'')"
proof -
  have reg: "v_registers V ns \<longleftrightarrow> distinct ns \<and> (\<forall>n \<in> set ns. prometheusLabelRe n \<and> \<not> HasPrefix n ''__'')" for ns
    using assms(1) unfolding vec_laws_def by blast
  show ?thesis
  proof (cases "\<exists>k \<in> set ks. k \<in> set extra_labels \<or> HasPrefix k ''__''")
    case True
    then obtain k where k: "k \<in> set ks" "k \<in> set extra_labels \<or> HasPrefix k ''__''" by blast
    from label_names_collision [OF k] True show ?thesis
      unfolding NewMetricsExporter_def list_all_iff reg by (simp del: label_names.simps)
  next
    case False
    with label_names_regular [OF assms(2)] assms(3) show ?thesis
      unfolding NewMetricsExporter_def list_all_iff reg by (auto simp del: label_names.simps)
  qed
qed

text \<open>The key \<^verbatim>\<open>phase\<close> passes validation and makes the agent panic.\<close>

theorem NewMetricsExporter_panics_iff_witness:
  "validateLabelName ''phase'' = None \<and> NewMetricsExporter map_vec [''phase''] = None"
proof -
  have v: "validateLabelName ''phase'' = None"
    by (simp add: go_eval letter_or_underscore_def is_digit_def)
  then have "\<forall>k \<in> set [''phase'']. prometheusLabelRe k \<and> k \<notin> set FixedLabels"
    by (simp add: validateLabelName_None)
  from NewMetricsExporter_panics_iff [OF map_vec_laws _ this] v show ?thesis by (simp add: extra_labels_def)
qed

end
