(* ===== verification/Metrics_Refine.thy ===== *)
theory Metrics_Refine
  imports Metrics
begin

text \<open>
  What the exporter promises to the reader of one target's core series, as an abstract data type: a
  record of six optional values with one operation per method of \<^verbatim>\<open>MetricsExporter\<close>
  (\<^verbatim>\<open>internal/metrics/metrics.go\<close>). \<open>abs_target\<close> reads the record off the exposed series; every
  sequence of method calls, also for other targets, refines the abstract operations.
\<close>

record target_view =
  tv_success :: "real option"
  tv_duration :: "real option"
  tv_timedOut :: "real option"
  tv_timeout :: "real option"
  tv_interval :: "real option"
  tv_skipped :: "real option"

definition abs_target :: "labels \<Rightarrow> view \<Rightarrow> target_view" where
  "abs_target l s =
     \<lparr>tv_success = s probeSuccess l, tv_duration = s probeDuration l, tv_timedOut = s probeTimedOut l,
      tv_timeout = s probeTimeout l, tv_interval = s probeInterval l, tv_skipped = s probeSkippedOverlapTotal l\<rparr>"

datatype exporter_call =
    Call_Record TargetConfig ProbeResult
  | Call_DeleteTarget TargetConfig
  | Call_EnsureTarget TargetConfig
  | Call_IncrSkippedOverlap TargetConfig

fun call_target :: "exporter_call \<Rightarrow> TargetConfig" where
  "call_target (Call_Record t r) = t"
| "call_target (Call_DeleteTarget t) = t"
| "call_target (Call_EnsureTarget t) = t"
| "call_target (Call_IncrSkippedOverlap t) = t"

fun call_ops :: "string list \<Rightarrow> exporter_call \<Rightarrow> vecop list" where
  "call_ops ks (Call_Record t r) = Record_ops ks t r"
| "call_ops ks (Call_DeleteTarget t) = DeleteTarget_ops ks t"
| "call_ops ks (Call_EnsureTarget t) = EnsureTarget_ops ks t"
| "call_ops ks (Call_IncrSkippedOverlap t) = [VInc probeSkippedOverlapTotal (buildLabels ks t)]"

text \<open>One call on the exporter, and on the abstract view of the target it is for.\<close>

fun do_call :: "'v vec_ops \<Rightarrow> exporter_call \<Rightarrow> 'v MetricsExporter \<Rightarrow> 'v MetricsExporter" where
  "do_call V (Call_Record t r) = Record V t r"
| "do_call V (Call_DeleteTarget t) = DeleteTarget V t"
| "do_call V (Call_EnsureTarget t) = EnsureTarget V t"
| "do_call V (Call_IncrSkippedOverlap t) = IncrSkippedOverlap V t"

fun abs_call :: "exporter_call \<Rightarrow> target_view \<Rightarrow> target_view" where
  "abs_call (Call_Record t r) v =
     v\<lparr>tv_success := Some (flag (pr_Success r)), tv_duration := Some (dur_Seconds (pr_Duration r)),
       tv_timedOut := Some (flag (pr_TimedOut r))\<rparr>"
| "abs_call (Call_DeleteTarget t) v =
     \<lparr>tv_success = None, tv_duration = None, tv_timedOut = None, tv_timeout = None, tv_interval = None,
      tv_skipped = None\<rparr>"
| "abs_call (Call_EnsureTarget t) v =
     v\<lparr>tv_timeout := Some (dur_Seconds (tc_Timeout t)), tv_interval := Some (dur_Seconds (tc_Interval t)),
       tv_skipped := Some (case tv_skipped v of None \<Rightarrow> 0 | Some x \<Rightarrow> x)\<rparr>"
| "abs_call (Call_IncrSkippedOverlap t) v =
     v\<lparr>tv_skipped := Some (case tv_skipped v of None \<Rightarrow> 1 | Some x \<Rightarrow> x + 1)\<rparr>"

definition do_calls :: "'v vec_ops \<Rightarrow> exporter_call list \<Rightarrow> 'v MetricsExporter \<Rightarrow> 'v MetricsExporter" where
  "do_calls V cs e = foldl (\<lambda>e c. do_call V c e) e cs"

definition abs_calls :: "exporter_call list \<Rightarrow> target_view \<Rightarrow> target_view" where
  "abs_calls cs v = foldl (\<lambda>v c. abs_call c v) v cs"

lemma do_call_run: "do_call V c e = run_ops V (call_ops (me_tagKeys e) c) e"
  by (cases c) (simp_all add: Record_def DeleteTarget_def EnsureTarget_def IncrSkippedOverlap_def)

lemma me_tagKeys_do_call [simp]: "me_tagKeys (do_call V c e) = me_tagKeys e"
  by (simp add: do_call_run)

text \<open>The series of the abstract view, and what the calls with other metrics do to them: nothing.\<close>

definition core_metrics :: "metric set" where
  "core_metrics = {probeSuccess, probeDuration, probeTimedOut, probeTimeout, probeInterval, probeSkippedOverlapTotal}"

lemma record_special_core: "op \<in> set (record_special t r l) \<Longrightarrow> op_metric op \<notin> core_metrics"
  by (auto simp: record_defs Let_def core_metrics_def dest: cert_ops_metric split: if_splits)

lemma record_core:
  assumes "m \<in> core_metrics"
  shows "obs_run (record_special t r l) (obs_run (record_common t r l) s) m l'
     = obs_run (take 3 (record_common t r l)) s m l'"
proof -
  have "obs_run (record_special t r l) (obs_run (record_common t r l) s) m l' = obs_run (record_common t r l) s m l'"
    using assms record_special_core by (intro obs_run_other_metric) blast
  also have "\<dots> = obs_run (drop 3 (record_common t r l)) (obs_run (take 3 (record_common t r l)) s) m l'"
    by (metis append_take_drop_id obs_run_simps(3))
  also have "\<dots> = obs_run (take 3 (record_common t r l)) s m l'"
    using assms by (intro obs_run_other_metric) (auto simp: record_common_def core_metrics_def)
  finally show ?thesis .
qed

lemma core_metrics_mem [simp]:
  "probeSuccess \<in> core_metrics" "probeDuration \<in> core_metrics" "probeTimedOut \<in> core_metrics"
  "probeTimeout \<in> core_metrics" "probeInterval \<in> core_metrics" "probeSkippedOverlapTotal \<in> core_metrics"
  by (simp_all add: core_metrics_def)

lemma abs_Record:
  "l = buildLabels ks t \<Longrightarrow> abs_target l (obs_run (Record_ops ks t r) s) = abs_call (Call_Record t r) (abs_target l s)"
  by (simp add: abs_target_def Record_ops_def Let_def record_core, simp add: record_common_def)

lemma ensure_core:
  assumes "m \<in> core_metrics"
  shows "obs_run (EnsureTarget_ops ks t) s m l' = obs_run (take 3 (EnsureTarget_ops ks t)) s m l'"
proof -
  have "obs_run (EnsureTarget_ops ks t) s m l'
      = obs_run (drop 3 (EnsureTarget_ops ks t)) (obs_run (take 3 (EnsureTarget_ops ks t)) s) m l'"
    by (metis append_take_drop_id obs_run_simps(3))
  also have "\<dots> = obs_run (take 3 (EnsureTarget_ops ks t)) s m l'"
    using assms by (intro obs_run_other_metric)
      (auto simp: EnsureTarget_ops_def Let_def core_metrics_def split: option.splits if_splits)
  finally show ?thesis .
qed

lemma abs_EnsureTarget:
  "l = buildLabels ks t \<Longrightarrow> abs_target l (obs_run (EnsureTarget_ops ks t) s) = abs_call (Call_EnsureTarget t) (abs_target l s)"
  by (simp add: abs_target_def ensure_core, simp add: EnsureTarget_ops_def Let_def)

lemma abs_DeleteTarget:
  assumes "l = buildLabels ks t"
  shows "abs_target l (obs_run (DeleteTarget_ops ks t) s) = abs_call (Call_DeleteTarget t) (abs_target l s)"
proof -
  have "obs_run (DeleteTarget_ops ks t) s m l = None" if "VDelete m l \<in> set (DeleteTarget_ops ks t)" for m
    unfolding obs_run_delete [OF DeleteTarget_ops_delete] using that by (auto intro!: bexI)
  then show ?thesis by (simp add: abs_target_def DeleteTarget_ops_def Let_def assms)
qed

lemma abs_own_call:
  "abs_target (buildLabels ks (call_target c)) (obs_run (call_ops ks c) s)
     = abs_call c (abs_target (buildLabels ks (call_target c)) s)"
  by (cases c) (auto simp: abs_Record abs_EnsureTarget abs_DeleteTarget simp del: abs_call.simps
      intro: abs_Record, simp add: abs_target_def)

text \<open>Of the core series a call touches those of the labels of its target only.\<close>

lemma core_touches:
  assumes "op \<in> set (call_ops ks c)" "m \<in> core_metrics" "touches op m l"
  shows "l = buildLabels ks (call_target c)"
proof (cases c)
  case (Call_Record t r)
  have "op_metric op = m" using assms(3) by (cases op) simp_all
  then have "op \<in> set (record_common t r (buildLabels ks t))"
    using assms(1,2) Call_Record record_special_core by (auto simp: Record_ops_def Let_def)
  with assms(2,3) Call_Record show ?thesis
    by (auto simp: record_common_def core_metrics_def set_or_delete_def split: if_splits)
next
  case (Call_DeleteTarget t)
  with assms show ?thesis
    by (auto simp: DeleteTarget_ops_def Let_def core_metrics_def deleteTargetProxyInfo_def split: option.splits if_splits)
next
  case (Call_EnsureTarget t)
  with assms show ?thesis
    by (auto simp: EnsureTarget_ops_def Let_def core_metrics_def split: option.splits if_splits)
qed (use assms in simp)

lemma abs_other_call:
  assumes "buildLabels ks (call_target c) \<noteq> l"
  shows "abs_target l (obs_run (call_ops ks c) s) = abs_target l s"
proof -
  have "obs_run (call_ops ks c) s m l = s m l" if "m \<in> core_metrics" for m
    using core_touches [OF _ that] assms by (intro obs_run_untouched) blast
  then show ?thesis by (simp add: abs_target_def)
qed

text \<open>
  C31: the exporter refines its abstract specification. Whatever sequence of \<^verbatim>\<open>Record\<close>, \<^verbatim>\<open>DeleteTarget\<close>,
  \<^verbatim>\<open>EnsureTarget\<close> and \<^verbatim>\<open>IncrSkippedOverlap\<close> calls the scheduler makes, for any targets, the core series of
  a label set end as the abstract operations say of the calls whose target has these labels, in their
  order and whatever else their configurations differ in, as after a reload that changes an interval:
  success, duration and timeout flag of the last result, the configured timeout and interval of the
  last \<^verbatim>\<open>EnsureTarget\<close>, a counter that is created at 0, survives results and a second \<^verbatim>\<open>EnsureTarget\<close>, and
  is gone after \<^verbatim>\<open>DeleteTarget\<close>. Calls whose target has other labels change none of them.
\<close>

theorem exporter_refines_target_view:
  assumes "vec_laws V"
  shows "abs_target l (obs V (do_calls V cs e))
     = abs_calls (filter (\<lambda>c. buildLabels (me_tagKeys e) (call_target c) = l) cs) (abs_target l (obs V e))"
proof (induction cs arbitrary: e)
  case (Cons c cs)
  have "abs_target l (obs V (do_call V c e))
      = (if buildLabels (me_tagKeys e) (call_target c) = l then abs_call c (abs_target l (obs V e))
         else abs_target l (obs V e))"
    by (auto simp: do_call_run obs_run_ops [OF assms] abs_own_call abs_other_call simp del: abs_call.simps)
  with Cons.IH [of "do_call V c e"] show ?case by (simp add: do_calls_def abs_calls_def)
qed (simp add: do_calls_def abs_calls_def)

text \<open>A reload that changes the interval of a target, with a call for another one in between.\<close>

theorem exporter_refines_target_view_witness:
  "abs_target (buildLabels [] (zero_target\<lparr>tc_Name := ''a''\<rparr>))
     (obs map_vec (do_calls map_vec
        [Call_EnsureTarget (zero_target\<lparr>tc_Name := ''a''\<rparr>), Call_IncrSkippedOverlap (zero_target\<lparr>tc_Name := ''a''\<rparr>),
         Call_DeleteTarget (zero_target\<lparr>tc_Name := ''a''\<rparr>), Call_IncrSkippedOverlap (zero_target\<lparr>tc_Name := ''b''\<rparr>),
         Call_EnsureTarget (zero_target\<lparr>tc_Name := ''a'', tc_Interval := Second\<rparr>)]
        (empty_exporter [])))
     = \<lparr>tv_success = None, tv_duration = None, tv_timedOut = None, tv_timeout = Some (dur_Seconds 0),
        tv_interval = Some (dur_Seconds Second), tv_skipped = Some 0\<rparr>"
proof -
  let ?a = "zero_target\<lparr>tc_Name := ''a''\<rparr>" and ?b = "zero_target\<lparr>tc_Name := ''b''\<rparr>"
  have ab: "buildLabels [] ?b \<noteq> buildLabels [] ?a"
    using buildLabels_name [of "[]" ?a] buildLabels_name [of "[]" ?b] by force
  have aa: "buildLabels [] (?a\<lparr>tc_Interval := Second\<rparr>) = buildLabels [] ?a" by (simp add: buildLabels_def)
  show ?thesis
    using ab aa
    by (simp add: exporter_refines_target_view [OF map_vec_laws] empty_exporter_def abs_calls_def zero_target_def)
qed

end
