(* ===== verification/Config_Facts.thy ===== *)
theory Config_Facts
  imports Config_Load
begin

text \<open>
  What a caller of \<^verbatim>\<open>LoadConfig\<close> may rely on: the properties of the configuration component. Each is
  stated for every outside world \<open>E\<close>; the only assumption is that the registry a YAML decoder
  returns is a map (\<open>mok\<close>: no key twice), which is what \<^verbatim>\<open>map[string]ProxyConfig\<close> is. The examples
  at the end of the theory load one configuration with a TCP, an HTTP, an MTU and a
  \<^verbatim>\<open>proxy_connect\<close> target.
\<close>

section \<open>An example\<close>

definition demo_url :: URL where
  "demo_url = \<lparr>u_Scheme = ''HTTP'', u_Opaque = [], u_User = None, u_Host = ''Proxy.Example:3128'',
     u_Path = [], u_RawPath = [], u_OmitHost = False, u_ForceQuery = False, u_RawQuery = [], u_Fragment = []\<rparr>"

definition demo_raw :: Config where
  "demo_raw =
     \<lparr>cf_Agent = zero_agent\<lparr>ac_DefaultInterval := 30 * Second,
        ac_DefaultTimeout := 5 * Second, ac_InitialProbeJitter := Second, ac_DNSResolver := ''8.8.8.8:53''\<rparr>,
      cf_Proxies = Some [(''corp'', zero_proxy\<lparr>pc_URL := ''HTTP://Proxy.Example:3128''\<rparr>)],
      cf_Targets = Some
        [zero_target\<lparr>tc_Name := ''db'', tc_Address := ''db:5432'', tc_ProbeType := ProbeTypeTCP,
           tc_Tags := Some [(''env'', ''x'')]\<rparr>,
         zero_target\<lparr>tc_Name := ''tun'', tc_Address := ''site:443'',
           tc_ProbeType := ProbeTypeProxyConnect, tc_ProxyName := ''corp'', tc_DNSResolver := Some []\<rparr>,
         zero_target\<lparr>tc_Name := ''path'', tc_Address := ''h'', tc_ProbeType := ProbeTypeMTU\<rparr>]\<rparr>"

definition demo_env :: cfg_env where
  "demo_env =
     \<lparr>env_LookupEnv = (\<lambda>_. ([], False)),
      env_ReadFile = (\<lambda>p. if p = ''c'' then ReadOk [] else ReadNotExist),
      env_LoadYAML = (\<lambda>_. Inr demo_raw), env_ParseURI = (\<lambda>_. Some demo_url),
      env_CompileRegexp = (\<lambda>_. None)\<rparr>"

definition demo_config :: Config where
  "demo_config = (case validate demo_env (applyDefaults demo_raw) of Inr c \<Rightarrow> c | Inl _ \<Rightarrow> demo_raw)"

lemmas demo_eval = demo_config_def demo_env_def demo_raw_def demo_url_def go_eval

lemma demo_loads: "validate demo_env (applyDefaults demo_raw) = Inr demo_config"
  by (simp add: demo_eval)

lemma demo_mok: "mok (cf_Proxies (applyDefaults demo_raw))" "mok (cf_Proxies demo_raw)"
  by (simp_all add: demo_raw_def go_eval)

section \<open>Properties of a validated configuration\<close>

lemma attached_ok: "proxy_attached ps t t' \<Longrightarrow> target_ok t \<Longrightarrow> target_ok t'"
  by (auto simp: proxy_attached_def)

lemma attached_list:
  assumes "list_all2 (proxy_attached ps) ts ts'"
  shows "map tc_Name ts' = map tc_Name ts" and "map tc_Interval ts' = map tc_Interval ts"
    and "map tc_Tags ts' = map tc_Tags ts" and "map tc_DNSResolver ts' = map tc_DNSResolver ts"
    and "list_all2 same_but_proxy ts ts'" and "\<forall>t \<in> set ts. target_ok t \<Longrightarrow> \<forall>t \<in> set ts'. target_ok t"
  using assms
  by (induction ts ts' rule: list_all2_induct)
    (auto dest: attached_ok proxy_attached_same same_but_proxyD [OF proxy_attached_same])

text \<open>
  C12: whatever the file says, a configuration that \<^verbatim>\<open>validate\<close> accepts has unique target names, and
  every target has a name, an address, a known probe type, a timeout that is positive and within
  the interval, at most the allowed number of tags and options that fit its probe type (method,
  body size, status codes, body matcher, host and port, IPv4 address, payload sizes). Validation
  changes nothing of a target but its resolved proxy and nothing of the agent's settings.
\<close>

theorem validate_wellformed:
  assumes "validate E cfg = Inr cfg'" and "mok (cf_Proxies cfg)"
  shows "distinct (map tc_Name (elems (cf_Targets cfg')))
    \<and> (\<forall>t \<in> set (elems (cf_Targets cfg')). target_ok t)
    \<and> list_all2 same_but_proxy (elems (cf_Targets cfg)) (elems (cf_Targets cfg'))
    \<and> cf_Agent cfg' = cf_Agent cfg"
  using attached_list [OF validate_result(2) [OF assms]] validate_result(1,5,6) [OF assms]
  by simp

theorem validate_wellformed_witness:
  "distinct (map tc_Name (elems (cf_Targets demo_config)))
    \<and> list_all target_ok (elems (cf_Targets demo_config))"
  using validate_wellformed [OF demo_loads demo_mok(1)] by (simp add: list_all_iff)

text \<open>
  C13: after validation every proxy of the registry has a valid name, the canonical endpoint of its
  URL and its resolved credentials, no two proxies share an endpoint, and a target carries exactly
  the entry of the registry that its \<^verbatim>\<open>proxy_name\<close> names; a target without a proxy name carries
  what it had and is not a \<^verbatim>\<open>proxy_connect\<close> target.
\<close>

theorem validate_proxies_resolved:
  assumes "validate E cfg = Inr cfg'" and "mok (cf_Proxies cfg)"
  shows "(\<forall>n p. mget (cf_Proxies cfg) n = Some p \<longrightarrow>
        (\<exists>p'. mget (cf_Proxies cfg') n = Some p' \<and> proxy_ok E n p p'))
    \<and> (\<forall>a b p q. mget (cf_Proxies cfg') a = Some p \<and> mget (cf_Proxies cfg') b = Some q
        \<and> pc_Endpoint p = pc_Endpoint q \<longrightarrow> a = b)
    \<and> list_all2 (\<lambda>t t'. if tc_ProxyName t = []
          then tc_ProbeType t \<noteq> ProbeTypeProxyConnect \<and> tc_ResolvedProxy t' = tc_ResolvedProxy t
          else tc_ResolvedProxy t' = map_option resolved_of (mget (cf_Proxies cfg') (tc_ProxyName t))
            \<and> tc_ResolvedProxy t' \<noteq> None)
        (elems (cf_Targets cfg)) (elems (cf_Targets cfg'))"
proof (intro conjI)
  note r = validate_result [OF assms]
  show "\<forall>n p. mget (cf_Proxies cfg) n = Some p \<longrightarrow>
        (\<exists>p'. mget (cf_Proxies cfg') n = Some p' \<and> proxy_ok E n p p')"
    using r(3) unfolding registry_of_def by (fastforce split: option.splits)
  show "\<forall>a b p q. mget (cf_Proxies cfg') a = Some p \<and> mget (cf_Proxies cfg') b = Some q
        \<and> pc_Endpoint p = pc_Endpoint q \<longrightarrow> a = b"
    using r(4) unfolding endpoints_unique_def .
  have e: "mget (cf_Proxies cfg') [] = None"
  proof (rule ccontr)
    assume "mget (cf_Proxies cfg') [] \<noteq> None"
    then obtain p p' where "proxy_ok E [] p p'"
      using spec [OF r(3) [unfolded registry_of_def], of "[]"] by (auto split: option.splits)
    then show False by (simp add: proxy_ok_def proxyNameRe_def)
  qed
  show "list_all2 (\<lambda>t t'. if tc_ProxyName t = []
          then tc_ProbeType t \<noteq> ProbeTypeProxyConnect \<and> tc_ResolvedProxy t' = tc_ResolvedProxy t
          else tc_ResolvedProxy t' = map_option resolved_of (mget (cf_Proxies cfg') (tc_ProxyName t))
            \<and> tc_ResolvedProxy t' \<noteq> None)
        (elems (cf_Targets cfg)) (elems (cf_Targets cfg'))"
    using r(2) by (rule list_all2_mono) (auto simp: proxy_attached_def e)
qed

theorem validate_proxies_resolved_witness:
  "\<exists>p'. mget (cf_Proxies demo_config) ''corp'' = Some p' \<and> pc_Endpoint p' = ''http://proxy.example:3128''"
proof -
  have "mget (cf_Proxies (applyDefaults demo_raw)) ''corp''
      = Some (zero_proxy\<lparr>pc_URL := ''HTTP://Proxy.Example:3128''\<rparr>)"
    by (simp add: demo_raw_def go_eval)
  with validate_proxies_resolved [OF demo_loads demo_mok(1)] obtain p' where
    "mget (cf_Proxies demo_config) ''corp'' = Some p'"
    "proxy_ok demo_env ''corp'' (zero_proxy\<lparr>pc_URL := ''HTTP://Proxy.Example:3128''\<rparr>) p'"
    by blast
  then show ?thesis by (auto simp: proxy_ok_def demo_env_def demo_url_def go_eval)
qed

text \<open>
  The initial jitter of an accepted configuration is not negative and not longer than the
  interval of any target, so the first probe of a target never comes later than one interval.
\<close>

lemma validate_jitter_within_intervals:
  assumes "validate E cfg = Inr cfg'" and "mok (cf_Proxies cfg)"
  shows "0 \<le> ac_InitialProbeJitter (cf_Agent cfg')
    \<and> (\<forall>t \<in> set (elems (cf_Targets cfg')). ac_InitialProbeJitter (cf_Agent cfg') \<le> tc_Interval t)"
proof -
  have "tc_Interval ` set (elems (cf_Targets cfg')) = tc_Interval ` set (elems (cf_Targets cfg))"
    using attached_list(2) [OF validate_result(2) [OF assms]] by (metis set_map)
  with validate_result(1,7,8) [OF assms] show ?thesis by (metis imageE imageI)
qed

lemma validateDNSResolver_None:
  "validateDNSResolver s = None \<longleftrightarrow> s = []
     \<or> (\<exists>host port ip n. SplitHostPort s = Some (host, port) \<and> ParseIP host = Some ip
          \<and> Atoi port = Some n \<and> 1 \<le> n \<and> n \<le> 65535)"
  by (auto simp: validateDNSResolver_def not_less split: option.splits)

lemma LoadConfigE:
  assumes "LoadConfig E path = Inr cfg"
  obtains data raw where "env_ReadFile E path = ReadOk data" "env_LoadYAML E data = Inr raw"
    "validate E (applyDefaults raw) = Inr cfg"
  using assms by (auto simp: LoadConfig_def split: read_result.splits sum.splits)

lemma cf_Proxies_applyDefaults [simp]: "cf_Proxies (applyDefaults cfg) = cf_Proxies cfg"
  by (simp add: applyDefaults_def Let_def)

text \<open>
  Every target of a loaded configuration has an effective DNS resolver, either the empty string
  (the system resolver) or an IP literal with a port from 1 to 65535, so resolving the resolver
  itself never needs DNS.
\<close>

lemma LoadConfig_resolver_is_ip:
  assumes "LoadConfig E path = Inr cfg"
    and "\<And>data c. env_LoadYAML E data = Inr c \<Longrightarrow> mok (cf_Proxies c)"
    and "t \<in> set (elems (cf_Targets cfg))"
  shows "\<exists>r. tc_DNSResolver t = Some r
    \<and> (r = [] \<or> (\<exists>host port ip n. SplitHostPort r = Some (host, port) \<and> ParseIP host = Some ip
         \<and> Atoi port = Some n \<and> 1 \<le> n \<and> n \<le> 65535))"
proof -
  from assms(1) obtain data raw where y: "env_LoadYAML E data = Inr raw"
    and v: "validate E (applyDefaults raw) = Inr cfg" by (rule LoadConfigE)
  from assms(2) [OF y] have m: "mok (cf_Proxies (applyDefaults raw))" by simp
  note r = validate_result [OF v m]
  from attached_list(4) [OF r(2)] assms(3) obtain u where
    u: "u \<in> set (elems (cf_Targets (applyDefaults raw)))" "tc_DNSResolver t = tc_DNSResolver u"
    by (metis imageE imageI list.set_map)
  from u(1) have "\<exists>x. tc_DNSResolver u = Some x"
    by (auto simp: cf_Targets_applyDefaults apply_target_defaults_resolver)
  with r(6) u show ?thesis by (auto simp: validateDNSResolver_None)
qed

text \<open>The label names a tag key may have.\<close>

definition tag_key_ok :: "string \<Rightarrow> bool" where
  "tag_key_ok k \<longleftrightarrow> prometheusLabelRe k \<and> k \<notin> set FixedLabels"

lemma collectDynamicTagKeys_set:
  "set (collectDynamicTagKeys cfg) = (\<Union>t \<in> set (elems (cf_Targets cfg)). set (mkeys (tc_Tags t)))"
  by (simp add: collectDynamicTagKeys_def)

text \<open>
  C15: the tag keys \<^verbatim>\<open>CollectTagKeys\<close> returns for an accepted configuration are sorted, without
  duplicates, at most 30 (the limit of the source), each a Prometheus label name that is not a fixed
  label, and every tag of every target is among them, in both modes: the allowlist, and the union
  of the keys in use.
\<close>

theorem CollectTagKeys_sound:
  assumes "validate E cfg = Inr cfg'" and "mok (cf_Proxies cfg)"
  shows "sorted (CollectTagKeys cfg') \<and> distinct (CollectTagKeys cfg')
    \<and> int (length (CollectTagKeys cfg')) \<le> MaxGlobalTagKeys
    \<and> (\<forall>k \<in> set (CollectTagKeys cfg'). prometheusLabelRe k \<and> k \<notin> set FixedLabels)
    \<and> (\<forall>t \<in> set (elems (cf_Targets cfg')). set (mkeys (tc_Tags t)) \<subseteq> set (CollectTagKeys cfg'))"
proof -
  from assms(1) obtain
    al: "validateAllowedTagKeys (elems (ac_AllowedTagKeys (cf_Agent cfg))) = None"
    and dyn: "elems (ac_AllowedTagKeys (cf_Agent cfg)) = [] \<longrightarrow>
      int (length (collectDynamicTagKeys cfg')) \<le> MaxGlobalTagKeys"
    by (rule validateE) blast
  note r = validate_result [OF assms]
  let ?al = "elems (ac_AllowedTagKeys (cf_Agent cfg))"
  have tags: "\<exists>u \<in> set (elems (cf_Targets cfg)). tc_Tags u = tc_Tags t"
    if "t \<in> set (elems (cf_Targets cfg'))" for t
    using attached_list(3) [OF r(2)] that by (metis imageE imageI list.set_map)
  have keys: "if ?al \<noteq> [] then k \<in> set ?al else tag_key_ok k"
    if "t \<in> set (elems (cf_Targets cfg'))" "k \<in> set (mkeys (tc_Tags t))" for t k
    using tags [OF that(1)] that(2) r(6)
    by (auto simp: validateTagKeys_None validateLabelName_None tag_key_ok_def)
  show ?thesis
  proof (cases "?al = []")
    case True
    then have c: "CollectTagKeys cfg' = collectDynamicTagKeys cfg'"
      by (simp add: CollectTagKeys_def r(1))
    show ?thesis using keys True dyn unfolding c
      by (auto simp: collectDynamicTagKeys_set tag_key_ok_def) (simp_all add: collectDynamicTagKeys_def)
  next
    case False
    then have c: "CollectTagKeys cfg' = sort ?al" by (simp add: CollectTagKeys_def r(1))
    show ?thesis using keys False al unfolding c
      by (auto simp: validateAllowedTagKeys_def validateAllowedTagKeys_loop_None validateLabelName_None)
  qed
qed

theorem CollectTagKeys_sound_witness:
  "set (mkeys (tc_Tags (elems (cf_Targets demo_config) ! 0))) \<subseteq> set (CollectTagKeys demo_config)"
proof -
  have "elems (cf_Targets demo_config) ! 0 \<in> set (elems (cf_Targets demo_config))"
    by (simp add: demo_eval)
  with CollectTagKeys_sound [OF demo_loads demo_mok(1)] show ?thesis by blast
qed

section \<open>Credentials\<close>

lemma readCredentialFile_nonempty: "readCredentialFile name f path E = Inr v \<Longrightarrow> v \<noteq> []"
  by (auto simp: readCredentialFile_def Let_def split: if_splits read_result.splits)

lemma resolveEnvSource_nonempty: "resolveEnvSource name f var E = Inr v \<Longrightarrow> v \<noteq> []"
  by (auto simp: resolveEnvSource_def Let_def split: if_splits prod.splits)

lemmas credential_nonempty = readCredentialFile_nonempty resolveEnvSource_nonempty

lemma source_count_zero:
  "nonEmptySourceCount vs = 0 \<longleftrightarrow> (\<forall>v \<in> set vs. v = [])"
  by (auto simp: nonEmptySourceCount_def filter_empty_conv)

text \<open>
  Proxy credentials are all or nothing. When \<^verbatim>\<open>resolveProxyCredentials\<close> succeeds, either no
  source of a user name or password is set and the credentials are empty, or exactly one source of
  each is set and both resolved values are non-empty; a user name without a password, a password
  without a user name, two sources, an empty variable or file are errors.
\<close>

lemma resolveProxyCredentials_all_or_nothing:
  assumes "resolveProxyCredentials name p E = Inr c"
  shows "(c = no_credentials \<and> nonEmptySourceCount [pc_Username p, pc_UsernameEnv p, pc_UsernameFile p] = 0
        \<and> nonEmptySourceCount [pc_PasswordEnv p, pc_PasswordFile p] = 0)
    \<or> (cr_username c \<noteq> [] \<and> cr_password c \<noteq> []
        \<and> nonEmptySourceCount [pc_Username p, pc_UsernameEnv p, pc_UsernameFile p] = 1
        \<and> nonEmptySourceCount [pc_PasswordEnv p, pc_PasswordFile p] = 1)"
proof (cases "nonEmptySourceCount [pc_Username p, pc_UsernameEnv p, pc_UsernameFile p] = 0
    \<or> nonEmptySourceCount [pc_PasswordEnv p, pc_PasswordFile p] = 0")
  case True
  with assms show ?thesis by (auto simp: resolveProxyCredentials_def Let_def split: if_splits)
next
  case False
  with assms obtain u w where u: "resolveUsername name p E = Inr u"
    and w: "resolvePassword name p E = Inr w" and c: "c = \<lparr>cr_username = u, cr_password = w\<rparr>"
    by (auto simp: resolveProxyCredentials_def Let_def split: sum.splits)
  have one: "\<not> (pc_Username p \<noteq> [] \<and> pc_UsernameEnv p \<noteq> [])"
    "\<not> (pc_Username p \<noteq> [] \<and> pc_UsernameFile p \<noteq> [])"
    "\<not> (pc_UsernameEnv p \<noteq> [] \<and> pc_UsernameFile p \<noteq> [])"
    "\<not> (pc_PasswordEnv p \<noteq> [] \<and> pc_PasswordFile p \<noteq> [])"
    using assms by (simp_all add: resolveProxyCredentials_def Let_def)
  with False have "nonEmptySourceCount [pc_Username p, pc_UsernameEnv p, pc_UsernameFile p] = 1"
    "nonEmptySourceCount [pc_PasswordEnv p, pc_PasswordFile p] = 1"
    by (auto simp: nonEmptySourceCount_def)
  moreover have "u \<noteq> []" using u False
    by (auto simp: resolveUsername_def source_count_zero dest: credential_nonempty split: if_splits)
  moreover have "w \<noteq> []" using w False
    by (auto simp: resolvePassword_def source_count_zero dest: credential_nonempty split: if_splits)
  ultimately show ?thesis using c by simp
qed

end
