(* ===== verification/Config_Hash.thy ===== *)
theory Config_Hash
  imports Config_Facts
begin

text \<open>
  \<^verbatim>\<open>internal/config/hash.go\<close>: the JSON documents of a target and of a configuration, their digests,
  the canonical form, and the equality of targets that decides at a reload which targets restart.

  A document is a value of \<open>json\<close>; \<open>marshal\<close> and \<open>unmarshal\<close> functions follow \<^verbatim>\<open>encoding/json\<close> for the
  struct tags of \<^verbatim>\<open>config.go\<close>: field names, \<^verbatim>\<open>omitempty\<close>, \<^verbatim>\<open>"-"\<close>, nil slices and maps as null, map
  keys in sorted order, an error for a float that is not finite. The digest of a document,
  \<^verbatim>\<open>hex.EncodeToString(sha256.Sum256(text))\<close>, is the parameter \<open>digest\<close>; nothing is assumed of it but
  where a statement says so.
\<close>

section \<open>Documents\<close>

datatype json = JNull | JBool bool | JNum int | JFloat real | JStr string | JArr "json list"
  | JObj "(string \<times> json) list"

definition jarr :: "('a \<Rightarrow> json) \<Rightarrow> 'a slice \<Rightarrow> json" where
  "jarr f s = (case s of None \<Rightarrow> JNull | Some xs \<Rightarrow> JArr (map f xs))"

definition jmap :: "('v \<Rightarrow> json) \<Rightarrow> 'v gomap \<Rightarrow> json" where
  "jmap f m = (case m of None \<Rightarrow> JNull | Some kvs \<Rightarrow> JObj (sort_key fst (map (\<lambda>(k, v). (k, f v)) kvs)))"

abbreviation jints :: "int slice \<Rightarrow> json" where "jints \<equiv> jarr JNum"
abbreviation jstrs :: "string slice \<Rightarrow> json" where "jstrs \<equiv> jarr JStr"
abbreviation jsmap :: "string gomap \<Rightarrow> json" where "jsmap \<equiv> jmap JStr"

text \<open>\<^verbatim>\<open>omitempty\<close> on a string.\<close>

definition jomit :: "string \<Rightarrow> string \<Rightarrow> (string \<times> json) list" where
  "jomit n s = (if s = [] then [] else [(n, JStr s)])"

fun jfloat :: "float64 \<Rightarrow> json option" where
  "jfloat (Fin x) = Some (JFloat x)"
| "jfloat NaN = None"
| "jfloat PosInf = None"
| "jfloat NegInf = None"

section \<open>Marshalling\<close>

definition marshal_opts :: "ProbeOptions \<Rightarrow> json option" where
  "marshal_opts opts =
     map_option (\<lambda>f. JObj
       [(''Method'', JStr (po_Method opts)),
        (''Headers'', jsmap (po_Headers opts)),
        (''ExpectedStatusCodes'', jints (po_ExpectedStatusCodes opts)),
        (''ExpectedProxyConnectStatusCodes'', jints (po_ExpectedProxyConnectStatusCodes opts)),
        (''FollowRedirects'', JBool (po_FollowRedirects opts)),
        (''TLSSkipVerify'', JBool (po_TLSSkipVerify opts)),
        (''TLSEmitCertMetrics'', JBool (po_TLSEmitCertMetrics opts)),
        (''ResponseBodyLimitBytes'', JNum (po_ResponseBodyLimitBytes opts)),
        (''RequestBodyBytes'', JNum (po_RequestBodyBytes opts)),
        (''BodyMatchRegex'', JStr (po_BodyMatchRegex opts)),
        (''BodyMatchString'', JStr (po_BodyMatchString opts)),
        (''PingCount'', JNum (po_PingCount opts)),
        (''PingIntervalSec'', f),
        (''ICMPPayloadSizes'', jints (po_ICMPPayloadSizes opts)),
        (''ExpectedMinMTU'', JNum (po_ExpectedMinMTU opts)),
        (''MTURetries'', JNum (po_MTURetries opts)),
        (''MTUPerAttemptTimeout'', JNum (po_MTUPerAttemptTimeout opts)),
        (''DNSQueryName'', JStr (po_DNSQueryName opts)),
        (''DNSQueryType'', JStr (po_DNSQueryType opts)),
        (''DNSServer'', JStr (po_DNSServer opts)),
        (''DNSExpectedResults'', jstrs (po_DNSExpectedResults opts))])
     (jfloat (po_PingIntervalSec opts))"

definition marshal_resolved :: "ResolvedProxyConfig \<Rightarrow> json" where
  "marshal_resolved r =
     JObj ([(''endpoint'', JStr (rp_Endpoint r)), (''tls_skip_verify'', JBool (rp_TLSSkipVerify r))]
       @ jomit ''username'' (rp_Username r) @ jomit ''username_env'' (rp_UsernameEnv r)
       @ jomit ''username_file'' (rp_UsernameFile r) @ jomit ''password_env'' (rp_PasswordEnv r)
       @ jomit ''password_file'' (rp_PasswordFile r))"

definition marshal_target :: "TargetConfig \<Rightarrow> json option" where
  "marshal_target t =
     map_option (\<lambda>opts. JObj
       ([(''Name'', JStr (tc_Name t)), (''Address'', JStr (tc_Address t)),
         (''ProbeType'', JStr (tc_ProbeType t)), (''Interval'', JNum (tc_Interval t)),
         (''Timeout'', JNum (tc_Timeout t)), (''Tags'', jsmap (tc_Tags t)), (''ProbeOpts'', opts),
         (''ProxyName'', JStr (tc_ProxyName t))]
        @ (case tc_ResolvedProxy t of None \<Rightarrow> [] | Some r \<Rightarrow> [(''resolved_proxy'', marshal_resolved r)])
        @ [(''DNSResolver'', case tc_DNSResolver t of None \<Rightarrow> JNull | Some s \<Rightarrow> JStr s)]))
     (marshal_opts (tc_ProbeOpts t))"

definition marshal_agent :: "AgentConfig \<Rightarrow> json" where
  "marshal_agent a = JObj
       [(''ListenAddr'', JStr (ac_ListenAddr a)),
        (''MetricsPath'', JStr (ac_MetricsPath a)),
        (''DefaultInterval'', JNum (ac_DefaultInterval a)),
        (''DefaultTimeout'', JNum (ac_DefaultTimeout a)),
        (''InitialProbeJitter'', JNum (ac_InitialProbeJitter a)),
        (''DefaultICMPPayloadSizes'', jints (ac_DefaultICMPPayloadSizes a)),
        (''LogLevel'', JStr (ac_LogLevel a)),
        (''LogFormat'', JStr (ac_LogFormat a)),
        (''EnableRuntimeMetrics'', JBool (ac_EnableRuntimeMetrics a)),
        (''AllowedTagKeys'', jstrs (ac_AllowedTagKeys a)),
        (''DNSResolver'', JStr (ac_DNSResolver a))]"

definition marshal_proxy :: "ProxyConfig \<Rightarrow> json" where
  "marshal_proxy p =
     JObj ([(''endpoint'', JStr (pc_Endpoint p)), (''tls_skip_verify'', JBool (pc_TLSSkipVerify p))]
       @ jomit ''username'' (pc_Username p) @ jomit ''username_env'' (pc_UsernameEnv p)
       @ jomit ''username_file'' (pc_UsernameFile p) @ jomit ''password_env'' (pc_PasswordEnv p)
       @ jomit ''password_file'' (pc_PasswordFile p))"

definition marshal_config :: "Config \<Rightarrow> json option" where
  "marshal_config c =
     map_option (\<lambda>ts. JObj
       [(''Agent'', marshal_agent (cf_Agent c)), (''Proxies'', jmap marshal_proxy (cf_Proxies c)),
        (''Targets'', jarr id ts)])
     (case cf_Targets c of
        None \<Rightarrow> Some None
      | Some ts \<Rightarrow> map_option Some (those (map marshal_target ts)))"

section \<open>Unmarshalling\<close>

text \<open>A missing field and a null leave the zero value.\<close>

fun fld :: "json \<Rightarrow> string \<Rightarrow> json" where
  "fld (JObj kvs) n = (case map_of kvs n of None \<Rightarrow> JNull | Some v \<Rightarrow> v)"
| "fld _ n = JNull"

fun un_str :: "json \<Rightarrow> string" where "un_str (JStr s) = s" | "un_str _ = []"
fun un_bool :: "json \<Rightarrow> bool" where "un_bool (JBool b) = b" | "un_bool _ = False"
fun un_num :: "json \<Rightarrow> int" where "un_num (JNum n) = n" | "un_num _ = 0"
fun un_float :: "json \<Rightarrow> float64" where "un_float (JFloat x) = Fin x" | "un_float _ = Fin 0"

fun un_arr :: "(json \<Rightarrow> 'a) \<Rightarrow> json \<Rightarrow> 'a slice" where
  "un_arr f (JArr js) = Some (map f js)"
| "un_arr f _ = None"

fun un_map :: "(json \<Rightarrow> 'v) \<Rightarrow> json \<Rightarrow> 'v gomap" where
  "un_map f (JObj kvs) = Some (map (\<lambda>(k, v). (k, f v)) kvs)"
| "un_map f _ = None"

abbreviation un_ints :: "json \<Rightarrow> int slice" where "un_ints \<equiv> un_arr un_num"
abbreviation un_strs :: "json \<Rightarrow> string slice" where "un_strs \<equiv> un_arr un_str"
abbreviation un_smap :: "json \<Rightarrow> string gomap" where "un_smap \<equiv> un_map un_str"

definition unmarshal_opts :: "json \<Rightarrow> ProbeOptions" where
  "unmarshal_opts j =
     \<lparr>po_Method = un_str (fld j ''Method''),
      po_Headers = un_smap (fld j ''Headers''),
      po_ExpectedStatusCodes = un_ints (fld j ''ExpectedStatusCodes''),
      po_ExpectedProxyConnectStatusCodes = un_ints (fld j ''ExpectedProxyConnectStatusCodes''),
      po_FollowRedirects = un_bool (fld j ''FollowRedirects''),
      po_TLSSkipVerify = un_bool (fld j ''TLSSkipVerify''),
      po_TLSEmitCertMetrics = un_bool (fld j ''TLSEmitCertMetrics''),
      po_ResponseBodyLimitBytes = un_num (fld j ''ResponseBodyLimitBytes''),
      po_RequestBodyBytes = un_num (fld j ''RequestBodyBytes''),
      po_BodyMatchRegex = un_str (fld j ''BodyMatchRegex''),
      po_BodyMatchString = un_str (fld j ''BodyMatchString''),
      po_PingCount = un_num (fld j ''PingCount''),
      po_PingIntervalSec = un_float (fld j ''PingIntervalSec''),
      po_ICMPPayloadSizes = un_ints (fld j ''ICMPPayloadSizes''),
      po_ExpectedMinMTU = un_num (fld j ''ExpectedMinMTU''),
      po_MTURetries = un_num (fld j ''MTURetries''),
      po_MTUPerAttemptTimeout = un_num (fld j ''MTUPerAttemptTimeout''),
      po_DNSQueryName = un_str (fld j ''DNSQueryName''),
      po_DNSQueryType = un_str (fld j ''DNSQueryType''),
      po_DNSServer = un_str (fld j ''DNSServer''),
      po_DNSExpectedResults = un_strs (fld j ''DNSExpectedResults'')\<rparr>"

definition unmarshal_resolved :: "json \<Rightarrow> ResolvedProxyConfig" where
  "unmarshal_resolved j =
     \<lparr>rp_Endpoint = un_str (fld j ''endpoint''), rp_TLSSkipVerify = un_bool (fld j ''tls_skip_verify''),
      rp_Username = un_str (fld j ''username''), rp_UsernameEnv = un_str (fld j ''username_env''),
      rp_UsernameFile = un_str (fld j ''username_file''), rp_PasswordEnv = un_str (fld j ''password_env''),
      rp_PasswordFile = un_str (fld j ''password_file''), rp_Credentials = no_credentials\<rparr>"

definition unmarshal_target :: "json \<Rightarrow> TargetConfig" where
  "unmarshal_target j =
     \<lparr>tc_Name = un_str (fld j ''Name''), tc_Address = un_str (fld j ''Address''),
      tc_ProbeType = un_str (fld j ''ProbeType''), tc_Interval = un_num (fld j ''Interval''),
      tc_Timeout = un_num (fld j ''Timeout''), tc_Tags = un_smap (fld j ''Tags''),
      tc_ProbeOpts = unmarshal_opts (fld j ''ProbeOpts''), tc_ProxyName = un_str (fld j ''ProxyName''),
      tc_ResolvedProxy = (if fld j ''resolved_proxy'' = JNull then None
        else Some (unmarshal_resolved (fld j ''resolved_proxy''))),
      tc_DNSResolver = (if fld j ''DNSResolver'' = JNull then None else Some (un_str (fld j ''DNSResolver'')))\<rparr>"

definition unmarshal_agent :: "json \<Rightarrow> AgentConfig" where
  "unmarshal_agent j =
     \<lparr>ac_ListenAddr = un_str (fld j ''ListenAddr''),
      ac_MetricsPath = un_str (fld j ''MetricsPath''),
      ac_DefaultInterval = un_num (fld j ''DefaultInterval''),
      ac_DefaultTimeout = un_num (fld j ''DefaultTimeout''),
      ac_InitialProbeJitter = un_num (fld j ''InitialProbeJitter''),
      ac_DefaultICMPPayloadSizes = un_ints (fld j ''DefaultICMPPayloadSizes''),
      ac_LogLevel = un_str (fld j ''LogLevel''),
      ac_LogFormat = un_str (fld j ''LogFormat''),
      ac_EnableRuntimeMetrics = un_bool (fld j ''EnableRuntimeMetrics''),
      ac_AllowedTagKeys = un_strs (fld j ''AllowedTagKeys''),
      ac_DNSResolver = un_str (fld j ''DNSResolver'')\<rparr>"

definition unmarshal_proxy :: "json \<Rightarrow> ProxyConfig" where
  "unmarshal_proxy j =
     \<lparr>pc_URL = [], pc_Endpoint = un_str (fld j ''endpoint''),
      pc_TLSSkipVerify = un_bool (fld j ''tls_skip_verify''),
      pc_Username = un_str (fld j ''username''), pc_UsernameEnv = un_str (fld j ''username_env''),
      pc_UsernameFile = un_str (fld j ''username_file''), pc_PasswordEnv = un_str (fld j ''password_env''),
      pc_PasswordFile = un_str (fld j ''password_file''), pc_Credentials = no_credentials\<rparr>"

definition unmarshal_config :: "json \<Rightarrow> Config" where
  "unmarshal_config j =
     \<lparr>cf_Agent = unmarshal_agent (fld j ''Agent''),
      cf_Proxies = un_map unmarshal_proxy (fld j ''Proxies''),
      cf_Targets = un_arr unmarshal_target (fld j ''Targets'')\<rparr>"

section \<open>Hashes\<close>

text \<open>
  \<^verbatim>\<open>sort.Slice\<close> is not stable, but its result is unique when the names are distinct, as they are in
  a validated configuration. A document made by \<open>marshal_config\<close> always unmarshals, so the second
  fallback of the source has no branch here.
\<close>

type_synonym digest = "json \<Rightarrow> string"

definition ConfigHashLength :: nat where "ConfigHashLength = 12"

definition canonicalize :: "Config \<Rightarrow> Config" where
  "canonicalize cfg =
     (case marshal_config cfg of
        None \<Rightarrow> \<lparr>cf_Agent = cf_Agent cfg, cf_Proxies = None, cf_Targets = None\<rparr>
      | Some b \<Rightarrow> (let out = unmarshal_config b
                 in out\<lparr>cf_Targets := map_option (sort_key tc_Name) (cf_Targets out)\<rparr>))"

definition ComputeHash :: "digest \<Rightarrow> Config \<Rightarrow> string res" where
  "ComputeHash digest cfg =
     (case marshal_config (canonicalize cfg) of
        None \<Rightarrow> Inl (Errorf ''marshaling canonical config: %w'' [FErr (SysErr ''json: unsupported value'')])
      | Some data \<Rightarrow> Inr (take ConfigHashLength (digest data)))"

definition HashTarget :: "digest \<Rightarrow> TargetConfig \<Rightarrow> string res" where
  "HashTarget digest t =
     (case marshal_target t of
        None \<Rightarrow> Inl (Errorf ''marshaling target config: %w'' [FErr (SysErr ''json: unsupported value'')])
      | Some data \<Rightarrow> Inr (take ConfigHashLength (digest data)))"

definition Equal :: "digest \<Rightarrow> TargetConfig \<Rightarrow> TargetConfig \<Rightarrow> bool" where
  "Equal digest t u =
     (case (HashTarget digest t, HashTarget digest u) of
        (Inr h1, Inr h2) \<Rightarrow> h1 = h2
      | _ \<Rightarrow> False)"

section \<open>What a document keeps\<close>

text \<open>
  The part of a value that survives the round trip through its document: maps with sorted keys,
  proxies without their raw URL, no credentials.
\<close>

definition sorted_map :: "'v gomap \<Rightarrow> 'v gomap" where
  "sorted_map m = map_option (sort_key fst) m"

definition public_opts :: "ProbeOptions \<Rightarrow> ProbeOptions" where
  "public_opts opts = opts\<lparr>po_Headers := sorted_map (po_Headers opts)\<rparr>"

definition public_resolved :: "ResolvedProxyConfig \<Rightarrow> ResolvedProxyConfig" where
  "public_resolved r = r\<lparr>rp_Credentials := no_credentials\<rparr>"

definition public_proxy :: "ProxyConfig \<Rightarrow> ProxyConfig" where
  "public_proxy p = p\<lparr>pc_URL := [], pc_Credentials := no_credentials\<rparr>"

definition public_target :: "TargetConfig \<Rightarrow> TargetConfig" where
  "public_target t =
     t\<lparr>tc_Tags := sorted_map (tc_Tags t), tc_ProbeOpts := public_opts (tc_ProbeOpts t),
       tc_ResolvedProxy := map_option public_resolved (tc_ResolvedProxy t)\<rparr>"

definition public_config :: "Config \<Rightarrow> Config" where
  "public_config c =
     c\<lparr>cf_Proxies := map_option (map (map_prod id public_proxy)) (sorted_map (cf_Proxies c)),
       cf_Targets := map_option (map public_target) (cf_Targets c)\<rparr>"

lemma sort_key_map_snd:
  "sort_key fst (map (\<lambda>(k, v). (k, f v)) kvs) = map (\<lambda>(k, v). (k, f v)) (sort_key fst kvs)"
proof -
  have i: "insort_key fst (k, f v) (map (\<lambda>(k, v). (k, f v)) xs)
      = map (\<lambda>(k, v). (k, f v)) (insort_key fst (k, v) xs)" for k v xs
    by (induction xs) auto
  show ?thesis by (induction kvs) (auto simp: i)
qed

lemma un_jarr [simp]: "(\<And>x. g (f x) = h x) \<Longrightarrow> un_arr g (jarr f s) = map_option (map h) s"
  by (cases s) (simp_all add: jarr_def)

lemma un_jmap [simp]:
  "(\<And>x. g (f x) = h x) \<Longrightarrow> un_map g (jmap f m) = map_option (map (map_prod id h)) (sorted_map m)"
  by (cases m) (auto simp: jmap_def sorted_map_def sort_key_map_snd)

lemma map_option_map_id [simp]: "map_option (map (\<lambda>x. x)) s = s"
  by (cases s) simp_all

lemma map_option_map_prod_id [simp]: "map_option (map (map_prod id (\<lambda>x. x))) s = s"
  by (cases s) (simp_all add: map_prod_def)

lemma un_jints [simp]: "un_arr un_num (jarr JNum s) = s" and un_jstrs [simp]: "un_arr un_str (jarr JStr v) = v"
  and un_jsmap [simp]: "un_map un_str (jmap JStr m) = sorted_map m"
  by (simp_all add: option.map_ident)

lemma map_of_jomit [simp]: "map_of (jomit n s) k = (if k = n \<and> s \<noteq> [] then Some (JStr s) else None)"
  by (simp add: jomit_def)

lemma unmarshal_resolved [simp]: "unmarshal_resolved (marshal_resolved r) = public_resolved r"
  by (cases r) (simp add: unmarshal_resolved_def marshal_resolved_def public_resolved_def map_add_def)

lemma unmarshal_proxy [simp]: "unmarshal_proxy (marshal_proxy p) = public_proxy p"
  by (cases p) (simp add: unmarshal_proxy_def marshal_proxy_def public_proxy_def map_add_def)

lemma unmarshal_agent [simp]: "unmarshal_agent (marshal_agent a) = a"
  by (cases a) (simp add: unmarshal_agent_def marshal_agent_def)

lemma unmarshal_opts: "marshal_opts opts = Some j \<Longrightarrow> unmarshal_opts j = public_opts opts"
  by (cases opts; cases "po_PingIntervalSec opts")
    (auto simp: marshal_opts_def unmarshal_opts_def public_opts_def)

lemma marshal_resolved_nonnull [simp]: "marshal_resolved r \<noteq> JNull" "JNull \<noteq> marshal_resolved r"
  by (simp_all add: marshal_resolved_def)

lemma unmarshal_target: "marshal_target t = Some j \<Longrightarrow> unmarshal_target j = public_target t"
  by (cases t) (auto simp: marshal_target_def unmarshal_target_def public_target_def unmarshal_opts
      split: option.splits)

lemma those_Some_iff: "those xs = Some ys \<longleftrightarrow> xs = map Some ys"
  by (induction xs arbitrary: ys) (auto split: option.splits)

lemma unmarshal_targets:
  "those (map marshal_target ts) = Some js \<Longrightarrow> map unmarshal_target js = map public_target ts"
  unfolding those_Some_iff
  by (induction ts arbitrary: js) (auto simp: Cons_eq_map_conv unmarshal_target)

lemma un_arr_id [simp]: "un_arr f (jarr id s) = map_option (map f) s"
  by (cases s) (simp_all add: jarr_def)

lemma unmarshal_config: "marshal_config c = Some j \<Longrightarrow> unmarshal_config j = public_config c"
  by (cases c; cases "cf_Targets c")
    (auto simp: marshal_config_def unmarshal_config_def public_config_def unmarshal_targets)

text \<open>Marshalling sees nothing else.\<close>

lemma sort_key_fst_idem [simp]: "sort_key fst (sort_key fst xs) = sort_key fst xs"
  by (rule sort_key_id_if_sorted) simp

lemma sorted_map_idem [simp]: "sorted_map (sorted_map m) = sorted_map m"
  by (cases m) (simp_all add: sorted_map_def)

lemma jmap_sorted [simp]: "jmap f (sorted_map m) = jmap f m"
  by (cases m) (simp_all add: jmap_def sorted_map_def sort_key_map_snd)

lemma marshal_public_target [simp]: "marshal_target (public_target t) = marshal_target t"
proof -
  have "marshal_opts (public_opts opts) = marshal_opts opts" for opts
    by (simp add: marshal_opts_def public_opts_def)
  moreover have "marshal_resolved (public_resolved r) = marshal_resolved r" for r
    by (simp add: marshal_resolved_def public_resolved_def)
  ultimately show ?thesis
    by (simp add: marshal_target_def public_target_def split: option.splits)
qed

lemma marshal_target_eq_iff:
  assumes "marshal_target t \<noteq> None"
  shows "marshal_target t = marshal_target u \<longleftrightarrow> public_target t = public_target u"
  using assms unmarshal_target marshal_public_target by (metis option.exhaust)

lemma jmap_public_proxy:
  "jmap marshal_proxy (map_option (map (map_prod id public_proxy)) (sorted_map ps)) = jmap marshal_proxy ps"
proof (cases ps)
  case (Some kvs)
  have "map (\<lambda>(k, v). (k, marshal_proxy v)) (map (map_prod id public_proxy) xs)
      = map (\<lambda>(k, v). (k, marshal_proxy v)) xs" for xs
    by (induction xs) (auto simp: marshal_proxy_def public_proxy_def)
  note e = this
  have "sort_key fst (map (\<lambda>(k, v). (k, marshal_proxy v)) (map (map_prod id public_proxy) (sort_key fst kvs)))
      = sort_key fst (map (\<lambda>(k, v). (k, marshal_proxy v)) kvs)"
    unfolding e sort_key_map_snd by simp
  with Some show ?thesis by (simp add: jmap_def sorted_map_def)
qed (simp add: sorted_map_def)

lemma marshal_public_config [simp]: "marshal_config (public_config c) = marshal_config c"
  by (cases "cf_Targets c")
    (simp_all add: marshal_config_def public_config_def jmap_public_proxy comp_def)

text \<open>Two maps have the same sorted form exactly if they are the same map.\<close>

lemma sort_key_fst_eq:
  assumes "distinct (map fst xs)" "distinct (map fst ys)"
  shows "sort_key fst xs = sort_key fst ys \<longleftrightarrow> map_of xs = map_of ys"
proof
  assume "sort_key fst xs = sort_key fst ys"
  then have "set xs = set ys" by (metis set_sort)
  then show "map_of xs = map_of ys" using assms by (simp add: map_of_inject_set)
next
  assume "map_of xs = map_of ys"
  then have s: "set xs = set ys" using assms by (simp add: map_of_inject_set)
  moreover have "distinct xs" "distinct ys" using assms by (simp_all add: distinct_map)
  ultimately have "mset xs = mset (sort_key fst ys)" by (simp add: set_eq_iff_mset_eq_distinct)
  moreover have "inj_on fst (set xs)" using assms(1) by (simp add: distinct_map)
  ultimately show "sort_key fst xs = sort_key fst ys" by (intro sort_key_inj_key_eq) simp_all
qed

lemma sorted_map_eq:
  assumes "mok m" "mok m'"
  shows "sorted_map m = sorted_map m' \<longleftrightarrow> mget m = mget m' \<and> (m = None \<longleftrightarrow> m' = None)"
  using assms sort_key_fst_eq
  by (cases m; cases m') (auto simp: sorted_map_def mok_def mkeys_def mget_def fun_eq_iff)

section \<open>Properties\<close>

text \<open>
  Two targets agree in every field that is hashed: all but the credentials of the resolved proxy,
  with tags and headers compared as maps.
\<close>

definition same_map :: "'v gomap \<Rightarrow> 'v gomap \<Rightarrow> bool" where
  "same_map m m' \<longleftrightarrow> mget m = mget m' \<and> (m = None \<longleftrightarrow> m' = None)"

definition hashed_equal :: "TargetConfig \<Rightarrow> TargetConfig \<Rightarrow> bool" where
  "hashed_equal t u \<longleftrightarrow>
     tc_Name t = tc_Name u \<and> tc_Address t = tc_Address u \<and> tc_ProbeType t = tc_ProbeType u
     \<and> tc_Interval t = tc_Interval u \<and> tc_Timeout t = tc_Timeout u \<and> same_map (tc_Tags t) (tc_Tags u)
     \<and> same_map (po_Headers (tc_ProbeOpts t)) (po_Headers (tc_ProbeOpts u))
     \<and> (tc_ProbeOpts t)\<lparr>po_Headers := None\<rparr> = (tc_ProbeOpts u)\<lparr>po_Headers := None\<rparr>
     \<and> tc_ProxyName t = tc_ProxyName u \<and> tc_DNSResolver t = tc_DNSResolver u
     \<and> map_option public_resolved (tc_ResolvedProxy t) = map_option public_resolved (tc_ResolvedProxy u)"

definition maps_ok :: "TargetConfig \<Rightarrow> bool" where
  "maps_ok t \<longleftrightarrow> mok (tc_Tags t) \<and> mok (po_Headers (tc_ProbeOpts t))"

lemma public_target_eq_iff:
  assumes "maps_ok t" "maps_ok u"
  shows "public_target t = public_target u \<longleftrightarrow> hashed_equal t u"
proof -
  have o: "public_opts a = public_opts b \<longleftrightarrow> sorted_map (po_Headers a) = sorted_map (po_Headers b)
      \<and> a\<lparr>po_Headers := None\<rparr> = b\<lparr>po_Headers := None\<rparr>" for a b
    by (cases a; cases b) (auto simp: public_opts_def)
  have "public_target t = public_target u \<longleftrightarrow>
      tc_Name t = tc_Name u \<and> tc_Address t = tc_Address u \<and> tc_ProbeType t = tc_ProbeType u
     \<and> tc_Interval t = tc_Interval u \<and> tc_Timeout t = tc_Timeout u
     \<and> sorted_map (tc_Tags t) = sorted_map (tc_Tags u)
     \<and> public_opts (tc_ProbeOpts t) = public_opts (tc_ProbeOpts u)
     \<and> tc_ProxyName t = tc_ProxyName u \<and> tc_DNSResolver t = tc_DNSResolver u
     \<and> map_option public_resolved (tc_ResolvedProxy t) = map_option public_resolved (tc_ResolvedProxy u)"
    by (cases t; cases u) (auto simp: public_target_def)
  with assms show ?thesis
    by (simp add: hashed_equal_def same_map_def maps_ok_def sorted_map_eq o)
qed

lemma Equal_marshal:
  "Equal digest t u \<longleftrightarrow>
     (\<exists>a b. marshal_target t = Some a \<and> marshal_target u = Some b
        \<and> take ConfigHashLength (digest a) = take ConfigHashLength (digest b))"
  by (auto simp: Equal_def HashTarget_def split: option.splits)

text \<open>
  C14: \<^verbatim>\<open>Equal\<close>, which decides at a reload whether a target restarts, is equality of every field of
  the target except the proxy credentials, tags and headers compared as maps whatever the order of
  their entries. It never misses equal targets (if they can be marshalled at all), and it takes
  different targets for equal only if the first twelve hex digits of two different documents
  collide.
\<close>

theorem Equal_iff_hashed_fields:
  assumes "maps_ok t" "maps_ok u" and "marshal_target t = Some a" "marshal_target u = Some b"
    and no_collision: "take ConfigHashLength (digest a) = take ConfigHashLength (digest b) \<longrightarrow> a = b"
  shows "Equal digest t u \<longleftrightarrow> hashed_equal t u"
proof -
  have "Equal digest t u \<longleftrightarrow> a = b"
    using assms(3,4) no_collision by (auto simp: Equal_marshal)
  also have "\<dots> \<longleftrightarrow> public_target t = public_target u"
    using marshal_target_eq_iff [of t u] assms(3,4) by simp
  finally show ?thesis using public_target_eq_iff [OF assms(1,2)] by simp
qed

text \<open>A target before and after the rotation of the password of its proxy.\<close>

definition proxied_target :: "string \<Rightarrow> TargetConfig" where
  "proxied_target pw = zero_target\<lparr>tc_Name := ''tun'', tc_Tags := Some [(''b'', ''1''), (''a'', ''2'')],
     tc_ResolvedProxy := Some (resolved_of (zero_proxy\<lparr>pc_Credentials := \<lparr>cr_username = ''u'', cr_password = pw\<rparr>\<rparr>))\<rparr>"

theorem Equal_iff_hashed_fields_witness:
  "\<exists>a. Equal (\<lambda>j. if j = a then ''0'' else ''1'') (proxied_target ''old'') (proxied_target ''new'')"
proof -
  have h: "hashed_equal (proxied_target x) (proxied_target y)" for x y
    by (simp add: hashed_equal_def proxied_target_def same_map_def public_resolved_def resolved_of_def)
  obtain a where a: "marshal_target (proxied_target ''old'') = Some a"
    by (simp add: proxied_target_def marshal_target_def zero_target_def marshal_opts_def zero_opts_def)
  have m: "maps_ok (proxied_target x)" for x
    by (simp add: maps_ok_def proxied_target_def mok_def mkeys_def zero_target_def zero_opts_def)
  obtain b where b: "marshal_target (proxied_target ''new'') = Some b"
    by (simp add: proxied_target_def marshal_target_def zero_target_def marshal_opts_def zero_opts_def)
  have "take ConfigHashLength ((\<lambda>j. if j = a then ''0'' else ''1'') a)
      = take ConfigHashLength ((\<lambda>j. if j = a then ''0'' else ''1'') b) \<longrightarrow> a = b"
    by (simp add: ConfigHashLength_def)
  from Equal_iff_hashed_fields [OF m m a b this] h show ?thesis by blast
qed

lemma canonicalize_public:
  assumes "marshal_config c \<noteq> None"
  shows "canonicalize c = (public_config c)\<lparr>cf_Targets :=
     map_option (sort_key tc_Name) (cf_Targets (public_config c))\<rparr>"
  using assms by (auto simp: canonicalize_def Let_def unmarshal_config)

lemma marshal_config_None: "marshal_config c = None \<longleftrightarrow> (\<exists>t \<in> set (elems (cf_Targets c)). marshal_target t = None)"
proof -
  have "those (map marshal_target ts) = None \<longleftrightarrow> (\<exists>t \<in> set ts. marshal_target t = None)" for ts
    by (induction ts) (auto split: option.splits)
  then show ?thesis by (cases "cf_Targets c") (simp_all add: marshal_config_def)
qed

lemma ComputeHash_cong:
  assumes "public_config c = public_config d"
  shows "ComputeHash digest c = ComputeHash digest d"
proof -
  have "marshal_config c = marshal_config d"
    using assms marshal_public_config by metis
  moreover have "cf_Agent c = cf_Agent d"
    using arg_cong [OF assms, of cf_Agent] by (simp add: public_config_def)
  ultimately have "canonicalize c = canonicalize d"
    by (simp add: canonicalize_def split: option.split)
  then show ?thesis by (simp add: ComputeHash_def)
qed

text \<open>
  The configuration hash does not depend on the order of the targets in the file.
\<close>

lemma ComputeHash_target_order:
  assumes "mset ts = mset ts'" and "distinct (map tc_Name ts)"
  shows "ComputeHash digest (c\<lparr>cf_Targets := Some ts\<rparr>) = ComputeHash digest (c\<lparr>cf_Targets := Some ts'\<rparr>)"
proof (cases "\<exists>t \<in> set ts. marshal_target t = None")
  case True
  moreover have "set ts = set ts'" using assms(1) by (metis set_mset_mset)
  ultimately have "marshal_config (c\<lparr>cf_Targets := Some ts\<rparr>) = None"
    "marshal_config (c\<lparr>cf_Targets := Some ts'\<rparr>) = None" by (simp_all add: marshal_config_None)
  then show ?thesis by (simp add: ComputeHash_def canonicalize_def)
next
  case False
  have p: "tc_Name (public_target t) = tc_Name t" for t by (simp add: public_target_def)
  have "mset (map public_target ts) = mset (sort_key tc_Name (map public_target ts'))"
    using assms(1) by simp
  moreover have "inj_on tc_Name (set (map public_target ts))"
    using assms(2) by (auto simp: distinct_map inj_on_def p)
  ultimately have s: "sort_key tc_Name (map public_target ts) = sort_key tc_Name (map public_target ts')"
    by (intro sort_key_inj_key_eq) simp_all
  have "set ts = set ts'" using assms(1) by (metis set_mset_mset)
  with False have "marshal_config (c\<lparr>cf_Targets := Some ts\<rparr>) \<noteq> None"
    "marshal_config (c\<lparr>cf_Targets := Some ts'\<rparr>) \<noteq> None" by (simp_all add: marshal_config_None)
  from this [THEN canonicalize_public] s
  have "canonicalize (c\<lparr>cf_Targets := Some ts\<rparr>) = canonicalize (c\<lparr>cf_Targets := Some ts'\<rparr>)"
    by (simp add: public_config_def)
  then show ?thesis by (simp add: ComputeHash_def)
qed

text \<open>New credentials for every proxy, in the registry and in the targets.\<close>

definition rotate_proxy :: "(string \<Rightarrow> ResolvedProxyCredentials) \<Rightarrow> ProxyConfig \<Rightarrow> ProxyConfig" where
  "rotate_proxy g p = p\<lparr>pc_Credentials := g (pc_Endpoint p)\<rparr>"

definition rotate_target :: "(string \<Rightarrow> ResolvedProxyCredentials) \<Rightarrow> TargetConfig \<Rightarrow> TargetConfig" where
  "rotate_target g t =
     t\<lparr>tc_ResolvedProxy := map_option (\<lambda>r. r\<lparr>rp_Credentials := g (rp_Endpoint r)\<rparr>) (tc_ResolvedProxy t)\<rparr>"

definition rotate :: "(string \<Rightarrow> ResolvedProxyCredentials) \<Rightarrow> Config \<Rightarrow> Config" where
  "rotate g c =
     c\<lparr>cf_Proxies := map_option (map (\<lambda>(n, p). (n, rotate_proxy g p))) (cf_Proxies c),
       cf_Targets := map_option (map (rotate_target g)) (cf_Targets c)\<rparr>"

lemma public_rotate_target [simp]: "public_target (rotate_target g t) = public_target t"
  by (cases "tc_ResolvedProxy t") (simp_all add: public_target_def rotate_target_def public_resolved_def)

lemma public_rotate_proxies:
  "map (map_prod id public_proxy) (map (\<lambda>(n, p). (n, rotate_proxy g p)) xs)
     = map (map_prod id public_proxy) xs"
  by (induction xs) (auto simp: public_proxy_def rotate_proxy_def)

lemma public_rotate [simp]: "public_config (rotate g c) = public_config c"
proof -
  have "map_option (map (map_prod id public_proxy))
      (sorted_map (map_option (map (\<lambda>(n, p). (n, rotate_proxy g p))) ps))
    = map_option (map (map_prod id public_proxy)) (sorted_map ps)" for ps
  proof (cases ps)
    case (Some kvs)
    show ?thesis
      unfolding Some sorted_map_def option.map sort_key_map_snd public_rotate_proxies ..
  qed (simp add: sorted_map_def)
  then show ?thesis
    by (cases "cf_Targets c") (simp_all add: public_config_def rotate_def comp_def)
qed

text \<open>
  Proxy credentials reach neither the configuration hash nor the comparison of targets:
  whatever the new credentials are, the hash is the same and a target equals its rotated form
  exactly if it equals itself, so a rotation neither changes the published hash nor restarts a
  target.
\<close>

lemma hashes_ignore_credentials:
  "ComputeHash digest (rotate g c) = ComputeHash digest c
   \<and> HashTarget digest (rotate_target g t) = HashTarget digest t
   \<and> Equal digest (rotate_target g t) t = Equal digest t t"
proof -
  have "marshal_target (rotate_target g t) = marshal_target t"
    using marshal_public_target public_rotate_target by metis
  then have "HashTarget digest (rotate_target g t) = HashTarget digest t" by (simp add: HashTarget_def)
  moreover have "ComputeHash digest (rotate g c) = ComputeHash digest c"
    by (rule ComputeHash_cong) simp
  ultimately show ?thesis by (simp add: Equal_def)
qed

text \<open>
  C16: the JSON round trip inside \<^verbatim>\<open>canonicalize\<close> loses nothing but the raw proxy URLs, the
  credentials and the order of map entries: unmarshalling the document of a configuration gives the
  same agent settings, proxies and targets in every other field, and canonicalizing does not change
  the document but for the order of the targets.
\<close>

theorem marshal_config_roundtrip:
  assumes "marshal_config c = Some j"
  shows "unmarshal_config j = public_config c \<and> marshal_config (unmarshal_config j) = Some j"
  using unmarshal_config [OF assms] marshal_public_config [of c] assms by simp

theorem marshal_config_roundtrip_witness:
  "\<exists>j. unmarshal_config j = public_config opt_out_config"
proof -
  have "marshal_config opt_out_config \<noteq> None"
    by (simp add: opt_out_config_def marshal_config_def marshal_target_def marshal_opts_def
        zero_target_def zero_opts_def)
  then obtain j where "marshal_config opt_out_config = Some j" by blast
  from marshal_config_roundtrip [OF this] show ?thesis by blast
qed

text \<open>
  C32: a target whose \<^verbatim>\<open>ping_interval\<close> is not finite cannot be marshalled. The hash of the whole
  configuration is then silently the one of the agent settings alone, so that it is the same for
  every other list of targets, and the target is never equal to itself, so that it restarts at
  every reload.
\<close>

theorem not_finite_interval_breaks_hash:
  assumes "t \<in> set (elems (cf_Targets c))"
    and "po_PingIntervalSec (tc_ProbeOpts t) \<in> {NaN, PosInf, NegInf}"
  shows "ComputeHash digest c = ComputeHash digest (c\<lparr>cf_Proxies := None, cf_Targets := None\<rparr>)
    \<and> \<not> Equal digest t t"
proof -
  from assms(2) have n: "marshal_target t = None"
    by (auto simp: marshal_target_def marshal_opts_def)
  with assms(1) have "marshal_config c = None" by (auto simp: marshal_config_None)
  moreover have "canonicalize (c\<lparr>cf_Proxies := None, cf_Targets := None\<rparr>)
      = \<lparr>cf_Agent = cf_Agent c, cf_Proxies = None, cf_Targets = None\<rparr>"
    by (simp add: canonicalize_public marshal_config_def public_config_def sorted_map_def)
  ultimately have "canonicalize c = canonicalize (c\<lparr>cf_Proxies := None, cf_Targets := None\<rparr>)"
    by (simp add: canonicalize_def)
  with n show ?thesis by (simp add: ComputeHash_def Equal_marshal)
qed

text \<open>A configuration with an infinite interval passes validation.\<close>

definition inf_target :: TargetConfig where
  "inf_target = zero_target\<lparr>tc_Name := ''p'', tc_Address := ''h'', tc_ProbeType := ProbeTypeICMP,
     tc_Interval := 2, tc_Timeout := 1, tc_ProbeOpts := zero_opts\<lparr>po_PingIntervalSec := PosInf\<rparr>\<rparr>"

definition inf_config :: Config where
  "inf_config =
     \<lparr>cf_Agent = apply_agent_defaults zero_agent, cf_Proxies = None, cf_Targets = Some [inf_target]\<rparr>"

theorem not_finite_interval_breaks_hash_witness:
  "validate demo_env inf_config = Inr inf_config
   \<and> ComputeHash (\<lambda>_. ''abc'') inf_config
       = ComputeHash (\<lambda>_. ''abc'') (inf_config\<lparr>cf_Proxies := None, cf_Targets := None\<rparr>)"
proof -
  have t: "inf_target \<in> set (elems (cf_Targets inf_config))"
    "po_PingIntervalSec (tc_ProbeOpts inf_target) \<in> {NaN, PosInf, NegInf}"
    by (simp_all add: inf_config_def inf_target_def)
  have "validate demo_env inf_config = Inr inf_config"
    by (simp add: inf_config_def inf_target_def demo_env_def go_eval)
  with not_finite_interval_breaks_hash [OF t] show ?thesis by blast
qed

end
