(* ===== verification/Scheduler.thy ===== *)
theory Scheduler
  imports Metrics Config_Hash
begin

text \<open>
  The sequential parts of \<^verbatim>\<open>internal/scheduler/scheduler.go\<close>: the diff of two target lists, the
  classification of timeouts, the log lines of a target's history and the initial delay. A Go map is
  iterated in insertion order here; the theory of the running scheduler allows every order.
\<close>

section \<open>Diff\<close>

text \<open>The maps \<^verbatim>\<open>oldMap\<close> and \<^verbatim>\<open>newMap\<close>.\<close>

definition target_map :: "TargetConfig list \<Rightarrow> TargetConfig gomap" where
  "target_map ts = foldl (\<lambda>m t. mput m (tc_Name t) t) (Some []) ts"

type_synonym diff = "TargetConfig list \<times> TargetConfig list \<times> TargetConfig list"

definition diff_step :: "digest \<Rightarrow> TargetConfig gomap \<Rightarrow> diff \<Rightarrow> string \<times> TargetConfig \<Rightarrow> diff" where
  "diff_step digest oldMap acc kv =
     (case (acc, kv) of ((toStop, toStart, unchanged), (name, newT)) \<Rightarrow>
        case mget oldMap name of
          None \<Rightarrow> (toStop, toStart @ [newT], unchanged)
        | Some oldT \<Rightarrow>
            if \<not> Equal digest oldT newT then (toStop @ [oldT], toStart @ [newT], unchanged)
            else (toStop, toStart, unchanged @ [newT]))"

definition diffTargets :: "digest \<Rightarrow> TargetConfig list \<Rightarrow> TargetConfig list \<Rightarrow> diff" where
  "diffTargets digest oldTargets newTargets =
     (let oldMap = target_map oldTargets; newMap = target_map newTargets;
          gone = map snd (filter (\<lambda>(name, t). mget newMap name = None) (elems oldMap))
      in foldl (diff_step digest oldMap) (gone, [], []) (elems newMap))"

section \<open>Timeouts and logging\<close>

definition probeTimedOut :: "bool \<Rightarrow> duration \<Rightarrow> duration \<Rightarrow> ProbeResult \<Rightarrow> bool" where
  "probeTimedOut deadlineExceeded timeout elapsed result =
     (if pr_TimedOut result \<or> deadlineExceeded then True else timeout > 0 \<and> elapsed \<ge> timeout)"

record probeState =
  ps_seen :: bool
  ps_lastSuccess :: bool
  ps_lastError :: "goerr option"

datatype logline = LogRecovered | LogFailed | LogStillFailing

definition logProbeResult :: "ProbeResult \<Rightarrow> probeState \<Rightarrow> logline option \<times> probeState" where
  "logProbeResult result state =
     (if pr_Success result then
        (if ps_seen state \<and> \<not> ps_lastSuccess state then Some LogRecovered else None,
         \<lparr>ps_seen = True, ps_lastSuccess = True, ps_lastError = None\<rparr>)
      else
        (Some (if \<not> ps_seen state \<or> ps_lastSuccess state \<or> ps_lastError state \<noteq> pr_Error result
               then LogFailed else LogStillFailing),
         \<lparr>ps_seen = True, ps_lastSuccess = False, ps_lastError = pr_Error result\<rparr>))"

text \<open>
  \<open>rand n\<close> is \<^verbatim>\<open>rand.Int64N(n)\<close>, a number from 0 to \<open>n - 1\<close> that panics (\<open>None\<close>) unless \<open>n\<close> is positive.
\<close>

definition Int64N :: "(int \<Rightarrow> int) \<Rightarrow> int \<Rightarrow> int option" where
  "Int64N rand n = (if n \<le> 0 then None else Some (rand n))"

definition randomInitialProbeDelay :: "(int \<Rightarrow> int) \<Rightarrow> duration \<Rightarrow> duration option" where
  "randomInitialProbeDelay rand mx =
     (if mx \<le> 0 then Some 0
      else if mx = 2 ^ 63 - 1 then Int64N rand (2 ^ 63 - 1)
      else Int64N rand (int64 (mx + 1)))"

section \<open>The diff\<close>

lemma target_map_snoc [simp]: "target_map (ts @ [t]) = mput (target_map ts) (tc_Name t) t"
  by (simp add: target_map_def)

lemma target_map_Nil [simp]: "target_map [] = Some []"
  by (simp add: target_map_def)

lemma empty_gomap [simp]: "mok (Some [])" "mget (Some []) n = None"
  by (simp_all add: mok_def mkeys_def mget_def)

lemma mok_target_map [simp]: "mok (target_map ts)"
  by (induction ts rule: rev_induct) simp_all

lemma mget_target_map:
  "distinct (map tc_Name ts) \<Longrightarrow> mget (target_map ts) n = Some t \<longleftrightarrow> t \<in> set ts \<and> tc_Name t = n"
  by (induction ts rule: rev_induct) (auto split: if_splits intro: rev_image_eqI)

lemma elems_target_map:
  assumes "distinct (map tc_Name ts)"
  shows "(n, t) \<in> set (elems (target_map ts)) \<longleftrightarrow> t \<in> set ts \<and> tc_Name t = n"
  using mget_target_map [OF assms, of n t] mok_target_map [of ts]
  by (simp add: mget_def mok_def mkeys_def)

text \<open>Two configurations name the same target alike and are equal in the sense of \<^verbatim>\<open>Equal\<close>.\<close>

definition same_target :: "digest \<Rightarrow> TargetConfig \<Rightarrow> TargetConfig \<Rightarrow> bool" where
  "same_target digest old new \<longleftrightarrow> tc_Name old = tc_Name new \<and> Equal digest old new"

lemma foldl_diff_step:
  "foldl (diff_step digest om) (a, b, c) kvs =
     (a @ concat (map (\<lambda>(n, t). case mget om n of None \<Rightarrow> [] | Some u \<Rightarrow> if Equal digest u t then [] else [u]) kvs),
      b @ map snd (filter (\<lambda>(n, t). case mget om n of None \<Rightarrow> True | Some u \<Rightarrow> \<not> Equal digest u t) kvs),
      c @ map snd (filter (\<lambda>(n, t). case mget om n of None \<Rightarrow> False | Some u \<Rightarrow> Equal digest u t) kvs))"
  by (induction kvs arbitrary: a b c) (auto simp: diff_step_def split: option.splits)

lemma names_target_map:
  "distinct (map tc_Name ts) \<Longrightarrow> map (\<lambda>kv. tc_Name (snd kv)) (elems (target_map ts)) = mkeys (target_map ts)"
  using elems_target_map [of ts] by (auto simp: mkeys_def intro!: map_cong)

lemma in_concat_pairs: "x \<in> set (concat (map f kvs)) \<longleftrightarrow> (\<exists>k v. (k, v) \<in> set kvs \<and> x \<in> set (f (k, v)))"
  by auto

lemma diffTargets_sets:
  assumes old: "distinct (map tc_Name old)" and new: "distinct (map tc_Name new)"
    and d: "diffTargets digest old new = (toStop, toStart, unchanged)"
  shows "set toStop = {u \<in> set old. \<not> (\<exists>t \<in> set new. same_target digest u t)}"
    and "set toStart = {t \<in> set new. \<not> (\<exists>u \<in> set old. same_target digest u t)}"
    and "set unchanged = {t \<in> set new. \<exists>u \<in> set old. same_target digest u t}"
    and "distinct (map tc_Name toStart)" "distinct (map tc_Name unchanged)"
proof -
  note defs = d [unfolded diffTargets_def Let_def foldl_diff_step prod.inject append_Nil]
  note eqs = defs [THEN conjunct1, symmetric] defs [THEN conjunct2, THEN conjunct1, symmetric]
    defs [THEN conjunct2, THEN conjunct2, symmetric]
  have gold: "mget (target_map old) n = Some u \<longleftrightarrow> u \<in> set old \<and> tc_Name u = n" for n u
    by (rule mget_target_map [OF old])
  have gnone: "mget (target_map old) n = None \<longleftrightarrow> (\<forall>u \<in> set old. tc_Name u \<noteq> n)" for n
    using gold by (metis not_None_eq)
  have nnone: "mget (target_map new) n = None \<longleftrightarrow> (\<forall>u \<in> set new. tc_Name u \<noteq> n)" for n
    using mget_target_map [OF new] by (metis not_None_eq)
  have same: "(case mget (target_map old) (tc_Name t) of None \<Rightarrow> False | Some u \<Rightarrow> Equal digest u t)
      \<longleftrightarrow> (\<exists>u \<in> set old. same_target digest u t)" for t
  proof (cases "mget (target_map old) (tc_Name t)")
    case None
    then have "\<forall>u \<in> set old. tc_Name u \<noteq> tc_Name t" by (simp only: gnone)
    with None show ?thesis by (auto simp: same_target_def)
  next
    case (Some u)
    then have u: "u \<in> set old" "tc_Name u = tc_Name t" by (simp_all add: gold)
    have "u' = u" if "u' \<in> set old" "tc_Name u' = tc_Name t" for u'
      using old that u by (metis distinct_map inj_onD)
    with u have "(\<exists>u \<in> set old. same_target digest u t) \<longleftrightarrow> Equal digest u t"
      unfolding same_target_def by metis
    with Some show ?thesis by simp
  qed
  have other: "(case mget (target_map old) (tc_Name t) of None \<Rightarrow> True | Some u \<Rightarrow> \<not> Equal digest u t)
      \<longleftrightarrow> \<not> (\<exists>u \<in> set old. same_target digest u t)" for t
    unfolding same [symmetric] by (simp split: option.split)
  let ?els = "elems (target_map new)"
  have snds: "(\<exists>n. (n, t) \<in> set ?els) \<longleftrightarrow> t \<in> set new" for t
    by (auto simp: elems_target_map [OF new])
  have nm: "n = tc_Name t" if "(n, t) \<in> set ?els" for n t
    using that by (simp add: elems_target_map [OF new])
  have start: "toStart = map snd (filter (\<lambda>(n, t). \<not> (\<exists>u \<in> set old. same_target digest u t)) ?els)"
    unfolding eqs(2) by (rule arg_cong [of _ _ "map snd"], rule filter_cong) (auto simp: other dest!: nm)
  have unch: "unchanged = map snd (filter (\<lambda>(n, t). \<exists>u \<in> set old. same_target digest u t) ?els)"
    unfolding eqs(3) by (rule arg_cong [of _ _ "map snd"], rule filter_cong) (auto simp: same dest!: nm)
  show "set toStart = {t \<in> set new. \<not> (\<exists>u \<in> set old. same_target digest u t)}"
    unfolding start using snds by (force simp: image_iff)
  show "set unchanged = {t \<in> set new. \<exists>u \<in> set old. same_target digest u t}"
    unfolding unch using snds by (force simp: image_iff)
  have dn: "distinct (map (\<lambda>kv. tc_Name (snd kv)) ?els)"
    unfolding names_target_map [OF new] using mok_target_map [of new] by (simp add: mok_def)
  show "distinct (map tc_Name toStart)" "distinct (map tc_Name unchanged)"
    unfolding start unch map_map using dn by (simp_all add: comp_def distinct_map_filter)
  let ?gone = "filter (\<lambda>(n, t). mget (target_map new) n = None) (elems (target_map old))"
  let ?diff = "\<lambda>(n, t). case mget (target_map old) n of None \<Rightarrow> [] | Some u \<Rightarrow> if Equal digest u t then [] else [u]"
  have gone: "u \<in> snd ` set ?gone \<longleftrightarrow> u \<in> set old \<and> (\<forall>t \<in> set new. tc_Name t \<noteq> tc_Name u)" for u
    by (force simp: nnone image_iff elems_target_map [OF old])
  have diff: "u \<in> set (concat (map ?diff ?els)) \<longleftrightarrow>
      u \<in> set old \<and> (\<exists>t \<in> set new. tc_Name t = tc_Name u \<and> \<not> Equal digest u t)" for u
  proof -
    have "u \<in> set (?diff (n, t)) \<longleftrightarrow> u \<in> set old \<and> tc_Name u = n \<and> \<not> Equal digest u t" for n t
    proof -
      have "u \<in> set (?diff (n, t)) \<longleftrightarrow> mget (target_map old) n = Some u \<and> \<not> Equal digest u t"
        by (cases "mget (target_map old) n") auto
      then show ?thesis by (simp add: gold)
    qed
    then show ?thesis unfolding in_concat_pairs by (auto simp: elems_target_map [OF new])
  qed
  have same_new: "(\<exists>t \<in> set new. same_target digest u t) \<longleftrightarrow> (\<exists>t \<in> set new. tc_Name t = tc_Name u)
      \<and> \<not> (\<exists>t \<in> set new. tc_Name t = tc_Name u \<and> \<not> Equal digest u t)" for u
  proof (cases "\<exists>t \<in> set new. tc_Name t = tc_Name u")
    case True
    then obtain t where t: "t \<in> set new" "tc_Name t = tc_Name u" by blast
    have "t' = t" if "t' \<in> set new" "tc_Name t' = tc_Name u" for t'
      using new that t by (metis distinct_map inj_onD)
    with t show ?thesis unfolding same_target_def by metis
  qed (auto simp: same_target_def)
  show "set toStop = {u \<in> set old. \<not> (\<exists>t \<in> set new. same_target digest u t)}"
    unfolding eqs(1) set_append set_map
    by (rule set_eqI, simp only: Un_iff gone diff mem_Collect_eq same_new) blast
qed

text \<open>
  C7: \<^verbatim>\<open>diffTargets\<close> is the exact difference of two validated target lists. It stops the running
  targets that no new target equals, starts the new targets that no running one equals, and leaves
  the others; the started and the unchanged targets together are the new ones, each exactly once.
\<close>

theorem diffTargets_partition:
  assumes "distinct (map tc_Name old)" and "distinct (map tc_Name new)"
    and "diffTargets digest old new = (toStop, toStart, unchanged)"
  shows "set toStop = {u \<in> set old. \<not> (\<exists>t \<in> set new. same_target digest u t)}
    \<and> set toStart = {t \<in> set new. \<not> (\<exists>u \<in> set old. same_target digest u t)}
    \<and> mset toStart + mset unchanged = mset new
    \<and> tc_Name ` (set toStop \<union> set toStart \<union> set unchanged) = tc_Name ` (set old \<union> set new)"
proof -
  note d = diffTargets_sets [OF assms]
  have dist: "distinct toStart" "distinct unchanged" "distinct new"
    using d(4,5) assms(2) by (auto simp: distinct_map)
  have "mset (toStart @ unchanged) = mset new"
    using dist d(2,3) by (subst set_eq_iff_mset_eq_distinct [symmetric]) auto
  moreover have "tc_Name ` (set toStop \<union> set toStart \<union> set unchanged) = tc_Name ` (set old \<union> set new)"
    unfolding d(1-3) by (auto simp: same_target_def image_iff)
  ultimately show ?thesis using d(1,2) by simp
qed

theorem diffTargets_partition_witness:
  "set (fst (snd (diffTargets (\<lambda>_. ''h'') [zero_target\<lparr>tc_Name := ''a''\<rparr>, zero_target\<lparr>tc_Name := ''b''\<rparr>]
      [zero_target\<lparr>tc_Name := ''b''\<rparr>, zero_target\<lparr>tc_Name := ''c''\<rparr>])))
     = {zero_target\<lparr>tc_Name := ''c''\<rparr>}
   \<and> set (fst (diffTargets (\<lambda>_. ''h'') [zero_target\<lparr>tc_Name := ''a''\<rparr>, zero_target\<lparr>tc_Name := ''b''\<rparr>]
      [zero_target\<lparr>tc_Name := ''b''\<rparr>, zero_target\<lparr>tc_Name := ''c''\<rparr>]))
     = {zero_target\<lparr>tc_Name := ''a''\<rparr>}"
proof -
  let ?a = "zero_target\<lparr>tc_Name := ''a''\<rparr>" and ?b = "zero_target\<lparr>tc_Name := ''b''\<rparr>"
    and ?c = "zero_target\<lparr>tc_Name := ''c''\<rparr>"
  obtain p q u where d: "diffTargets (\<lambda>_. ''h'') [?a, ?b] [?b, ?c] = (p, q, u)" by (rule prod_cases3)
  have "Equal (\<lambda>_. ''h'') ?b ?b"
    by (simp add: Equal_def HashTarget_def marshal_target_def zero_target_def
        marshal_opts_def zero_opts_def)
  with diffTargets_partition [OF _ _ d] have "set p = {?a}" "set q = {?c}"
    by (auto simp: same_target_def)
  then show ?thesis unfolding d by simp
qed

section \<open>The log\<close>

text \<open>The log lines of a sequence of results, from the state of a new goroutine on.\<close>

fun log_run :: "ProbeResult list \<Rightarrow> probeState \<Rightarrow> logline option list" where
  "log_run [] st = []"
| "log_run (r # rs) st = (case logProbeResult r st of (l, st') \<Rightarrow> l # log_run rs st')"

definition new_state :: probeState where
  "new_state = \<lparr>ps_seen = False, ps_lastSuccess = False, ps_lastError = None\<rparr>"

definition log_of :: "ProbeResult option \<Rightarrow> ProbeResult \<Rightarrow> logline option" where
  "log_of prev r =
     (if pr_Success r then (if prev \<noteq> None \<and> \<not> pr_Success (the prev) then Some LogRecovered else None)
      else if prev \<noteq> None \<and> \<not> pr_Success (the prev) \<and> pr_Error (the prev) = pr_Error r
      then Some LogStillFailing else Some LogFailed)"

lemma log_run_nth:
  "k < length rs \<Longrightarrow> log_run rs st ! k =
     (if k = 0 then fst (logProbeResult (rs ! 0) st) else log_of (Some (rs ! (k - 1))) (rs ! k))"
proof (induction rs arbitrary: st k)
  case (Cons r rs)
  show ?case
  proof (cases k)
    case (Suc k')
    show ?thesis
    proof (cases k')
      case 0
      with Suc Cons show ?thesis
        by (auto simp: logProbeResult_def log_of_def split: prod.splits if_splits)
    next
      case (Suc k'')
      with \<open>k = Suc k'\<close> Cons show ?thesis by (simp split: prod.splits)
    qed
  qed (simp split: prod.splits)
qed simp

text \<open>
  The log of a goroutine reports changes: the first failure of a series and every failure with
  a new error is a warning, a failure with the same error as the one before is a debug line, and a
  success is reported exactly if the probe before it failed.
\<close>

lemma log_reports_changes:
  assumes "k < length rs"
  shows "log_run rs new_state ! k = log_of (if k = 0 then None else Some (rs ! (k - 1))) (rs ! k)"
  using assms by (simp add: log_run_nth) (simp add: logProbeResult_def new_state_def log_of_def)

section \<open>The initial delay\<close>

text \<open>
  For a random source that respects its range, the initial delay is defined (nothing panics) and
  lies between 0 and the configured jitter, also for the greatest duration, where the number of
  delays does not fit into 64 bits.
\<close>

lemma randomInitialProbeDelay_range:
  assumes "\<And>n. 0 < n \<Longrightarrow> 0 \<le> rand n \<and> rand n < n" and "in_int64 mx"
  shows "\<exists>d. randomInitialProbeDelay rand mx = Some d \<and> 0 \<le> d \<and> d \<le> max 0 mx"
proof (cases "mx \<le> 0 \<or> mx = 2 ^ 63 - 1")
  case True
  then show ?thesis using assms(1) [of "2 ^ 63 - 1"] by (auto simp: randomInitialProbeDelay_def Int64N_def)
next
  case False
  then have "in_int64 (mx + 1)" "0 < mx + 1" using assms(2) by (auto simp: in_int64_def)
  with False assms(1) [of "mx + 1"] show ?thesis
    by (auto simp: randomInitialProbeDelay_def Int64N_def)
qed

end
