(* ===== verification/Scheduler_Run.thy ===== *)
theory Scheduler_Run
  imports Scheduler
begin

text \<open>
  The running scheduler of \<^verbatim>\<open>internal/scheduler/scheduler.go\<close>: the step relation \<open>step\<close> over the state
  \<open>sys\<close>, in which the main goroutine that runs \<^verbatim>\<open>Start\<close>, \<^verbatim>\<open>Reload\<close> and \<^verbatim>\<open>Stop\<close> and one goroutine per
  started target that runs \<^verbatim>\<open>runProbeLoop\<close> interleave in any order. A goroutine is identified by a
  number and never forgotten, so that one which outlives its entry in \<^verbatim>\<open>s.probes\<close> stays visible. Each
  method of the exporter is one step, a probe returns any result that keeps the contract of a prober,
  and ticks of the clock and cancellations may come at any moment.
\<close>

section \<open>Goroutines\<close>

text \<open>
  Where \<^verbatim>\<open>runProbeLoop\<close> stands: before \<^verbatim>\<open>waitInitialProbeJitter\<close>, in its \<^verbatim>\<open>select\<close>, before the first
  check of \<^verbatim>\<open>executeProbe\<close>, inside \<^verbatim>\<open>Probe\<close>, after the second check with the result to record, in the
  \<^verbatim>\<open>select\<close> of the loop, before the drain of a stale tick, or returned with \<^verbatim>\<open>done\<close> closed. The flag
  tells the first probe, after which nothing is drained, from the later ones. The deferred calls of the
  goroutine run in reverse order: \<^verbatim>\<open>close(done)\<close> first, then \<^verbatim>\<open>wg.Done()\<close>, after which \<open>g_exited\<close> is set.
\<close>

datatype gpc = GJitter | GDelay | GStart bool | GProbing bool | GChecked bool ProbeResult | GIdle | GDrain | GDone

record goroutine =
  g_target :: TargetConfig
  g_cancelled :: bool
  g_jitter :: duration
  g_state :: probeState
  g_pc :: gpc
  g_exited :: bool

definition after_probe :: "bool \<Rightarrow> gpc" where
  "after_probe first = (if first then GIdle else GDrain)"

text \<open>
  The main goroutine: idle, in \<^verbatim>\<open>Reload\<close> with the targets still to stop, the stopped goroutines it
  will wait for and the targets to start, and in \<^verbatim>\<open>Stop\<close> with the keys of \<^verbatim>\<open>s.probes\<close> its loop has still
  to visit, in \<^verbatim>\<open>wg.Wait\<close> and after it.
\<close>

datatype mpc = MIdle | MStopping "TargetConfig list" "nat list" "TargetConfig list"
  | MWaiting "nat list" "TargetConfig list" | MStarting "TargetConfig list"
  | MCancelling "string list" | MShutdown | MStopped

text \<open>
  \<open>s_goal\<close> and \<open>s_jitter\<close> are the targets and the initial jitter of the configuration that \<^verbatim>\<open>Start\<close> or
  the last \<^verbatim>\<open>Reload\<close> got; \<open>s_probes\<close> is \<^verbatim>\<open>s.probes\<close>, with the number of the goroutine for its entry;
  \<open>s_wg\<close> is the counter of \<^verbatim>\<open>s.wg\<close>, an integer that \<^verbatim>\<open>Add\<close> and \<^verbatim>\<open>Done\<close> change and \<^verbatim>\<open>Wait\<close> compares with 0.
\<close>

record 'v sys =
  s_probes :: "string \<Rightarrow> nat option"
  s_gs :: "nat \<Rightarrow> goroutine option"
  s_next :: nat
  s_main :: mpc
  s_goal :: "TargetConfig list"
  s_jitter :: duration
  s_wg :: int
  s_exp :: "'v MetricsExporter"

definition init_sys :: "TargetConfig list \<Rightarrow> duration \<Rightarrow> 'v MetricsExporter \<Rightarrow> 'v sys" where
  "init_sys ts jitter e = \<lparr>s_probes = Map.empty, s_gs = Map.empty, s_next = 0, s_main = MStarting ts,
     s_goal = ts, s_jitter = jitter, s_wg = 0, s_exp = e\<rparr>"

definition upd :: "nat \<Rightarrow> (goroutine \<Rightarrow> goroutine) \<Rightarrow> 'v sys \<Rightarrow> 'v sys" where
  "upd i f s = s\<lparr>s_gs := (s_gs s)(i := map_option f (s_gs s i))\<rparr>"

definition cancel :: "nat \<Rightarrow> 'v sys \<Rightarrow> 'v sys" where
  "cancel i s = upd i (\<lambda>g. g\<lparr>g_cancelled := True\<rparr>) s"

definition set_pc :: "nat \<Rightarrow> gpc \<Rightarrow> 'v sys \<Rightarrow> 'v sys" where
  "set_pc i pc s = upd i (\<lambda>g. g\<lparr>g_pc := pc\<rparr>) s"

text \<open>One turn of the stop loop of \<^verbatim>\<open>Reload\<close>.\<close>

definition stop_one :: "'v vec_ops \<Rightarrow> TargetConfig \<Rightarrow> TargetConfig list \<Rightarrow> nat list \<Rightarrow> TargetConfig list \<Rightarrow> 'v sys \<Rightarrow> 'v sys" where
  "stop_one V t ts w st s =
     (let s' = (case s_probes s (tc_Name t) of
          Some i \<Rightarrow> (cancel i s)\<lparr>s_probes := (s_probes s)(tc_Name t := None), s_main := MStopping ts (w @ [i]) st\<rparr>
        | None \<Rightarrow> s\<lparr>s_main := MStopping ts w st\<rparr>)
      in s'\<lparr>s_exp := DeleteTarget V t (s_exp s)\<rparr>)"

definition startTarget :: "'v vec_ops \<Rightarrow> TargetConfig \<Rightarrow> 'v sys \<Rightarrow> 'v sys" where
  "startTarget V t s =
     s\<lparr>s_probes := (s_probes s)(tc_Name t \<mapsto> s_next s),
       s_gs := (s_gs s)(s_next s \<mapsto> \<lparr>g_target = t, g_cancelled = False, g_jitter = s_jitter s,
         g_state = new_state, g_pc = GJitter, g_exited = False\<rparr>),
       s_next := Suc (s_next s), s_wg := s_wg s + 1, s_exp := EnsureTarget V t (s_exp s)\<rparr>"

text \<open>The targets of the running probes, in some order.\<close>

definition running_targets :: "'v sys \<Rightarrow> TargetConfig list \<Rightarrow> bool" where
  "running_targets s ts \<longleftrightarrow>
     set ts = {g_target g | g i n. s_probes s n = Some i \<and> s_gs s i = Some g} \<and> distinct (map tc_Name ts)"

text \<open>The random source stays in its range, as \<^verbatim>\<open>rand.Int64N\<close> documents.\<close>

definition rand_ok :: "(int \<Rightarrow> int) \<Rightarrow> bool" where
  "rand_ok rand \<longleftrightarrow> (\<forall>n > 0. 0 \<le> rand n \<and> rand n < n)"

text \<open>
  The steps of the main goroutine: \<^verbatim>\<open>Start\<close>, \<^verbatim>\<open>Reload\<close>, \<^verbatim>\<open>Stop\<close>. The loops over \<^verbatim>\<open>s.probes\<close> visit its entries in
  any order; \<^verbatim>\<open>wg.Wait\<close> looks at the counter only.
\<close>

inductive main_step :: "'v vec_ops \<Rightarrow> digest \<Rightarrow> 'v sys \<Rightarrow> 'v sys \<Rightarrow> bool" for V digest where
  Reload_begin: "s_main s = MIdle \<Longrightarrow> running_targets s old \<Longrightarrow> distinct (map tc_Name new) \<Longrightarrow>
    diffTargets digest old new = (stop, start, unchanged) \<Longrightarrow> mset toStop = mset stop \<Longrightarrow>
    mset toStart = mset start \<Longrightarrow> in_int64 jitter \<Longrightarrow>
    main_step V digest s (s\<lparr>s_main := MStopping toStop [] toStart, s_goal := new, s_jitter := jitter\<rparr>)"
| Reload_stop: "s_main s = MStopping (t # ts) w st \<Longrightarrow> main_step V digest s (stop_one V t ts w st s)"
| Reload_wait: "s_main s = MStopping [] w st \<Longrightarrow> main_step V digest s (s\<lparr>s_main := MWaiting w st\<rparr>)"
| Reload_done: "s_main s = MWaiting (i # w) st \<Longrightarrow> s_gs s i = Some g \<Longrightarrow> g_pc g = GDone \<Longrightarrow>
    main_step V digest s (s\<lparr>s_main := MWaiting w st\<rparr>)"
| Reload_start: "s_main s = MWaiting [] st \<Longrightarrow> main_step V digest s (s\<lparr>s_main := MStarting st\<rparr>)"
| Start_one: "s_main s = MStarting (t # ts) \<Longrightarrow> main_step V digest s ((startTarget V t s)\<lparr>s_main := MStarting ts\<rparr>)"
| Start_end: "s_main s = MStarting [] \<Longrightarrow> main_step V digest s (s\<lparr>s_main := MIdle\<rparr>)"
| Stop_begin: "s_main s = MIdle \<Longrightarrow> distinct ns \<Longrightarrow> set ns = dom (s_probes s) \<Longrightarrow>
    main_step V digest s (s\<lparr>s_main := MCancelling ns\<rparr>)"
| Stop_one: "s_main s = MCancelling (n # ns) \<Longrightarrow> s_probes s n = Some i \<Longrightarrow>
    main_step V digest s ((cancel i s)\<lparr>s_probes := (s_probes s)(n := None), s_main := MCancelling ns\<rparr>)"
| Stop_wait: "s_main s = MCancelling [] \<Longrightarrow> main_step V digest s (s\<lparr>s_main := MShutdown\<rparr>)"
| Stop_end: "s_main s = MShutdown \<Longrightarrow> s_wg s = 0 \<Longrightarrow> main_step V digest s (s\<lparr>s_main := MStopped\<rparr>)"

text \<open>The steps of goroutine \<open>i\<close>: \<^verbatim>\<open>runProbeLoop\<close>, \<^verbatim>\<open>waitInitialProbeJitter\<close>, \<^verbatim>\<open>executeProbe\<close>.\<close>

inductive go_step :: "'v vec_ops \<Rightarrow> nat \<Rightarrow> 'v sys \<Rightarrow> 'v sys \<Rightarrow> bool" for V i where
  Jitter_none: "s_gs s i = Some g \<Longrightarrow> g_pc g = GJitter \<Longrightarrow> rand_ok rand \<Longrightarrow>
    randomInitialProbeDelay rand (g_jitter g) = Some d \<Longrightarrow> d \<le> 0 \<Longrightarrow>
    go_step V i s (set_pc i (if g_cancelled g then GDone else GStart True) s)"
| Jitter_timer: "s_gs s i = Some g \<Longrightarrow> g_pc g = GJitter \<Longrightarrow> rand_ok rand \<Longrightarrow>
    randomInitialProbeDelay rand (g_jitter g) = Some d \<Longrightarrow> 0 < d \<Longrightarrow> go_step V i s (set_pc i GDelay s)"
| Delay_end: "s_gs s i = Some g \<Longrightarrow> g_pc g = GDelay \<Longrightarrow> go_step V i s (set_pc i (GStart True) s)"
| Delay_cancelled: "s_gs s i = Some g \<Longrightarrow> g_pc g = GDelay \<Longrightarrow> g_cancelled g \<Longrightarrow>
    go_step V i s (set_pc i GDone s)"
| Probe_skipped: "s_gs s i = Some g \<Longrightarrow> g_pc g = GStart f \<Longrightarrow> g_cancelled g \<Longrightarrow>
    go_step V i s (set_pc i (after_probe f) s)"
| Probe_begin: "s_gs s i = Some g \<Longrightarrow> g_pc g = GStart f \<Longrightarrow> \<not> g_cancelled g \<Longrightarrow>
    go_step V i s (set_pc i (GProbing f) s)"
| Probe_discarded: "s_gs s i = Some g \<Longrightarrow> g_pc g = GProbing f \<Longrightarrow> g_cancelled g \<Longrightarrow>
    go_step V i s (set_pc i (after_probe f) s)"
| Probe_checked: "s_gs s i = Some g \<Longrightarrow> g_pc g = GProbing f \<Longrightarrow> \<not> g_cancelled g \<Longrightarrow> result_ok r \<Longrightarrow>
    go_step V i s (set_pc i (GChecked f (r\<lparr>pr_TimedOut := probeTimedOut d (tc_Timeout (g_target g)) elapsed r\<rparr>)) s)"
| Probe_record: "s_gs s i = Some g \<Longrightarrow> g_pc g = GChecked f r \<Longrightarrow>
    go_step V i s ((upd i (\<lambda>g. g\<lparr>g_pc := after_probe f, g_state := snd (logProbeResult r (g_state g))\<rparr>) s)
      \<lparr>s_exp := Record V (g_target g) r (s_exp s)\<rparr>)"
| Tick: "s_gs s i = Some g \<Longrightarrow> g_pc g = GIdle \<Longrightarrow> go_step V i s (set_pc i (GStart False) s)"
| Loop_cancelled: "s_gs s i = Some g \<Longrightarrow> g_pc g = GIdle \<Longrightarrow> g_cancelled g \<Longrightarrow>
    go_step V i s (set_pc i GDone s)"
| Drain_stale: "s_gs s i = Some g \<Longrightarrow> g_pc g = GDrain \<Longrightarrow>
    go_step V i s ((set_pc i GIdle s)\<lparr>s_exp := IncrSkippedOverlap V (g_target g) (s_exp s)\<rparr>)"
| Drain_none: "s_gs s i = Some g \<Longrightarrow> g_pc g = GDrain \<Longrightarrow> go_step V i s (set_pc i GIdle s)"
| Wg_done: "s_gs s i = Some g \<Longrightarrow> g_pc g = GDone \<Longrightarrow> \<not> g_exited g \<Longrightarrow>
    go_step V i s ((upd i (\<lambda>g. g\<lparr>g_exited := True\<rparr>) s)\<lparr>s_wg := s_wg s - 1\<rparr>)"

inductive step :: "'v vec_ops \<Rightarrow> digest \<Rightarrow> 'v sys \<Rightarrow> 'v sys \<Rightarrow> bool" for V digest where
  step_main: "main_step V digest s s' \<Longrightarrow> step V digest s s'"
| step_go: "go_step V i s s' \<Longrightarrow> step V digest s s'"

inductive reachable :: "'v vec_ops \<Rightarrow> digest \<Rightarrow> 'v sys \<Rightarrow> bool" for V digest where
  reach_init: "distinct (map tc_Name ts) \<Longrightarrow> in_int64 jitter \<Longrightarrow> reachable V digest (init_sys ts jitter e)"
| reach_step: "reachable V digest s \<Longrightarrow> step V digest s s' \<Longrightarrow> reachable V digest s'"

section \<open>Local steps\<close>

text \<open>
  A step of goroutine \<open>i\<close> changes its program counter and its log state, and nothing else of the
  scheduler but the counter; it returns only if it is cancelled, and it counts itself off once, after
  it has returned.
\<close>

definition local_step :: "nat \<Rightarrow> 'v sys \<Rightarrow> 'v sys \<Rightarrow> bool" where
  "local_step i s s' \<longleftrightarrow>
     (\<exists>g g'. s_gs s i = Some g \<and> s_gs s' = (s_gs s)(i \<mapsto> g') \<and> (g_pc g = GDone \<longrightarrow> g_pc g' = GDone)
        \<and> g_target g' = g_target g \<and> g_cancelled g' = g_cancelled g \<and> g_jitter g' = g_jitter g
        \<and> (g_pc g' = GDone \<longrightarrow> g_pc g = GDone \<or> g_cancelled g)
        \<and> (s_wg s' = s_wg s \<and> g_exited g' = g_exited g
           \<or> s_wg s' = s_wg s - 1 \<and> \<not> g_exited g \<and> g_exited g' \<and> g_pc g' = GDone))
     \<and> s_probes s' = s_probes s \<and> s_main s' = s_main s \<and> s_next s' = s_next s \<and> s_goal s' = s_goal s
     \<and> s_jitter s' = s_jitter s"

lemma upd_simps [simp]:
  "s_gs (upd i f s) = (s_gs s)(i := map_option f (s_gs s i))" "s_probes (upd i f s) = s_probes s"
  "s_main (upd i f s) = s_main s" "s_next (upd i f s) = s_next s" "s_goal (upd i f s) = s_goal s"
  "s_exp (upd i f s) = s_exp s" "s_jitter (upd i f s) = s_jitter s" "s_wg (upd i f s) = s_wg s"
  by (simp_all add: upd_def)

lemma after_probe_simps [simp]: "after_probe f \<noteq> GDone" "after_probe f \<noteq> GJitter"
  by (simp_all add: after_probe_def)

lemma local_intro:
  "s_gs s i = Some g \<Longrightarrow> g_pc g \<noteq> GDone \<Longrightarrow> g_target (f g) = g_target g \<Longrightarrow> g_cancelled (f g) = g_cancelled g \<Longrightarrow>
     g_jitter (f g) = g_jitter g \<Longrightarrow> g_exited (f g) = g_exited g \<Longrightarrow> (g_pc (f g) = GDone \<longrightarrow> g_cancelled g) \<Longrightarrow>
     local_step i s (upd i f s)"
  unfolding local_step_def upd_simps by (intro conjI exI [of _ g] exI [of _ "f g"]) simp_all

lemma local_exp [simp]: "local_step i s (s'\<lparr>s_exp := e\<rparr>) = local_step i s s'"
  by (simp add: local_step_def)

lemma go_step_local: "go_step V i s s' \<Longrightarrow> local_step i s s'"
proof (induction rule: go_step.induct)
  case (Wg_done s g)
  then show ?case
    unfolding local_step_def by (intro conjI exI [of _ g] exI [of _ "g\<lparr>g_exited := True\<rparr>"]) simp_all
qed (auto simp: set_pc_def intro!: local_intro)

section \<open>The invariant\<close>

definition live :: "'v sys \<Rightarrow> nat \<Rightarrow> goroutine \<Rightarrow> bool" where
  "live s i g \<longleftrightarrow> s_gs s i = Some g \<and> g_pc g \<noteq> GDone"

definition names :: "TargetConfig list \<Rightarrow> string set" where
  "names ts = tc_Name ` set ts"

text \<open>The goroutines the main one has still to wait for, the targets to stop and those to start.\<close>

fun waiting :: "mpc \<Rightarrow> nat list" where
  "waiting (MStopping _ w _) = w"
| "waiting (MWaiting w _) = w"
| "waiting _ = []"

fun stops :: "mpc \<Rightarrow> TargetConfig list" where
  "stops (MStopping ts _ _) = ts"
| "stops _ = []"

fun starts :: "mpc \<Rightarrow> TargetConfig list" where
  "starts (MStopping _ _ st) = st"
| "starts (MWaiting _ st) = st"
| "starts (MStarting st) = st"
| "starts _ = []"

text \<open>Inside \<^verbatim>\<open>Stop\<close>, and there or after it.\<close>

fun closing :: "mpc \<Rightarrow> bool" where
  "closing (MCancelling _) = True"
| "closing MShutdown = True"
| "closing _ = False"

definition stopping :: "mpc \<Rightarrow> bool" where
  "stopping m \<longleftrightarrow> closing m \<or> m = MStopped"

text \<open>The goroutines that have not called \<^verbatim>\<open>wg.Done\<close> yet.\<close>

definition counted :: "'v sys \<Rightarrow> nat set" where
  "counted s = {i. \<exists>g. s_gs s i = Some g \<and> \<not> g_exited g}"

text \<open>
  The entries of \<^verbatim>\<open>s.probes\<close> are running goroutines of their target, nobody else runs but goroutines
  that are cancelled and waited for, and no two goroutines of one name run at the same time.
\<close>

definition flight_inv :: "'v sys \<Rightarrow> bool" where
  "flight_inv s \<longleftrightarrow>
     (\<forall>i g. s_gs s i = Some g \<longrightarrow> i < s_next s \<and> (g_pc g = GDone \<longrightarrow> g_cancelled g))
   \<and> (\<forall>n i. s_probes s n = Some i \<longrightarrow> (\<exists>g. s_gs s i = Some g \<and> tc_Name (g_target g) = n \<and> \<not> g_cancelled g))
   \<and> (\<forall>i g. live s i g \<longrightarrow> s_probes s (tc_Name (g_target g)) \<noteq> Some i \<longrightarrow>
        g_cancelled g \<and> (i \<in> set (waiting (s_main s)) \<or> closing (s_main s)))
   \<and> (\<forall>i j g h. live s i g \<longrightarrow> live s j h \<longrightarrow> tc_Name (g_target g) = tc_Name (g_target h) \<longrightarrow> i = j)"

text \<open>
  The running probes, without those still to stop and with those still to start, are the targets of
  the configuration; a target to stop differs from the one of its name in the configuration.
\<close>

definition plan_inv :: "digest \<Rightarrow> 'v sys \<Rightarrow> bool" where
  "plan_inv digest s \<longleftrightarrow>
     (\<forall>n. n \<in> names (s_goal s) \<longleftrightarrow>
        (s_probes s n \<noteq> None \<and> n \<notin> names (stops (s_main s))) \<or> n \<in> names (starts (s_main s)))
   \<and> (\<forall>n i g. s_probes s n = Some i \<longrightarrow> s_gs s i = Some g \<longrightarrow> n \<notin> names (stops (s_main s)) \<longrightarrow>
        (\<exists>t \<in> set (s_goal s). tc_Name t = n \<and> (g_target g = t \<or> Equal digest (g_target g) t)))
   \<and> (\<forall>n i g. s_probes s n = Some i \<longrightarrow> s_gs s i = Some g \<longrightarrow> n \<in> names (stops (s_main s)) \<longrightarrow>
        \<not> (\<exists>t \<in> set (s_goal s). same_target digest (g_target g) t))
   \<and> set (starts (s_main s)) \<subseteq> set (s_goal s) \<and> distinct (map tc_Name (starts (s_main s)))
   \<and> (\<forall>t \<in> set (starts (s_main s)). s_probes s (tc_Name t) = None \<or> tc_Name t \<in> names (stops (s_main s)))"

definition stop_inv :: "'v sys \<Rightarrow> bool" where
  "stop_inv s \<longleftrightarrow> (\<forall>ns. s_main s = MCancelling ns \<longrightarrow> distinct ns \<and> set ns = dom (s_probes s))
     \<and> (s_main s \<in> {MShutdown, MStopped} \<longrightarrow> s_probes s = Map.empty)
     \<and> (s_main s = MStopped \<longrightarrow> counted s = {})"

text \<open>The counter is the number of goroutines that have not called \<^verbatim>\<open>wg.Done\<close>; those that have are returned.\<close>

definition wg_inv :: "'v sys \<Rightarrow> bool" where
  "wg_inv s \<longleftrightarrow> s_wg s = int (card (counted s)) \<and> finite (counted s)
     \<and> (\<forall>i g. s_gs s i = Some g \<longrightarrow> g_exited g \<longrightarrow> g_pc g = GDone)"

text \<open>The goroutines waited for exist and are cancelled; the jitters are durations.\<close>

definition wait_inv :: "'v sys \<Rightarrow> bool" where
  "wait_inv s \<longleftrightarrow> (\<forall>i \<in> set (waiting (s_main s)). \<exists>g. s_gs s i = Some g \<and> g_cancelled g)
     \<and> finite (dom (s_probes s)) \<and> in_int64 (s_jitter s) \<and> (\<forall>i g. s_gs s i = Some g \<longrightarrow> in_int64 (g_jitter g))"

definition sched_inv :: "digest \<Rightarrow> 'v sys \<Rightarrow> bool" where
  "sched_inv digest s \<longleftrightarrow> flight_inv s \<and> (\<not> stopping (s_main s) \<longrightarrow> plan_inv digest s) \<and> stop_inv s \<and> wait_inv s \<and> wg_inv s
     \<and> distinct (map tc_Name (s_goal s))"

lemma names_simps [simp]: "names [] = {}" "names (t # ts) = insert (tc_Name t) (names ts)"
  by (simp_all add: names_def)

lemma flight_invD:
  assumes "flight_inv s"
  shows "s_gs s i = Some g \<Longrightarrow> i < s_next s"
    and "s_gs s i = Some g \<Longrightarrow> g_pc g = GDone \<Longrightarrow> g_cancelled g"
    and "s_probes s n = Some i \<Longrightarrow> \<exists>g. s_gs s i = Some g \<and> tc_Name (g_target g) = n \<and> \<not> g_cancelled g"
    and "live s i g \<Longrightarrow> s_probes s (tc_Name (g_target g)) \<noteq> Some i \<Longrightarrow>
      g_cancelled g \<and> (i \<in> set (waiting (s_main s)) \<or> closing (s_main s))"
    and "live s i g \<Longrightarrow> live s j h \<Longrightarrow> tc_Name (g_target g) = tc_Name (g_target h) \<Longrightarrow> i = j"
  using assms unfolding flight_inv_def by blast+

lemma probes_entry:
  assumes "flight_inv s" "s_probes s n \<noteq> None"
  obtains i g where "s_probes s n = Some i" "s_gs s i = Some g" "tc_Name (g_target g) = n" "\<not> g_cancelled g"
  using assms flight_invD(3) by (metis not_None_eq)

lemma flight_invI:
  assumes "\<And>i g. s_gs s i = Some g \<Longrightarrow> i < s_next s"
    and "\<And>i g. s_gs s i = Some g \<Longrightarrow> g_pc g = GDone \<Longrightarrow> g_cancelled g"
    and "\<And>n i. s_probes s n = Some i \<Longrightarrow> \<exists>g. s_gs s i = Some g \<and> tc_Name (g_target g) = n \<and> \<not> g_cancelled g"
    and "\<And>i g. live s i g \<Longrightarrow> s_probes s (tc_Name (g_target g)) \<noteq> Some i \<Longrightarrow>
      g_cancelled g \<and> (i \<in> set (waiting (s_main s)) \<or> closing (s_main s))"
    and "\<And>i j g h. live s i g \<Longrightarrow> live s j h \<Longrightarrow> tc_Name (g_target g) = tc_Name (g_target h) \<Longrightarrow> i = j"
  shows "flight_inv s"
  unfolding flight_inv_def using assms by blast

subsection \<open>Local steps\<close>

lemma local_live:
  "local_step i s s' \<Longrightarrow> live s' j h \<Longrightarrow>
     \<exists>g. live s j g \<and> g_target g = g_target h \<and> g_cancelled g = g_cancelled h"
  by (auto simp: local_step_def live_def split: if_splits)

lemma local_gs:
  "local_step i s s' \<Longrightarrow> s_gs s' j = Some h \<Longrightarrow>
     \<exists>g. s_gs s j = Some g \<and> g_target g = g_target h \<and> g_cancelled g = g_cancelled h"
  by (auto simp: local_step_def split: if_splits)

lemma local_gs':
  "local_step i s s' \<Longrightarrow> s_gs s j = Some g \<Longrightarrow>
     \<exists>h. s_gs s' j = Some h \<and> g_target h = g_target g \<and> g_cancelled h = g_cancelled g"
  by (auto simp: local_step_def split: if_splits)

lemma local_same:
  "local_step i s s' \<Longrightarrow> s_probes s' = s_probes s \<and> s_main s' = s_main s \<and> s_next s' = s_next s \<and> s_goal s' = s_goal s"
  by (simp add: local_step_def)

lemma flight_local:
  assumes l: "local_step i s s'" and inv: "flight_inv s"
  shows "flight_inv s'"
proof (rule flight_invI)
  note same = local_same [OF l] and D = flight_invD [OF inv]
  fix j h
  show "j < s_next s'" if "s_gs s' j = Some h"
    using local_gs [OF l that] same D(1) by metis
  show "g_cancelled h" if "s_gs s' j = Some h" "g_pc h = GDone"
    using l that D(2) unfolding local_step_def by (auto split: if_splits)
  show "\<exists>g. s_gs s' j = Some g \<and> tc_Name (g_target g) = n \<and> \<not> g_cancelled g" if "s_probes s' n = Some j" for n
    using D(3) [of n j] local_gs' [OF l, of j] same that by metis
  show "g_cancelled h \<and> (j \<in> set (waiting (s_main s')) \<or> closing (s_main s'))"
    if "live s' j h" "s_probes s' (tc_Name (g_target h)) \<noteq> Some j"
    using local_live [OF l that(1)] that(2) same D(4) by metis
  show "j = k" if "live s' j h" "live s' k g" "tc_Name (g_target h) = tc_Name (g_target g)" for k g
    using local_live [OF l that(1)] local_live [OF l that(2)] that(3) D(5) by metis
qed

lemma plan_local:
  assumes "local_step i s s'" and "plan_inv digest s"
  shows "plan_inv digest s'"
  using assms(2) local_same [OF assms(1)] local_gs [OF assms(1)] unfolding plan_inv_def
  by (elim conjE, intro conjI) (auto, metis, metis)

lemma stop_local:
  assumes "local_step i s s'" and "stop_inv s"
  shows "stop_inv s'"
  using assms unfolding stop_inv_def local_step_def counted_def by (auto split: if_splits)

lemma wait_local:
  assumes "local_step i s s'" and "wait_inv s"
  shows "wait_inv s'"
proof -
  have "s_jitter s' = s_jitter s" using assms(1) by (simp add: local_step_def)
  moreover have "in_int64 (g_jitter h)" if "s_gs s' j = Some h" for j h
    using assms that unfolding wait_inv_def local_step_def by (auto split: if_splits)
  ultimately show ?thesis
    using assms(2) local_same [OF assms(1)] local_gs' [OF assms(1)] unfolding wait_inv_def by metis
qed

lemma counted_cong: "s_gs s' = s_gs s \<Longrightarrow> counted s' = counted s"
  by (simp add: counted_def)

lemma counted_local:
  "s_gs s i = Some g \<Longrightarrow> s_gs s' = (s_gs s)(i \<mapsto> g') \<Longrightarrow> \<not> g_exited g \<Longrightarrow>
     counted s' = (if g_exited g' then counted s - {i} else counted s) \<and> i \<in> counted s"
  by (auto simp: counted_def)

lemma wg_change: "wg_inv s \<Longrightarrow> s_gs s' = s_gs s \<Longrightarrow> s_wg s' = s_wg s \<Longrightarrow> wg_inv s'"
  using counted_cong [of s' s] by (simp add: wg_inv_def)

lemma wg_cancel: "wg_inv s \<Longrightarrow> s_gs s' = s_gs (cancel i s) \<Longrightarrow> s_wg s' = s_wg s \<Longrightarrow> wg_inv s'"
proof -
  assume a: "wg_inv s" "s_gs s' = s_gs (cancel i s)" "s_wg s' = s_wg s"
  then have "counted s' = counted s" by (auto simp: counted_def cancel_def)
  with a show ?thesis by (auto simp: wg_inv_def cancel_def split: if_splits)
qed

lemma wg_start:
  assumes "wg_inv s" and "s_gs s (s_next s) = None"
  shows "wg_inv ((startTarget V t s)\<lparr>s_main := m\<rparr>)" (is "wg_inv ?s'")
proof -
  have "counted ?s' = insert (s_next s) (counted s)" "s_next s \<notin> counted s"
    using assms(2) by (auto simp: counted_def startTarget_def split: if_splits)
  with assms(1) show ?thesis by (auto simp: wg_inv_def startTarget_def split: if_splits)
qed

lemma wg_local:
  assumes "local_step i s s'" and "wg_inv s"
  shows "wg_inv s'"
proof -
  from assms(1) obtain g g' where g: "s_gs s i = Some g" "s_gs s' = (s_gs s)(i \<mapsto> g')"
    "g_pc g = GDone \<longrightarrow> g_pc g' = GDone"
    "s_wg s' = s_wg s \<and> g_exited g' = g_exited g
       \<or> s_wg s' = s_wg s - 1 \<and> \<not> g_exited g \<and> g_exited g' \<and> g_pc g' = GDone"
    by (auto simp: local_step_def)
  have e: "g_pc h = GDone" if "s_gs s' j = Some h" "g_exited h" for j h
    using assms(2) that g by (auto simp: wg_inv_def split: if_splits)
  from g(4) show ?thesis
  proof
    assume a: "s_wg s' = s_wg s \<and> g_exited g' = g_exited g"
    then have "counted s' = counted s" using g(1,2) by (auto simp: counted_def)
    with a e assms(2) show ?thesis by (simp add: wg_inv_def)
  next
    assume a: "s_wg s' = s_wg s - 1 \<and> \<not> g_exited g \<and> g_exited g' \<and> g_pc g' = GDone"
    then have c: "counted s' = counted s - {i}" "i \<in> counted s" using counted_local [OF g(1,2)] by simp_all
    then have "0 < card (counted s)" using assms(2) by (auto simp: wg_inv_def card_gt_0_iff)
    with a c e assms(2) show ?thesis by (simp add: wg_inv_def of_nat_diff)
  qed
qed

lemma wg_zero: "wg_inv s \<Longrightarrow> s_wg s = 0 \<Longrightarrow> s_gs s i = Some g \<Longrightarrow> g_exited g \<and> g_pc g = GDone"
  by (auto simp: wg_inv_def counted_def)

lemma inv_local_step:
  "local_step i s s' \<Longrightarrow> sched_inv digest s \<Longrightarrow> sched_inv digest s'"
  unfolding sched_inv_def using flight_local plan_local stop_local wait_local wg_local local_same by metis

subsection \<open>Steps of the main goroutine\<close>

lemma live_cong: "s_gs s' = s_gs s \<Longrightarrow> live s' i g = live s i g"
  by (simp add: live_def)

lemma flight_change:
  assumes inv: "flight_inv s" and same: "s_gs s' = s_gs s" "s_probes s' = s_probes s" "s_next s' = s_next s"
    and w: "\<And>i g. live s i g \<Longrightarrow> i \<in> set (waiting (s_main s)) \<or> closing (s_main s) \<Longrightarrow>
      i \<in> set (waiting (s_main s')) \<or> closing (s_main s')"
  shows "flight_inv s'"
proof (rule flight_invI)
  note D = flight_invD [OF inv] and [simp] = same live_cong [OF same(1)]
  fix i j g h
  show "s_gs s' i = Some g \<Longrightarrow> i < s_next s'" using D(1) by simp
  show "s_gs s' i = Some g \<Longrightarrow> g_pc g = GDone \<Longrightarrow> g_cancelled g" using D(2) by simp
  show "s_probes s' n = Some i \<Longrightarrow> \<exists>g. s_gs s' i = Some g \<and> tc_Name (g_target g) = n \<and> \<not> g_cancelled g" for n
    using D(3) by simp
  show "g_cancelled g \<and> (i \<in> set (waiting (s_main s')) \<or> closing (s_main s'))"
    if "live s' i g" "s_probes s' (tc_Name (g_target g)) \<noteq> Some i"
    using that D(4) [of i g] w [of i g] by simp
  show "live s' i g \<Longrightarrow> live s' j h \<Longrightarrow> tc_Name (g_target g) = tc_Name (g_target h) \<Longrightarrow> i = j"
    using D(5) by simp
qed

lemma flight_remove:
  assumes inv: "flight_inv s" and p: "s_probes s n = Some k"
    and s': "s_gs s' = s_gs (cancel k s)" "s_probes s' = (s_probes s)(n := None)" "s_next s' = s_next s"
    and w: "set (waiting (s_main s)) \<subseteq> set (waiting (s_main s'))"
      "closing (s_main s) \<longrightarrow> closing (s_main s')"
      "k \<in> set (waiting (s_main s')) \<or> closing (s_main s')"
  shows "flight_inv s'"
proof (rule flight_invI)
  note D = flight_invD [OF inv]
  obtain gk where gk: "s_gs s k = Some gk" "tc_Name (g_target gk) = n" "\<not> g_cancelled gk"
    using D(3) [OF p] by blast
  have gs: "s_gs s' = (s_gs s)(k \<mapsto> gk\<lparr>g_cancelled := True\<rparr>)" by (simp add: s' cancel_def gk)
  have old: "\<exists>h. live s i h \<and> g_target h = g_target g \<and> (i \<noteq> k \<longrightarrow> h = g)" if "live s' i g" for i g
    using that gk by (auto simp: live_def gs split: if_splits)
  fix i j g h
  show "s_gs s' i = Some g \<Longrightarrow> i < s_next s'" using D(1) gk by (auto simp: gs s'(3) split: if_splits)
  show "s_gs s' i = Some g \<Longrightarrow> g_pc g = GDone \<Longrightarrow> g_cancelled g" using D(2) by (auto simp: gs split: if_splits)
  show "\<exists>g. s_gs s' i = Some g \<and> tc_Name (g_target g) = m \<and> \<not> g_cancelled g" if "s_probes s' m = Some i" for m
  proof -
    from that have m: "m \<noteq> n" "s_probes s m = Some i" by (auto simp: s' split: if_splits)
    from D(3) [OF m(2)] gk(1,2) m(1) have "i \<noteq> k" by auto
    with D(3) [OF m(2)] show ?thesis by (simp add: gs)
  qed
  show "g_cancelled g \<and> (i \<in> set (waiting (s_main s')) \<or> closing (s_main s'))"
    if "live s' i g" "s_probes s' (tc_Name (g_target g)) \<noteq> Some i"
  proof (cases "i = k")
    case True
    with that(1) w(3) show ?thesis by (auto simp: live_def gs)
  next
    case False
    with old [OF that(1)] have l: "live s i g" by blast
    have "s_probes s (tc_Name (g_target g)) \<noteq> Some i"
      using that(2) False p by (auto simp: s' split: if_splits)
    from D(4) [OF l this] w(1,2) show ?thesis by blast
  qed
  show "i = j" if "live s' i g" "live s' j h" "tc_Name (g_target g) = tc_Name (g_target h)"
    using old [OF that(1)] old [OF that(2)] that(3) D(5) by metis
qed

lemma flight_start:
  assumes inv: "flight_inv s" and m: "s_main s = MStarting (t # ts)" and new: "s_probes s (tc_Name t) = None"
  shows "flight_inv ((startTarget V t s)\<lparr>s_main := MStarting ts\<rparr>)" (is "flight_inv ?s'")
proof (rule flight_invI)
  note D = flight_invD [OF inv]
  let ?g = "\<lparr>g_target = t, g_cancelled = False, g_jitter = s_jitter s, g_state = new_state, g_pc = GJitter,
    g_exited = False\<rparr>"
  have f: "s_gs ?s' = (s_gs s)(s_next s \<mapsto> ?g)" "s_probes ?s' = (s_probes s)(tc_Name t \<mapsto> s_next s)"
    "s_next ?s' = Suc (s_next s)" "s_main ?s' = MStarting ts"
    by (simp_all add: startTarget_def)
  have fresh: "i \<noteq> s_next s" if "s_gs s i = Some g" for i g using D(1) [OF that] by simp
  have noname: "tc_Name (g_target g) \<noteq> tc_Name t" if "live s i g" for i g
    using D(4) [OF that] new m by auto
  have cases: "(i = s_next s \<and> g = ?g) \<or> (i \<noteq> s_next s \<and> live s i g)" if "live ?s' i g" for i g
    using that by (auto simp: live_def f split: if_splits)
  fix i j g h
  show "s_gs ?s' i = Some g \<Longrightarrow> i < s_next ?s'" using D(1) by (fastforce simp: f split: if_splits)
  show "s_gs ?s' i = Some g \<Longrightarrow> g_pc g = GDone \<Longrightarrow> g_cancelled g"
    using D(2) by (auto simp: f split: if_splits)
  show "\<exists>g. s_gs ?s' i = Some g \<and> tc_Name (g_target g) = n \<and> \<not> g_cancelled g" if "s_probes ?s' n = Some i" for n
  proof (cases "n = tc_Name t")
    case True
    with that show ?thesis by (auto simp: f)
  next
    case False
    with that D(3) [of n i] fresh show ?thesis by (auto simp: f)
  qed
  show "g_cancelled g \<and> (i \<in> set (waiting (s_main ?s')) \<or> closing (s_main ?s'))"
    if "live ?s' i g" "s_probes ?s' (tc_Name (g_target g)) \<noteq> Some i"
  proof -
    have "live s i g" "s_probes s (tc_Name (g_target g)) \<noteq> Some i"
      using cases [OF that(1)] that(2) by (auto simp: f dest: noname)
    from D(4) [OF this] m show ?thesis by (simp add: f)
  qed
  show "i = j" if "live ?s' i g" "live ?s' j h" "tc_Name (g_target g) = tc_Name (g_target h)"
    using cases [OF that(1)] cases [OF that(2)] that(3) by (auto dest: noname D(5))
qed

lemma plan_invD:
  assumes "plan_inv digest s"
  shows "n \<in> names (s_goal s) \<longleftrightarrow>
      (s_probes s n \<noteq> None \<and> n \<notin> names (stops (s_main s))) \<or> n \<in> names (starts (s_main s))"
    and "s_probes s n = Some i \<Longrightarrow> s_gs s i = Some g \<Longrightarrow> n \<notin> names (stops (s_main s)) \<Longrightarrow>
      \<exists>t \<in> set (s_goal s). tc_Name t = n \<and> (g_target g = t \<or> Equal digest (g_target g) t)"
    and "s_probes s n = Some i \<Longrightarrow> s_gs s i = Some g \<Longrightarrow> n \<in> names (stops (s_main s)) \<Longrightarrow>
      \<not> (\<exists>t \<in> set (s_goal s). same_target digest (g_target g) t)"
    and "set (starts (s_main s)) \<subseteq> set (s_goal s)" "distinct (map tc_Name (starts (s_main s)))"
    and "t \<in> set (starts (s_main s)) \<Longrightarrow> s_probes s (tc_Name t) = None \<or> tc_Name t \<in> names (stops (s_main s))"
  using assms unfolding plan_inv_def by blast+

lemma plan_invI:
  assumes "\<And>n. n \<in> names (s_goal s) \<longleftrightarrow>
      (s_probes s n \<noteq> None \<and> n \<notin> names (stops (s_main s))) \<or> n \<in> names (starts (s_main s))"
    and "\<And>n i g. s_probes s n = Some i \<Longrightarrow> s_gs s i = Some g \<Longrightarrow> n \<notin> names (stops (s_main s)) \<Longrightarrow>
      \<exists>t \<in> set (s_goal s). tc_Name t = n \<and> (g_target g = t \<or> Equal digest (g_target g) t)"
    and "\<And>n i g. s_probes s n = Some i \<Longrightarrow> s_gs s i = Some g \<Longrightarrow> n \<in> names (stops (s_main s)) \<Longrightarrow>
      \<not> (\<exists>t \<in> set (s_goal s). same_target digest (g_target g) t)"
    and "set (starts (s_main s)) \<subseteq> set (s_goal s)" "distinct (map tc_Name (starts (s_main s)))"
    and "\<And>t. t \<in> set (starts (s_main s)) \<Longrightarrow> s_probes s (tc_Name t) = None \<or> tc_Name t \<in> names (stops (s_main s))"
  shows "plan_inv digest s"
  unfolding plan_inv_def using assms by blast

lemma plan_change:
  assumes "plan_inv digest s" "s_gs s' = s_gs s" "s_probes s' = s_probes s" "s_goal s' = s_goal s"
    "stops (s_main s') = stops (s_main s)" "starts (s_main s') = starts (s_main s)"
  shows "plan_inv digest s'"
  using assms unfolding plan_inv_def by simp

lemma stop_one_main:
  "s_goal (stop_one V t ts w st s) = s_goal s \<and> (\<exists>w'. s_main (stop_one V t ts w st s) = MStopping ts w' st)"
  by (auto simp: stop_one_def cancel_def Let_def split: option.splits)

lemma plan_stop:
  assumes inv: "plan_inv digest s" "flight_inv s" and m: "s_main s = MStopping (t # ts) w st"
  shows "plan_inv digest (stop_one V t ts w st s)" (is "plan_inv digest ?s'")
proof -
  note D = plan_invD [OF inv(1), unfolded m]
  have p: "s_probes ?s' = (s_probes s)(tc_Name t := None)" "s_goal ?s' = s_goal s"
    "stops (s_main ?s') = ts" "starts (s_main ?s') = st"
    by (auto simp: stop_one_def cancel_def Let_def split: option.splits)
  have gs: "\<exists>h. s_gs s i = Some h \<and> g_target h = g_target g" if "s_gs ?s' i = Some g" for i g
    using that by (auto simp: stop_one_def cancel_def Let_def split: option.splits if_splits)
  show ?thesis
  proof (rule plan_invI, unfold p)
    show "n \<in> names (s_goal s) \<longleftrightarrow>
        (((s_probes s)(tc_Name t := None)) n \<noteq> None \<and> n \<notin> names ts) \<or> n \<in> names st" for n
      using D(1) [of n] by auto
    show "\<exists>u \<in> set (s_goal s). tc_Name u = n \<and> (g_target g = u \<or> Equal digest (g_target g) u)"
      if "((s_probes s)(tc_Name t := None)) n = Some i" "s_gs ?s' i = Some g" "n \<notin> names ts" for n i g
      using that gs [OF that(2)] D(2) [of n i] by (auto split: if_splits)
    show "\<not> (\<exists>u \<in> set (s_goal s). same_target digest (g_target g) u)"
      if "((s_probes s)(tc_Name t := None)) n = Some i" "s_gs ?s' i = Some g" "n \<in> names ts" for n i g
      using that gs [OF that(2)] D(3) [of n i] by (auto split: if_splits)
    show "set st \<subseteq> set (s_goal s)" "distinct (map tc_Name st)" using D(4,5) by auto
    show "((s_probes s)(tc_Name t := None)) (tc_Name u) = None \<or> tc_Name u \<in> names ts" if "u \<in> set st" for u
      using that D(6) [of u] by auto
  qed
qed

lemma plan_start:
  assumes inv: "plan_inv digest s" "flight_inv s" and m: "s_main s = MStarting (t # ts)"
  shows "plan_inv digest ((startTarget V t s)\<lparr>s_main := MStarting ts\<rparr>)" (is "plan_inv digest ?s'")
proof -
  note D = plan_invD [OF inv(1), unfolded m, simplified]
  have p: "s_probes ?s' = (s_probes s)(tc_Name t \<mapsto> s_next s)" "s_goal ?s' = s_goal s" "s_main ?s' = MStarting ts"
    by (simp_all add: startTarget_def)
  have new: "\<exists>g. s_gs ?s' (s_next s) = Some g \<and> g_target g = t" by (simp add: startTarget_def)
  have old: "i \<noteq> s_next s \<and> s_gs ?s' i = s_gs s i" if "s_probes s n = Some i" for n i
    using flight_invD(1,3) [OF inv(2)] that by (fastforce simp: startTarget_def)
  show ?thesis
  proof (rule plan_invI, unfold p stops.simps starts.simps names_simps)
    show "n \<in> names (s_goal s) \<longleftrightarrow>
        (((s_probes s)(tc_Name t \<mapsto> s_next s)) n \<noteq> None \<and> n \<notin> {}) \<or> n \<in> names ts" for n
      using D(1) [of n] by auto
    show "\<exists>u \<in> set (s_goal s). tc_Name u = n \<and> (g_target g = u \<or> Equal digest (g_target g) u)"
      if "((s_probes s)(tc_Name t \<mapsto> s_next s)) n = Some i" "s_gs ?s' i = Some g" for n i g
    proof (cases "n = tc_Name t")
      case True
      with that new D(4) show ?thesis by auto
    next
      case False
      with that old [of n i] D(2) [of n i g] show ?thesis by simp
    qed
    show "set ts \<subseteq> set (s_goal s)" "distinct (map tc_Name ts)" using D(4,5) by auto
    show "((s_probes s)(tc_Name t \<mapsto> s_next s)) (tc_Name u) = None \<or> tc_Name u \<in> {}" if "u \<in> set ts" for u
    proof -
      have "tc_Name u \<noteq> tc_Name t" using D(5) that by (metis image_eqI)
      with that D(6) [of u] show ?thesis by auto
    qed
  qed simp_all
qed

lemma plan_reload:
  assumes inv: "flight_inv s" and run: "running_targets s old" and new: "distinct (map tc_Name new)"
    and d: "diffTargets digest old new = (stop, start, unchanged)" and p: "mset toStop = mset stop" "mset toStart = mset start"
  shows "plan_inv digest (s\<lparr>s_main := MStopping toStop [] toStart, s_goal := new, s_jitter := j\<rparr>)"
    (is "plan_inv digest ?s'")
proof -
  have f: "s_main ?s' = MStopping toStop [] toStart" "s_goal ?s' = new" "s_probes ?s' = s_probes s" "s_gs ?s' = s_gs s"
    by simp_all
  have old: "distinct (map tc_Name old)" using run by (simp add: running_targets_def)
  note diff = diffTargets_sets [OF old new d]
  have sets: "set toStop = set stop" "set toStart = set start"
    using mset_eq_setD [OF p(1)] mset_eq_setD [OF p(2)] by simp_all
  have "mset (map tc_Name toStart) = mset (map tc_Name start)" using p(2) by simp
  with diff(4) have dist: "distinct (map tc_Name toStart)" by (metis mset_eq_imp_distinct_iff)
  have run1: "g_target g \<in> set old \<and> tc_Name (g_target g) = n" if "s_probes s n = Some i" "s_gs s i = Some g" for n i g
    using run flight_invD(3) [OF inv that(1)] that by (auto simp: running_targets_def)
  have run2: "\<exists>i g. s_probes s (tc_Name u) = Some i \<and> s_gs s i = Some g \<and> u = g_target g" if "u \<in> set old" for u
    using run that flight_invD(3) [OF inv] unfolding running_targets_def by fastforce
  have uold: "u = u'" if "u \<in> set old" "u' \<in> set old" "tc_Name u = tc_Name u'" for u u'
    using old that by (metis distinct_map inj_onD)
  have unew: "t = t'" if "t \<in> set new" "t' \<in> set new" "tc_Name t = tc_Name t'" for t t'
    using new that by (metis distinct_map inj_onD)
  have stops: "u \<in> set toStop \<longleftrightarrow> u \<in> set old \<and> \<not> (\<exists>t \<in> set new. same_target digest u t)" for u
    using diff(1) sets(1) by simp
  have starts: "t \<in> set toStart \<longleftrightarrow> t \<in> set new \<and> \<not> (\<exists>u \<in> set old. same_target digest u t)" for t
    using diff(2) sets(2) by simp
  have kept: "n \<notin> names toStop \<longleftrightarrow> (\<exists>t \<in> set new. same_target digest u t)" if "u \<in> set old" "tc_Name u = n" for u n
    using stops that uold unfolding names_def by (metis (no_types, lifting) imageE imageI)
  show ?thesis
  proof (rule plan_invI, unfold f stops.simps starts.simps)
    show "(n \<in> names new) = ((s_probes s n \<noteq> None \<and> n \<notin> names toStop) \<or> n \<in> names toStart)" for n
    proof
      assume "n \<in> names new"
      then obtain t where t: "t \<in> set new" "tc_Name t = n" by (auto simp: names_def)
      show "(s_probes s n \<noteq> None \<and> n \<notin> names toStop) \<or> n \<in> names toStart"
      proof (cases "t \<in> set toStart")
        case False
        then obtain u where u: "u \<in> set old" "same_target digest u t" using t(1) starts by blast
        then have "tc_Name u = n" using t by (simp add: same_target_def)
        with run2 [OF u(1)] kept [OF u(1)] t(1) u(2) show ?thesis by auto
      qed (use t in \<open>auto simp: names_def\<close>)
    next
      assume "(s_probes s n \<noteq> None \<and> n \<notin> names toStop) \<or> n \<in> names toStart"
      then show "n \<in> names new"
      proof
        assume "s_probes s n \<noteq> None \<and> n \<notin> names toStop"
        then obtain i g where g: "s_probes s n = Some i" "s_gs s i = Some g" "n \<notin> names toStop"
          using flight_invD(3) [OF inv] by blast
        from run1 [OF g(1,2)] kept [of "g_target g" n] g(3)
        obtain t where "t \<in> set new" "same_target digest (g_target g) t" "tc_Name (g_target g) = n" by blast
        then show ?thesis by (auto simp: names_def same_target_def image_iff)
      next
        assume "n \<in> names toStart"
        then show ?thesis using starts by (auto simp: names_def)
      qed
    qed
    show "\<exists>t \<in> set new. tc_Name t = n \<and> (g_target g = t \<or> Equal digest (g_target g) t)"
      if "s_probes s n = Some i" "s_gs s i = Some g" "n \<notin> names toStop" for n i g
      using run1 [OF that(1,2)] kept [of "g_target g" n] that(3) by (auto simp: same_target_def)
    show "\<not> (\<exists>t \<in> set new. same_target digest (g_target g) t)"
      if "s_probes s n = Some i" "s_gs s i = Some g" "n \<in> names toStop" for n i g
      using run1 [OF that(1,2)] kept [of "g_target g" n] that(3) by blast
    show "set toStart \<subseteq> set new" "distinct (map tc_Name toStart)" using starts dist by auto
    show "s_probes s (tc_Name t) = None \<or> tc_Name t \<in> names toStop" if "t \<in> set toStart" for t
    proof (rule ccontr)
      assume "\<not> ?thesis"
      then have n: "s_probes s (tc_Name t) \<noteq> None" "tc_Name t \<notin> names toStop" by simp_all
      obtain i g where g: "s_probes s (tc_Name t) = Some i" "s_gs s i = Some g"
        by (rule probes_entry [OF inv n(1)])
      from run1 [OF g(1,2)] kept [of "g_target g" "tc_Name t"] n(2)
      obtain t' where t': "t' \<in> set new" "same_target digest (g_target g) t'" by blast
      then have "tc_Name t' = tc_Name t" using run1 [OF g(1,2)] by (simp add: same_target_def)
      with unew [of t' t] t'(1) starts that have "t' = t" by blast
      with starts [of t] that t'(2) run1 [OF g(1,2)] show False by blast
    qed
  qed
qed

lemma inv_main_change:
  assumes "sched_inv digest s"
    and "\<And>i g. live s i g \<Longrightarrow> i \<in> set (waiting (s_main s)) \<or> closing (s_main s) \<Longrightarrow>
      i \<in> set (waiting m) \<or> closing m"
    and "stopping m \<or> (\<not> stopping (s_main s) \<and> stops m = stops (s_main s) \<and> starts m = starts (s_main s))"
    and "stop_inv (s\<lparr>s_main := m\<rparr>)" and "set (waiting m) \<subseteq> set (waiting (s_main s))"
  shows "sched_inv digest (s\<lparr>s_main := m\<rparr>)"
proof -
  have "flight_inv (s\<lparr>s_main := m\<rparr>)"
    by (rule flight_change [of s]) (use assms(1,2) in \<open>auto simp: sched_inv_def\<close>)
  moreover have "plan_inv digest (s\<lparr>s_main := m\<rparr>)" if "\<not> stopping m"
    by (rule plan_change [of digest s]) (use assms(1,3) that in \<open>auto simp: sched_inv_def\<close>)
  moreover have "wait_inv (s\<lparr>s_main := m\<rparr>)" using assms(1,5) by (auto simp: sched_inv_def wait_inv_def)
  moreover have "wg_inv (s\<lparr>s_main := m\<rparr>)" by (rule wg_change [of s]) (use assms(1) in \<open>auto simp: sched_inv_def\<close>)
  ultimately show ?thesis using assms(1,4) by (simp add: sched_inv_def)
qed

lemma inv_main_step: "main_step V digest s s' \<Longrightarrow> sched_inv digest s \<Longrightarrow> sched_inv digest s'"
proof (induction rule: main_step.induct)
  case (Reload_begin s old new stop start unchanged toStop toStart jitter)
  then have i: "flight_inv s" by (simp add: sched_inv_def)
  have "flight_inv (s\<lparr>s_main := MStopping toStop [] toStart, s_goal := new, s_jitter := jitter\<rparr>)"
    using Reload_begin(1) by (intro flight_change [OF i]) auto
  moreover have "wg_inv (s\<lparr>s_main := MStopping toStop [] toStart, s_goal := new, s_jitter := jitter\<rparr>)"
    by (rule wg_change [of s]) (use Reload_begin(8) in \<open>simp_all add: sched_inv_def\<close>)
  ultimately show ?case using plan_reload [OF i Reload_begin(2-6)] Reload_begin(3,7,8)
    by (simp add: sched_inv_def stop_inv_def wait_inv_def)
next
  case (Reload_stop s t ts w st)
  then have i: "flight_inv s" "plan_inv digest s" by (simp_all add: sched_inv_def stopping_def)
  have "flight_inv (stop_one V t ts w st s)"
  proof (cases "s_probes s (tc_Name t)")
    case None
    then show ?thesis using i(1) Reload_stop(1) by (auto simp: stop_one_def intro: flight_change)
  next
    case (Some k)
    then show ?thesis using Reload_stop(1)
      by (intro flight_remove [OF i(1) Some]) (auto simp: stop_one_def cancel_def)
  qed
  moreover have "plan_inv digest (stop_one V t ts w st s)" by (rule plan_stop [OF i(2,1) Reload_stop(1)])
  moreover note stop_one_main [of V t ts w st s]
  moreover have "wait_inv (stop_one V t ts w st s)"
    using Reload_stop flight_invD(3) [OF i(1)]
    by (fastforce simp: sched_inv_def wait_inv_def stop_one_def cancel_def Let_def split: option.splits if_splits)
  moreover have "wg_inv (stop_one V t ts w st s)"
  proof (cases "s_probes s (tc_Name t)")
    case None
    show ?thesis by (rule wg_change [of s]) (use Reload_stop None in \<open>simp_all add: sched_inv_def stop_one_def\<close>)
  next
    case (Some k)
    show ?thesis
      by (rule wg_cancel [of s _ k]) (use Reload_stop Some in \<open>simp_all add: sched_inv_def stop_one_def cancel_def\<close>)
  qed
  ultimately show ?case using Reload_stop by (auto simp: sched_inv_def stop_inv_def)
next
  case (Start_one s t ts)
  then have i: "flight_inv s" "plan_inv digest s" by (simp_all add: sched_inv_def stopping_def)
  have "s_probes s (tc_Name t) = None" using plan_invD(6) [OF i(2), of t] Start_one(1) by simp
  note fl = flight_start [OF i(1) Start_one(1) this]
  have "s_gs s (s_next s) = None" using flight_invD(1) [OF i(1), of "s_next s"] by fastforce
  then have "wg_inv ((startTarget V t s)\<lparr>s_main := MStarting ts\<rparr>)"
    using Start_one(2) by (simp add: wg_start sched_inv_def)
  with fl plan_start [OF i(2,1) Start_one(1)] Start_one show ?case
    by (auto simp: sched_inv_def stop_inv_def wait_inv_def startTarget_def)
next
  case (Stop_one s n ns i)
  let ?s' = "(cancel i s)\<lparr>s_probes := (s_probes s)(n := None), s_main := MCancelling ns\<rparr>"
  have i: "flight_inv s" "stop_inv s" "wg_inv s" using Stop_one(3) by (simp_all add: sched_inv_def)
  have "flight_inv ?s'"
    by (rule flight_remove [OF i(1) Stop_one(2)]) (simp_all add: Stop_one(1) cancel_def)
  moreover have "wg_inv ?s'" by (rule wg_cancel [OF i(3), of _ i]) (simp_all add: cancel_def)
  moreover have "stop_inv ?s'" using i(2) Stop_one(1) by (auto simp: stop_inv_def)
  ultimately show ?case using Stop_one
    by (auto simp: sched_inv_def wait_inv_def stopping_def cancel_def intro: finite_subset)
next
  case (Stop_wait s)
  then have "dom (s_probes s) = {}" by (simp add: sched_inv_def stop_inv_def)
  then have "s_probes s = Map.empty" by simp
  with Stop_wait show ?case by (intro inv_main_change) (auto simp: stop_inv_def stopping_def)
next
  case (Stop_end s)
  then have "s_probes s = Map.empty" "wg_inv s" by (simp_all add: sched_inv_def stop_inv_def)
  with Stop_end wg_zero show ?case
    by (intro inv_main_change) (auto simp: stop_inv_def stopping_def live_def counted_def)
qed (rule inv_main_change; simp add: stop_inv_def stopping_def; (auto simp: live_def)?)+

lemma reachable_inv: "reachable V digest s \<Longrightarrow> sched_inv digest s"
proof (induction rule: reachable.induct)
  case (reach_init ts jitter e)
  then show ?case
    by (simp add: sched_inv_def init_sys_def flight_inv_def live_def plan_inv_def stop_inv_def stopping_def
        wait_inv_def wg_inv_def counted_def)
next
  case (reach_step s s')
  then show ?case by (metis step.cases inv_main_step inv_local_step go_step_local)
qed

lemmas reachable_flight = reachable_inv [unfolded sched_inv_def, THEN conjunct1]

section \<open>Progress\<close>

text \<open>How many steps a cancelled goroutine needs at most to return.\<close>

fun rank :: "gpc \<Rightarrow> nat" where
  "rank GDone = 0"
| "rank GIdle = 1"
| "rank GDrain = 2"
| "rank GJitter = 1"
| "rank GDelay = 1"
| "rank _ = 3"

text \<open>\<open>s'\<close> differs from \<open>s\<close> in goroutine \<open>i\<close>, which stays cancelled, and in the metrics only.\<close>

definition only_go :: "nat \<Rightarrow> 'v sys \<Rightarrow> 'v sys \<Rightarrow> bool" where
  "only_go i s s' \<longleftrightarrow>
     s_probes s' = s_probes s \<and> s_main s' = s_main s \<and> s_next s' = s_next s \<and> s_goal s' = s_goal s
   \<and> s_jitter s' = s_jitter s \<and> s_wg s' = s_wg s \<and> (\<forall>j. j \<noteq> i \<longrightarrow> s_gs s' j = s_gs s j)"

lemma only_go_refl [simp]: "only_go i s s"
  by (simp add: only_go_def)

lemma only_go_trans: "only_go i s s' \<Longrightarrow> only_go i s' s'' \<Longrightarrow> only_go i s s''"
  by (simp add: only_go_def)

lemma rand0: "in_int64 j \<Longrightarrow> randomInitialProbeDelay (\<lambda>_. 0) j = Some 0"
  by (auto simp: randomInitialProbeDelay_def Int64N_def in_int64_def int64_def)

lemma cancelled_progress:
  assumes g: "s_gs s i = Some g" "g_cancelled g" "g_pc g \<noteq> GDone" "in_int64 (g_jitter g)"
  shows "\<exists>s' g'. go_step V i s s' \<and> only_go i s s' \<and> s_gs s' i = Some g' \<and> g_cancelled g'
    \<and> g_jitter g' = g_jitter g \<and> g_exited g' = g_exited g \<and> rank (g_pc g') < rank (g_pc g)"
proof -
  let ?goal = "\<lambda>s'. go_step V i s s' \<and> only_go i s s' \<and> (\<exists>g'. s_gs s' i = Some g' \<and> g_cancelled g'
    \<and> g_jitter g' = g_jitter g \<and> g_exited g' = g_exited g \<and> rank (g_pc g') < rank (g_pc g))"
  have fin: "?goal (set_pc i pc s)" if "go_step V i s (set_pc i pc s)" "rank pc < rank (g_pc g)" for pc
    using that g by (simp add: set_pc_def only_go_def)
  have "\<exists>s'. ?goal s'"
  proof (cases "g_pc g")
    case GJitter
    from Jitter_none [OF g(1) GJitter _ rand0 [OF g(4)]] g(2) have "go_step V i s (set_pc i GDone s)"
      by (simp add: rand_ok_def)
    with fin GJitter show ?thesis by fastforce
  next
    case GDelay
    with fin Delay_cancelled [OF g(1) GDelay g(2)] show ?thesis by fastforce
  next
    case (GStart f)
    with fin Probe_skipped [OF g(1) GStart g(2)] show ?thesis by (fastforce simp: after_probe_def)
  next
    case (GProbing f)
    with fin Probe_discarded [OF g(1) GProbing g(2)] show ?thesis by (fastforce simp: after_probe_def)
  next
    case (GChecked f r)
    from Probe_record [OF g(1) GChecked] g GChecked show ?thesis
      by (intro exI [of _ "(upd i (\<lambda>g. g\<lparr>g_pc := after_probe f, g_state := snd (logProbeResult r (g_state g))\<rparr>) s)
        \<lparr>s_exp := Record V (g_target g) r (s_exp s)\<rparr>"]) (simp add: only_go_def after_probe_def)
  next
    case GIdle
    with fin Loop_cancelled [OF g(1) GIdle g(2)] show ?thesis by fastforce
  next
    case GDrain
    with fin Drain_none [OF g(1) GDrain] show ?thesis by fastforce
  qed (use g(3) in simp)
  then show ?thesis by blast
qed

lemma cancelled_returns:
  assumes "s_gs s i = Some g" "g_cancelled g" "in_int64 (g_jitter g)"
  shows "\<exists>s' g'. (step V digest)\<^sup>*\<^sup>* s s' \<and> only_go i s s' \<and> s_gs s' i = Some g' \<and> g_cancelled g' \<and> g_pc g' = GDone
    \<and> g_exited g' = g_exited g"
  using assms
proof (induction "rank (g_pc g)" arbitrary: s g rule: less_induct)
  case less
  show ?case
  proof (cases "g_pc g = GDone")
    case True
    with less.prems show ?thesis by (intro exI [of _ s] exI [of _ g]) simp
  next
    case False
    from cancelled_progress [OF less.prems(1,2) False less.prems(3)] obtain s1 g1 where
      1: "go_step V i s s1" "only_go i s s1" "s_gs s1 i = Some g1" "g_cancelled g1" "g_jitter g1 = g_jitter g" "g_exited g1 = g_exited g"
         "rank (g_pc g1) < rank (g_pc g)" by blast
    from less.hyps [OF 1(7,3,4)] 1(5,6) less.prems(3) obtain s2 g2 where
      2: "(step V digest)\<^sup>*\<^sup>* s1 s2" "only_go i s1 s2" "s_gs s2 i = Some g2" "g_cancelled g2" "g_pc g2 = GDone"
         "g_exited g2 = g_exited g" by auto
    have "(step V digest)\<^sup>*\<^sup>* s s2" using step_go [OF 1(1)] 2(1) by (rule converse_rtranclp_into_rtranclp)
    with 2 only_go_trans [OF 1(2) 2(2)] show ?thesis by blast
  qed
qed

lemma inv_steps: "(step V digest)\<^sup>*\<^sup>* s s' \<Longrightarrow> sched_inv digest s \<Longrightarrow> sched_inv digest s'"
proof (induction rule: rtranclp_induct)
  case (step y z)
  then show ?case by (metis step.cases inv_main_step inv_local_step go_step_local)
qed

text \<open>From \<open>s\<close> the scheduler can come to rest in the state \<open>m\<close> of the main goroutine.\<close>

definition can_settle :: "'v vec_ops \<Rightarrow> digest \<Rightarrow> mpc \<Rightarrow> 'v sys \<Rightarrow> bool" where
  "can_settle V digest m s \<longleftrightarrow> (\<exists>s'. (step V digest)\<^sup>*\<^sup>* s s' \<and> s_main s' = m \<and> s_goal s' = s_goal s)"

lemma settle_step:
  "step V digest s s1 \<Longrightarrow> s_goal s1 = s_goal s \<Longrightarrow> can_settle V digest m s1 \<Longrightarrow> can_settle V digest m s"
  unfolding can_settle_def by (metis converse_rtranclp_into_rtranclp)

lemma settle_steps:
  "(step V digest)\<^sup>*\<^sup>* s s1 \<Longrightarrow> s_goal s1 = s_goal s \<Longrightarrow> can_settle V digest m s1 \<Longrightarrow> can_settle V digest m s"
  unfolding can_settle_def by (metis rtranclp_trans)

lemma settle_here: "s_main s = m \<Longrightarrow> can_settle V digest m s"
  unfolding can_settle_def by blast

lemma settle_starting: "s_main s = MStarting ts \<Longrightarrow> can_settle V digest MIdle s"
proof (induction ts arbitrary: s)
  case Nil
  show ?case
    by (rule settle_step [OF step_main [OF Start_end [OF Nil]]]) (simp_all add: settle_here)
next
  case (Cons t ts)
  show ?case
    by (rule settle_step [OF step_main [OF Start_one [OF Cons.prems]]]) (simp_all add: Cons.IH startTarget_def)
qed

lemma settle_waiting:
  "s_main s = MWaiting w st \<Longrightarrow> sched_inv digest s \<Longrightarrow> can_settle V digest MIdle s"
proof (induction w arbitrary: s)
  case Nil
  show ?case
    by (rule settle_step [OF step_main [OF Reload_start [OF Nil(1)]]]) (simp_all add: settle_starting)
next
  case (Cons i w)
  then have "wait_inv s" by (simp add: sched_inv_def)
  with Cons.prems(1) obtain g where g: "s_gs s i = Some g" "g_cancelled g" "in_int64 (g_jitter g)"
    unfolding wait_inv_def by fastforce
  from cancelled_returns [OF g] obtain s1 g1 where
    1: "(step V digest)\<^sup>*\<^sup>* s s1" "only_go i s s1" "s_gs s1 i = Some g1" "g_cancelled g1" "g_pc g1 = GDone" by blast
  have m: "s_main s1 = MWaiting (i # w) st" "s_goal s1 = s_goal s" using 1(2) Cons.prems(1) by (simp_all add: only_go_def)
  note go = Reload_done [OF m(1) 1(3,5)]
  have "sched_inv digest (s1\<lparr>s_main := MWaiting w st\<rparr>)"
    by (rule inv_main_step [OF go inv_steps [OF 1(1) Cons.prems(2)]])
  then have "can_settle V digest MIdle s1"
    by (intro settle_step [OF step_main [OF go]] Cons.IH) simp_all
  with 1(1) m(2) show ?case by (rule settle_steps)
qed

lemma settle_stopping:
  "s_main s = MStopping ts w st \<Longrightarrow> sched_inv digest s \<Longrightarrow> can_settle V digest MIdle s"
proof (induction ts arbitrary: s w)
  case Nil
  note go = Reload_wait [OF Nil(1)]
  show ?case
    by (rule settle_step [OF step_main [OF go]]) (simp_all add: settle_waiting inv_main_step [OF go Nil(2)])
next
  case (Cons t ts)
  note go = Reload_stop [OF Cons.prems(1)]
  obtain w' where w': "s_main (stop_one V t ts w st s) = MStopping ts w' st" "s_goal (stop_one V t ts w st s) = s_goal s"
    using stop_one_main by blast
  show ?case
    by (rule settle_step [OF step_main [OF go] w'(2) Cons.IH [OF w'(1)]]) (rule inv_main_step [OF go Cons.prems(2)])
qed

text \<open>A cancelled goroutine can return and count itself off.\<close>

lemma cancelled_exits:
  assumes "s_gs s i = Some g" "g_cancelled g" "in_int64 (g_jitter g)" "\<not> g_exited g"
  shows "\<exists>s'. (step V digest)\<^sup>*\<^sup>* s s' \<and> counted s' = counted s - {i} \<and> s_main s' = s_main s \<and> s_goal s' = s_goal s"
proof -
  from cancelled_returns [OF assms(1-3)] assms(4) obtain s1 g1 where
    1: "(step V digest)\<^sup>*\<^sup>* s s1" "only_go i s s1" "s_gs s1 i = Some g1" "g_pc g1 = GDone" "\<not> g_exited g1" by blast
  let ?s2 = "(upd i (\<lambda>g. g\<lparr>g_exited := True\<rparr>) s1)\<lparr>s_wg := s_wg s1 - 1\<rparr>"
  have "j \<in> counted ?s2 \<longleftrightarrow> j \<in> counted s \<and> j \<noteq> i" for j
    using 1(2,3) by (cases "j = i") (auto simp: counted_def only_go_def)
  then have "counted ?s2 = counted s - {i}" by blast
  moreover have "(step V digest)\<^sup>*\<^sup>* s ?s2"
    using 1(1) step_go [OF Wg_done [OF 1(3-5)]] by (rule rtranclp.rtrancl_into_rtrancl)
  moreover have "s_main ?s2 = s_main s" "s_goal ?s2 = s_goal s" using 1(2) by (simp_all add: only_go_def)
  ultimately show ?thesis by blast
qed

lemma settle_shutdown:
  "s_main s = MShutdown \<Longrightarrow> sched_inv digest s \<Longrightarrow> can_settle V digest MStopped s"
proof (induction "card (counted s)" arbitrary: s rule: less_induct)
  case less
  have inv: "flight_inv s" "wait_inv s" "wg_inv s" "s_probes s = Map.empty"
    using less.prems by (simp_all add: sched_inv_def stop_inv_def)
  show ?case
  proof (cases "counted s = {}")
    case True
    then have "s_wg s = 0" using inv(3) by (simp add: wg_inv_def)
    from settle_step [OF step_main [OF Stop_end [OF less.prems(1) this]] _ settle_here] show ?thesis by simp
  next
    case False
    then obtain i g where g: "s_gs s i = Some g" "\<not> g_exited g" by (auto simp: counted_def)
    then have "g_cancelled g" "in_int64 (g_jitter g)"
      using flight_invD(2) [OF inv(1)] flight_invD(4) [OF inv(1)] inv(2,4) by (auto simp: live_def wait_inv_def)
    from cancelled_exits [OF g(1) this g(2)] obtain s1 where
      1: "(step V digest)\<^sup>*\<^sup>* s s1" "counted s1 = counted s - {i}" "s_main s1 = s_main s" "s_goal s1 = s_goal s" by blast
    have "i \<in> counted s" "finite (counted s)" using g inv(3) by (auto simp: counted_def wg_inv_def)
    then have "card (counted s1) < card (counted s)" unfolding 1(2) by (simp only: card_Diff1_less)
    with 1(3) less.prems(1) show ?thesis
      using less.hyps inv_steps [OF 1(1) less.prems(2)] settle_steps [OF 1(1,4)] by metis
  qed
qed

lemma settle_cancelling:
  "s_main s = MCancelling ns \<Longrightarrow> sched_inv digest s \<Longrightarrow> can_settle V digest MStopped s"
proof (induction ns arbitrary: s)
  case Nil
  note go = Stop_wait [OF Nil(1)]
  show ?case
    by (rule settle_step [OF step_main [OF go]]) (simp_all add: settle_shutdown inv_main_step [OF go Nil(2)])
next
  case (Cons n ns)
  then obtain i where n: "s_probes s n = Some i" by (auto simp: sched_inv_def stop_inv_def)
  note go = Stop_one [OF Cons.prems(1) n]
  show ?case
    by (rule settle_step [OF step_main [OF go]])
      (simp_all add: cancel_def Cons.IH inv_main_step [OF go [unfolded cancel_def] Cons.prems(2)])
qed

section \<open>Properties\<close>

text \<open>
  C1: at most one goroutine probes a target at any time. Whatever the interleaving of probes, reloads
  and shutdown, two goroutines of the same target name that have not returned are the same one; in
  particular a reload never starts the replacement of a changed target while the old one still runs.
\<close>

theorem single_flight:
  assumes "reachable V digest s" and "live s i g" and "live s j h"
    and "tc_Name (g_target g) = tc_Name (g_target h)"
  shows "i = j"
  using flight_invD(5) [OF reachable_flight [OF assms(1)]] assms(2-4) by blast

text \<open>
  C2: whenever the scheduler is not inside \<^verbatim>\<open>Start\<close>, \<^verbatim>\<open>Reload\<close> or \<^verbatim>\<open>Stop\<close>, the running probes are those
  of the last configuration it got: one entry for every configured target name and no other, each a
  goroutine that is neither cancelled nor returned and whose target is the configured one or \<^verbatim>\<open>Equal\<close> to it.
\<close>

theorem idle_runs_configuration:
  assumes "reachable V digest s" and "s_main s = MIdle"
  shows "dom (s_probes s) = tc_Name ` set (s_goal s)
    \<and> (\<forall>n i. s_probes s n = Some i \<longrightarrow>
         (\<exists>g. live s i g \<and> \<not> g_cancelled g
            \<and> (\<exists>t \<in> set (s_goal s). tc_Name t = n \<and> (g_target g = t \<or> Equal digest (g_target g) t))))"
proof -
  note inv = reachable_inv [OF assms(1), unfolded sched_inv_def]
  have f: "flight_inv s" and p: "plan_inv digest s" using inv assms(2) by (simp_all add: stopping_def)
  have "dom (s_probes s) = tc_Name ` set (s_goal s)"
    using plan_invD(1) [OF p] assms(2) by (auto simp: names_def dom_def)
  moreover have "\<exists>g. live s i g \<and> \<not> g_cancelled g
      \<and> (\<exists>t \<in> set (s_goal s). tc_Name t = n \<and> (g_target g = t \<or> Equal digest (g_target g) t))"
    if "s_probes s n = Some i" for n i
    using flight_invD(3) [OF f that] flight_invD(2) [OF f] plan_invD(2) [OF p that] assms(2)
    by (fastforce simp: live_def)
  ultimately show ?thesis by blast
qed

text \<open>
  C3: an unchanged target is never interrupted. Unless the scheduler shuts down, a step of any
  goroutine leaves the probe of a target whose configuration is \<^verbatim>\<open>Equal\<close> to the current one running:
  its entry stays, with the same goroutine, not cancelled.
\<close>

theorem unchanged_not_interrupted:
  assumes "reachable V digest s" and "step V digest s s'" and "\<not> stopping (s_main s)"
    and "s_probes s n = Some i" and "s_gs s i = Some g"
    and "\<exists>t \<in> set (s_goal s). same_target digest (g_target g) t"
  shows "s_probes s' n = Some i \<and> (\<exists>g'. s_gs s' i = Some g' \<and> g_target g' = g_target g \<and> \<not> g_cancelled g')"
proof -
  note inv = reachable_inv [OF assms(1), unfolded sched_inv_def]
  have f: "flight_inv s" and p: "plan_inv digest s" using inv assms(3) by simp_all
  have g: "\<not> g_cancelled g" "tc_Name (g_target g) = n" "i < s_next s"
    using flight_invD(1,3) [OF f] assms(4,5) by fastforce+
  have kept: "n \<notin> names (stops (s_main s))" using plan_invD(3) [OF p assms(4,5)] assms(6) by blast
  from assms(2) show ?thesis
  proof cases
    case (step_go k)
    from go_step_local [OF this] assms(4,5) g show ?thesis
      by (auto simp: local_step_def split: if_splits)
  next
    case step_main
    then show ?thesis
    proof cases
      case (Reload_stop t ts w st)
      with kept have "tc_Name t \<noteq> n" by auto
      moreover have "k \<noteq> i" if "s_probes s (tc_Name t) = Some k" for k
        using flight_invD(3) [OF f that] assms(5) g(2) calculation by auto
      ultimately show ?thesis using assms(4,5) g Reload_stop
        by (auto simp: stop_one_def cancel_def Let_def split: option.splits)
    next
      case (Start_one t ts)
      with plan_invD(6) [OF p, of t] have "s_probes s (tc_Name t) = None" by simp
      with assms(4) have "tc_Name t \<noteq> n" by auto
      with assms(4,5) g Start_one show ?thesis by (auto simp: startTarget_def)
    qed (use assms(3-5) g in \<open>auto simp: stopping_def\<close>)
  qed
qed

text \<open>
  C5: shutdown leaves no goroutine behind. At any time the counter of \<^verbatim>\<open>s.wg\<close> is the number of goroutines
  started so far that have not called \<^verbatim>\<open>wg.Done\<close>, so it is never negative; while \<^verbatim>\<open>Stop\<close> waits for it to
  become 0 the table of probes is empty and every goroutine ever started is cancelled; and when \<^verbatim>\<open>Stop\<close>
  has returned every goroutine ever started has returned and counted itself off.
\<close>

theorem stopped_no_orphans:
  assumes "reachable V digest s"
  shows "s_wg s = int (card {i. \<exists>g. s_gs s i = Some g \<and> \<not> g_exited g})
    \<and> (s_main s \<in> {MShutdown, MStopped} \<longrightarrow>
         s_probes s = Map.empty \<and> (\<forall>i g. s_gs s i = Some g \<longrightarrow> g_cancelled g))
    \<and> (s_main s = MStopped \<longrightarrow> (\<forall>i g. s_gs s i = Some g \<longrightarrow> g_pc g = GDone \<and> g_exited g))"
proof -
  have inv: "flight_inv s" "stop_inv s" "wg_inv s" using reachable_inv [OF assms] by (simp_all add: sched_inv_def)
  have "g_cancelled g" if "s_probes s = Map.empty" "s_gs s i = Some g" for i g
    using flight_invD(2,4) [OF inv(1)] that by (cases "g_pc g = GDone") (auto simp: live_def)
  with inv(2,3) show ?thesis by (auto simp: stop_inv_def wg_inv_def counted_def)
qed

text \<open>
  C4: the scheduler never gets stuck. From every reachable state it can come to rest without further
  signals: a start or a reload can be completed, with the configuration it got, and a shutdown can be
  completed, since every cancelled goroutine can return whatever it is doing.
\<close>

theorem scheduler_can_settle:
  assumes "reachable V digest s"
  shows "\<exists>s'. (step V digest)\<^sup>*\<^sup>* s s' \<and> s_goal s' = s_goal s
    \<and> s_main s' = (if stopping (s_main s) then MStopped else MIdle)"
proof -
  note inv = reachable_inv [OF assms]
  have "can_settle V digest (if stopping (s_main s) then MStopped else MIdle) s"
    by (cases "s_main s")
      (auto simp: stopping_def settle_here intro: settle_starting settle_waiting [OF _ inv] settle_stopping [OF _ inv]
        settle_cancelling [OF _ inv] settle_shutdown [OF _ inv])
  then show ?thesis by (auto simp: can_settle_def)
qed

end
