(* ===== verification/Scheduler_Facts.thy ===== *)
theory Scheduler_Facts
  imports Scheduler_Run
begin

text \<open>
  Runs of the scheduler: a small run that starts one target, reloads and stops, on which the
  properties of the running scheduler are instantiated; the run in which a reload leaves a stale
  series behind; and the metrics that every running target exposes.
\<close>

section \<open>A run\<close>

definition demo_t :: TargetConfig where
  "demo_t = zero_target\<lparr>tc_Name := ''a'', tc_Timeout := Second, tc_Interval := 60 * Second\<rparr>"

definition demo_r :: ProbeResult where
  "demo_r = zero_result\<lparr>pr_Success := True, pr_TimedOut := False\<rparr>"

definition demo_g :: goroutine where
  "demo_g = \<lparr>g_target = demo_t, g_cancelled = False, g_jitter = 0, g_state = new_state, g_pc = GJitter,
     g_exited = False\<rparr>"

definition demo_exp :: "(labels \<Rightarrow> real option) MetricsExporter" where
  "demo_exp = EnsureTarget map_vec demo_t (empty_exporter [])"

text \<open>The state of the run, with the parts that change in it.\<close>

definition demo_s :: "(string \<Rightarrow> nat option) \<Rightarrow> goroutine \<Rightarrow> mpc \<Rightarrow> TargetConfig list
    \<Rightarrow> (labels \<Rightarrow> real option) MetricsExporter \<Rightarrow> (labels \<Rightarrow> real option) sys" where
  "demo_s p g m goal e = \<lparr>s_probes = p, s_gs = [0 \<mapsto> g], s_next = 1, s_main = m, s_goal = goal, s_jitter = 0,
     s_wg = (if g_exited g then 0 else 1), s_exp = e\<rparr>"

abbreviation demo_reach :: "(labels \<Rightarrow> real option) sys \<Rightarrow> bool" where
  "demo_reach \<equiv> reachable map_vec (\<lambda>_. ''h'')"

lemma demo_simps [simp]:
  "s_probes (demo_s p g m goal e) = p" "s_gs (demo_s p g m goal e) = [0 \<mapsto> g]" "s_next (demo_s p g m goal e) = 1"
  "s_main (demo_s p g m goal e) = m" "s_goal (demo_s p g m goal e) = goal" "s_jitter (demo_s p g m goal e) = 0"
  "s_exp (demo_s p g m goal e) = e" "s_wg (demo_s p g m goal e) = (if g_exited g then 0 else 1)" "tc_Name demo_t = ''a''"
  by (simp_all add: demo_s_def demo_t_def)

lemma demo_main: "(demo_s p g m goal e)\<lparr>s_main := m'\<rparr> = demo_s p g m' goal e"
  by (simp add: demo_s_def)

lemma demo_pc: "set_pc 0 pc (demo_s p g m goal e) = demo_s p (g\<lparr>g_pc := pc\<rparr>) m goal e"
  by (simp add: set_pc_def upd_def demo_s_def)

lemma reach_go: "demo_reach s \<Longrightarrow> go_step map_vec i s s' \<Longrightarrow> demo_reach s'"
  by (blast intro: reach_step step_go)

lemma reach_main: "demo_reach s \<Longrightarrow> main_step map_vec (\<lambda>_. ''h'') s s' \<Longrightarrow> demo_reach s'"
  by (blast intro: reach_step step_main)

lemma demo_idle: "demo_reach (demo_s [''a'' \<mapsto> 0] demo_g MIdle [demo_t] demo_exp)"
proof -
  let ?s0 = "init_sys [demo_t] 0 (empty_exporter [])"
  have "demo_reach ?s0" by (rule reach_init) (simp_all add: in_int64_def)
  from reach_main [OF this Start_one [where t = demo_t and ts = "[]"]]
  have "demo_reach ((startTarget map_vec demo_t ?s0)\<lparr>s_main := MStarting []\<rparr>)" by (simp add: init_sys_def)
  also have "(startTarget map_vec demo_t ?s0)\<lparr>s_main := MStarting []\<rparr>
      = demo_s [''a'' \<mapsto> 0] demo_g (MStarting []) [demo_t] demo_exp"
    by (simp add: startTarget_def init_sys_def demo_s_def demo_g_def demo_exp_def)
  finally show ?thesis using reach_main [OF _ Start_end] by (fastforce simp: demo_main)
qed

lemma demo_checked:
  "demo_reach (demo_s [''a'' \<mapsto> 0] (demo_g\<lparr>g_pc := GChecked True demo_r\<rparr>) MIdle [demo_t] demo_exp)"
proof -
  have "demo_reach (demo_s [''a'' \<mapsto> 0] (demo_g\<lparr>g_pc := GStart True\<rparr>) MIdle [demo_t] demo_exp)"
    using reach_go [OF demo_idle Jitter_none [where i = 0 and g = demo_g and rand = "\<lambda>_. 0" and d = 0]]
    by (simp add: demo_g_def rand_ok_def rand0 in_int64_def demo_pc)
  from reach_go [OF this Probe_begin [where i = 0 and f = True]]
  have "demo_reach (demo_s [''a'' \<mapsto> 0] (demo_g\<lparr>g_pc := GProbing True\<rparr>) MIdle [demo_t] demo_exp)"
    by (simp add: demo_g_def demo_pc)
  from reach_go [OF this Probe_checked [where i = 0 and f = True and r = demo_r and d = False and elapsed = 0]]
  show ?thesis by (simp add: demo_g_def demo_pc demo_r_def result_ok_def zero_result_def probeTimedOut_def demo_t_def Second_def)
qed

section \<open>Witnesses\<close>

theorem single_flight_witness:
  "(THE i. live (demo_s [''a'' \<mapsto> 0] demo_g MIdle [demo_t] demo_exp) i demo_g) = 0"
proof (rule the_equality)
  show l: "live (demo_s [''a'' \<mapsto> 0] demo_g MIdle [demo_t] demo_exp) 0 demo_g" by (simp add: live_def demo_g_def)
  show "i = 0" if "live (demo_s [''a'' \<mapsto> 0] demo_g MIdle [demo_t] demo_exp) i demo_g" for i
    by (rule single_flight [OF demo_idle that l refl])
qed

theorem idle_runs_configuration_witness:
  "dom (s_probes (demo_s [''a'' \<mapsto> 0] demo_g MIdle [demo_t] demo_exp)) = {''a''}"
  using idle_runs_configuration [OF demo_idle] by simp

lemma demo_running: "running_targets (demo_s [''a'' \<mapsto> 0] g m goal e) [g_target g]"
  by (auto simp: running_targets_def)

lemma demo_Equal: "Equal (\<lambda>_. ''h'') demo_t demo_t"
  by (simp add: Equal_def HashTarget_def marshal_target_def demo_t_def zero_target_def marshal_opts_def zero_opts_def)

lemma demo_diff_same: "diffTargets (\<lambda>_. ''h'') [demo_t] [demo_t] = ([], [], [demo_t])"
  using demo_Equal
  by (simp add: diffTargets_def target_map_def mput_def mget_def diff_step_def)

lemma demo_diff_gone: "diffTargets (\<lambda>_. ''h'') [demo_t] [] = ([demo_t], [], [])"
  by (simp add: diffTargets_def target_map_def mput_def mget_def)

theorem unchanged_not_interrupted_witness:
  "\<exists>s'. main_step map_vec (\<lambda>_. ''h'') (demo_s [''a'' \<mapsto> 0] demo_g MIdle [demo_t] demo_exp) s'
     \<and> s_main s' = MStopping [] [] [] \<and> s_probes s' ''a'' = Some 0"
proof -
  let ?s = "demo_s [''a'' \<mapsto> 0] demo_g MIdle [demo_t] demo_exp"
  let ?s' = "?s\<lparr>s_main := MStopping [] [] [], s_goal := [demo_t], s_jitter := 0\<rparr>"
  have run: "running_targets ?s [demo_t]" using demo_running [of demo_g] by (simp add: demo_g_def)
  have st: "main_step map_vec (\<lambda>_. ''h'') ?s ?s'"
    by (rule Reload_begin [OF _ run _ demo_diff_same]) (simp_all add: in_int64_def)
  have "s_probes ?s' ''a'' = Some 0"
    using unchanged_not_interrupted [OF demo_idle step_main [OF st], of "''a''" 0 demo_g] demo_Equal
    by (simp add: stopping_def same_target_def demo_g_def)
  with st show ?thesis by (intro exI [of _ ?s']) simp
qed

theorem scheduler_can_settle_witness:
  "\<exists>s'. (step map_vec (\<lambda>_. ''h''))\<^sup>*\<^sup>* (demo_s [''a'' \<mapsto> 0] demo_g MIdle [demo_t] demo_exp) s' \<and> s_main s' = MIdle"
  using scheduler_can_settle [OF demo_idle] by (auto simp: stopping_def)

text \<open>The run ends: \<^verbatim>\<open>Stop\<close> cancels the goroutine, which returns and counts itself off.\<close>

lemma demo_stopped:
  "demo_reach (demo_s Map.empty (demo_g\<lparr>g_cancelled := True, g_pc := GDone, g_exited := True\<rparr>) MStopped [demo_t] demo_exp)"
proof -
  let ?g = "demo_g\<lparr>g_cancelled := True\<rparr>" and ?p = "[''a'' \<mapsto> (0::nat)]"
  have "demo_reach (demo_s ?p demo_g (MCancelling [''a'']) [demo_t] demo_exp)"
    using reach_main [OF demo_idle Stop_begin [where ns = "[''a'']"]] by (simp add: demo_main)
  from reach_main [OF this Stop_one [where n = "''a''" and ns = "[]" and i = 0]]
  have "demo_reach (demo_s Map.empty ?g (MCancelling []) [demo_t] demo_exp)"
    by (simp add: cancel_def upd_def demo_s_def)
  from reach_main [OF this Stop_wait]
  have r: "demo_reach (demo_s Map.empty ?g MShutdown [demo_t] demo_exp)" by (simp add: demo_main)
  from reach_go [OF r Jitter_none [where i = 0 and g = ?g and rand = "\<lambda>_. 0" and d = 0]]
  have "demo_reach (demo_s Map.empty (?g\<lparr>g_pc := GDone\<rparr>) MShutdown [demo_t] demo_exp)"
    by (simp add: demo_g_def rand_ok_def rand0 in_int64_def demo_pc)
  from reach_go [OF this Wg_done [where i = 0 and g = "?g\<lparr>g_pc := GDone\<rparr>"]]
  have "demo_reach (demo_s Map.empty (?g\<lparr>g_pc := GDone, g_exited := True\<rparr>) MShutdown [demo_t] demo_exp)"
    by (simp add: demo_g_def upd_def demo_s_def)
  from reach_main [OF this Stop_end] show ?thesis by (simp add: demo_main)
qed

theorem stopped_no_orphans_witness:
  "s_probes (demo_s Map.empty (demo_g\<lparr>g_cancelled := True, g_pc := GDone, g_exited := True\<rparr>) MStopped [demo_t] demo_exp)
     = Map.empty"
  using stopped_no_orphans [OF demo_stopped] by simp

section \<open>Stale series\<close>

text \<open>The run goes on: a reload to an empty configuration while the goroutine has a result to record.\<close>

lemma demo_stopped_one:
  "stop_one map_vec demo_t [] [] [] (demo_s [''a'' \<mapsto> 0] g (MStopping [demo_t] [] []) [] e)
     = demo_s Map.empty (g\<lparr>g_cancelled := True\<rparr>) (MStopping [] [0] []) [] (DeleteTarget map_vec demo_t e)"
  by (auto simp: stop_one_def cancel_def upd_def demo_s_def demo_t_def fun_eq_iff)

lemma demo_stale:
  "\<exists>g e. demo_reach (demo_s Map.empty g MIdle [] (Record map_vec demo_t demo_r e)) \<and> g_pc g = GDone
     \<and> me_tagKeys e = []"
proof -
  let ?p = "[''a'' \<mapsto> (0::nat)]" and ?e = "DeleteTarget map_vec demo_t demo_exp"
  let ?g = "demo_g\<lparr>g_pc := GChecked True demo_r\<rparr>" and ?h = "demo_g\<lparr>g_cancelled := True, g_pc := GChecked True demo_r\<rparr>"
  have run: "running_targets (demo_s ?p ?g MIdle [demo_t] demo_exp) [demo_t]"
    using demo_running [of ?g] by (simp add: demo_g_def)
  have "main_step map_vec (\<lambda>_. ''h'') (demo_s ?p ?g MIdle [demo_t] demo_exp)
      ((demo_s ?p ?g MIdle [demo_t] demo_exp)\<lparr>s_main := MStopping [demo_t] [] [], s_goal := [], s_jitter := 0\<rparr>)"
    by (rule Reload_begin [OF _ run _ demo_diff_gone]) (simp_all add: in_int64_def)
  also have "(demo_s ?p ?g MIdle [demo_t] demo_exp)\<lparr>s_main := MStopping [demo_t] [] [], s_goal := [], s_jitter := 0\<rparr>
      = demo_s ?p ?g (MStopping [demo_t] [] []) [] demo_exp" by (simp add: demo_s_def)
  finally have "demo_reach (demo_s ?p ?g (MStopping [demo_t] [] []) [] demo_exp)" by (rule reach_main [OF demo_checked])
  from reach_main [OF this Reload_stop [where t = demo_t and ts = "[]" and w = "[]" and st = "[]"]]
  have r: "demo_reach (demo_s Map.empty ?h (MStopping [] [0] []) [] ?e)"
    by (simp add: demo_stopped_one demo_g_def)
  let ?k = "?h\<lparr>g_pc := GIdle, g_state := snd (logProbeResult demo_r (g_state ?h))\<rparr>"
  let ?e' = "Record map_vec demo_t demo_r ?e"
  have "demo_reach (demo_s Map.empty ?k (MStopping [] [0] []) [] ?e')"
    using reach_go [OF r Probe_record [where i = 0 and f = True and r = demo_r]]
    by (simp add: upd_def demo_s_def after_probe_def demo_g_def)
  from reach_go [OF this Loop_cancelled [where i = 0 and g = ?k]]
  have "demo_reach (demo_s Map.empty (?k\<lparr>g_pc := GDone\<rparr>) (MStopping [] [0] []) [] ?e')" by (simp add: demo_pc)
  from reach_main [OF this Reload_wait [where w = "[0]" and st = "[]"]]
  have "demo_reach (demo_s Map.empty (?k\<lparr>g_pc := GDone\<rparr>) (MWaiting [0] []) [] ?e')" by (simp add: demo_main)
  from reach_main [OF this Reload_done [where i = 0 and w = "[]" and st = "[]" and g = "?k\<lparr>g_pc := GDone\<rparr>"]]
  have "demo_reach (demo_s Map.empty (?k\<lparr>g_pc := GDone\<rparr>) (MWaiting [] []) [] ?e')" by (simp add: demo_main)
  from reach_main [OF this Reload_start [where st = "[]"]]
  have "demo_reach (demo_s Map.empty (?k\<lparr>g_pc := GDone\<rparr>) (MStarting []) [] ?e')" by (simp add: demo_main)
  from reach_main [OF this Start_end]
  have "demo_reach (demo_s Map.empty (?k\<lparr>g_pc := GDone\<rparr>) MIdle [] ?e')" by (simp add: demo_main)
  then show ?thesis
    by (intro exI [of _ "?k\<lparr>g_pc := GDone\<rparr>"] exI [of _ ?e])
      (simp add: DeleteTarget_def demo_exp_def EnsureTarget_def empty_exporter_def)
qed

lemma Record_success:
  assumes "vec_laws V"
  shows "obs V (Record V t r e) probeSuccess (buildLabels (me_tagKeys e) t) = Some (flag (pr_Success r))"
proof -
  let ?ops = "Record_ops (me_tagKeys e) t r" and ?l = "buildLabels (me_tagKeys e) t"
  have hd: "?ops = VSet probeSuccess ?l (flag (pr_Success r)) # tl ?ops"
    by (simp add: Record_ops_def record_common_def Let_def)
  have "\<forall>op \<in> set (tl ?ops). op_metric op \<noteq> probeSuccess"
    by (auto simp: Record_ops_def record_common_def Let_def dest: record_special_metric)
  from obs_run_other_metric [OF this, of "obs_op (hd ?ops) (obs V e)" ?l] show ?thesis
    unfolding Record_def obs_run_ops [OF assms] by (subst hd) (simp add: Record_ops_def record_common_def Let_def)
qed

text \<open>
  C8: a reload can leave a stale series behind. The check of the context in \<^verbatim>\<open>executeProbe\<close> and the
  recording after it are two steps, and \<^verbatim>\<open>Reload\<close> deletes the series of a removed target before it has
  waited for the goroutine: there is a run after which the scheduler is idle with an empty
  configuration and no goroutine left, and the exporter still shows the success of the removed target.
\<close>

theorem reload_can_leave_stale_series:
  "\<exists>s. reachable map_vec (\<lambda>_. ''h'') s \<and> s_main s = MIdle \<and> s_goal s = [] \<and> s_probes s = Map.empty
     \<and> (\<nexists>i g. live s i g) \<and> obs map_vec (s_exp s) probeSuccess (buildLabels [] demo_t) = Some 1"
proof -
  from demo_stale obtain g e where
    r: "demo_reach (demo_s Map.empty g MIdle [] (Record map_vec demo_t demo_r e))" "g_pc g = GDone" "me_tagKeys e = []"
    by blast
  have "obs map_vec (Record map_vec demo_t demo_r e) probeSuccess (buildLabels [] demo_t) = Some 1"
    using Record_success [OF map_vec_laws, of demo_t demo_r e] r(3) by (simp add: demo_r_def flag_def)
  with r(1,2) show ?thesis
    by (intro exI [of _ "demo_s Map.empty g MIdle [] (Record map_vec demo_t demo_r e)"]) (auto simp: live_def)
qed

section \<open>What a running target exposes\<close>

lemma exporter_tagKeys [simp]:
  "me_tagKeys (Record V t r e) = me_tagKeys e" "me_tagKeys (DeleteTarget V t e) = me_tagKeys e"
  "me_tagKeys (EnsureTarget V t e) = me_tagKeys e" "me_tagKeys (IncrSkippedOverlap V t e) = me_tagKeys e"
  by (simp_all add: Record_def DeleteTarget_def EnsureTarget_def IncrSkippedOverlap_def)

lemma obs_Record_frame:
  assumes "vec_laws V" and "m \<in> {probeTimeout, probeInterval, probeSkippedOverlapTotal}"
  shows "obs V (Record V t r e) m l = obs V e m l"
  unfolding Record_def obs_run_ops [OF assms(1)] using assms(2)
  by (intro obs_run_other_metric) (auto simp: record_defs Let_def dest: cert_ops_metric split: if_splits)

lemma obs_other_target:
  assumes "vec_laws V" and "''target_name'' \<notin> set (me_tagKeys e)" and "l ''target_name'' \<noteq> Some (tc_Name t)"
  shows "obs V (DeleteTarget V t e) m l = obs V e m l" "obs V (EnsureTarget V t e) m l = obs V e m l"
  unfolding DeleteTarget_def EnsureTarget_def obs_run_ops [OF assms(1)]
  using assms DeleteTarget_ops_name EnsureTarget_ops_name
  by (intro obs_run_other_name [where n = "tc_Name t"]; auto)+

text \<open>The series that \<^verbatim>\<open>EnsureTarget\<close> creates.\<close>

definition exposed :: "'v vec_ops \<Rightarrow> 'v MetricsExporter \<Rightarrow> TargetConfig \<Rightarrow> bool" where
  "exposed V e t \<longleftrightarrow> (let l = buildLabels (me_tagKeys e) t in
     obs V e probeTimeout l = Some (dur_Seconds (tc_Timeout t))
   \<and> obs V e probeInterval l = Some (dur_Seconds (tc_Interval t))
   \<and> obs V e probeSkippedOverlapTotal l \<noteq> None)"

lemma exposed_Ensure: "vec_laws V \<Longrightarrow> exposed V (EnsureTarget V t e) t"
proof -
  assume V: "vec_laws V"
  have *: "obs_run (case p of None \<Rightarrow> [] | Some rp \<Rightarrow> if b rp then [VSet targetProxyInfo (f rp) 1] else []) s m l = s m l"
    if "m \<noteq> targetProxyInfo" for p b f s m l
    using that by (simp split: option.split)
  show ?thesis
    by (simp add: exposed_def Let_def) (simp add: EnsureTarget_def obs_run_ops [OF V] EnsureTarget_ops_def Let_def *)
qed

lemma exposed_Record: "vec_laws V \<Longrightarrow> exposed V (Record V t r e) u = exposed V e u"
  by (simp add: exposed_def obs_Record_frame)

lemma exposed_Incr: "vec_laws V \<Longrightarrow> exposed V e u \<Longrightarrow> exposed V (IncrSkippedOverlap V t e) u"
  by (auto simp: exposed_def Let_def) (auto simp: IncrSkippedOverlap_def obs_run_ops)

lemma exposed_other:
  assumes "vec_laws V" and "''target_name'' \<notin> set (me_tagKeys e)" and "tc_Name u \<noteq> tc_Name t"
  shows "exposed V (DeleteTarget V t e) u = exposed V e u" "exposed V (EnsureTarget V t e) u = exposed V e u"
proof -
  have "buildLabels (me_tagKeys e) u ''target_name'' \<noteq> Some (tc_Name t)"
    using assms(2,3) by (simp add: buildLabels_name)
  then show "exposed V (DeleteTarget V t e) u = exposed V e u" "exposed V (EnsureTarget V t e) u = exposed V e u"
    by (simp_all add: exposed_def obs_other_target [OF assms(1,2)])
qed

lemma step_tagKeys: "step V digest s s' \<Longrightarrow> me_tagKeys (s_exp s') = me_tagKeys (s_exp s)"
proof (induction rule: step.induct)
  case (step_main s s')
  then show ?case
    by (induction rule: main_step.induct) (auto simp: stop_one_def cancel_def startTarget_def Let_def split: option.splits)
next
  case (step_go i s s')
  then show ?case by (induction rule: go_step.induct) (auto simp: set_pc_def)
qed

definition all_exposed :: "'v vec_ops \<Rightarrow> 'v sys \<Rightarrow> bool" where
  "all_exposed V s \<longleftrightarrow> (\<forall>n i g. s_probes s n = Some i \<longrightarrow> s_gs s i = Some g \<longrightarrow> exposed V (s_exp s) (g_target g))"

lemma all_exposed_go:
  assumes "vec_laws V" and "go_step V i s s'" and "all_exposed V s"
  shows "all_exposed V s'"
  using assms(2,1,3)
  by (induction rule: go_step.induct)
    (auto simp: all_exposed_def set_pc_def exposed_Record intro: exposed_Incr split: if_splits)

lemma all_exposed_main:
  assumes V: "vec_laws V" "''target_name'' \<notin> set (me_tagKeys (s_exp s))" and "main_step V digest s s'"
    and inv: "sched_inv digest s" and e: "all_exposed V s"
  shows "all_exposed V s'"
  using assms(3)
proof cases
  case (Reload_stop t ts w st)
  have f: "flight_inv s" using inv by (simp add: sched_inv_def)
  have "exposed V (DeleteTarget V t (s_exp s)) (g_target g)"
    if "s_probes s n = Some k" "s_gs s k = Some g" "n \<noteq> tc_Name t" for n k g
    using that e flight_invD(3) [OF f that(1)] exposed_other(1) [OF V, of "g_target g" t]
    by (auto simp: all_exposed_def)
  then show ?thesis unfolding Reload_stop(1)
    by (auto simp: all_exposed_def stop_one_def cancel_def Let_def split: option.splits if_splits)
      (metis option.distinct(1))
next
  case (Start_one t ts)
  have f: "flight_inv s" and p: "plan_inv digest s"
    using inv Start_one(2) by (simp_all add: sched_inv_def stopping_def)
  have none: "s_probes s (tc_Name t) = None" using plan_invD(6) [OF p, of t] Start_one(2) by simp
  have old: "exposed V (EnsureTarget V t (s_exp s)) (g_target g)" "k \<noteq> s_next s"
    if "s_probes s n = Some k" "s_gs s k = Some g" for n k g
    using that e none flight_invD(1,3) [OF f] exposed_other(2) [OF V, of "g_target g" t]
    by (fastforce simp: all_exposed_def)+
  then show ?thesis unfolding Start_one(1)
    by (auto simp: all_exposed_def startTarget_def exposed_Ensure [OF V(1)] split: if_splits)
qed (use e in \<open>auto simp: all_exposed_def cancel_def split: if_splits\<close>)

text \<open>
  C6: every running target is on \<^verbatim>\<open>/metrics\<close>. In every reachable state the exporter shows, for each
  entry of the table of probes, the configured timeout and interval of the target it runs and a
  counter of skipped ticks, whatever was recorded or deleted for other targets in the meantime.
\<close>

theorem running_targets_exposed:
  assumes "vec_laws V" and "reachable V digest s" and "''target_name'' \<notin> set (me_tagKeys (s_exp s))"
    and "s_probes s n = Some i" and "s_gs s i = Some g" and "l = buildLabels (me_tagKeys (s_exp s)) (g_target g)"
  shows "obs V (s_exp s) probeTimeout l = Some (dur_Seconds (tc_Timeout (g_target g)))
    \<and> obs V (s_exp s) probeInterval l = Some (dur_Seconds (tc_Interval (g_target g)))
    \<and> obs V (s_exp s) probeSkippedOverlapTotal l \<noteq> None"
proof -
  from assms(2,3) have "all_exposed V s"
  proof (induction rule: reachable.induct)
    case (reach_init ts jitter e)
    then show ?case by (simp add: all_exposed_def init_sys_def)
  next
    case (reach_step s s')
    from step_tagKeys [OF reach_step(2)] reach_step(3,4)
    have k: "''target_name'' \<notin> set (me_tagKeys (s_exp s))" "all_exposed V s" by simp_all
    from reach_step(2) show ?case
      by cases (rule all_exposed_main [OF assms(1) k(1) _ reachable_inv [OF reach_step(1)] k(2)]
        all_exposed_go [OF assms(1) _ k(2)], assumption)+
  qed
  with assms(4,5,6) show ?thesis by (auto simp: all_exposed_def exposed_def Let_def)
qed

theorem running_targets_exposed_witness:
  "obs map_vec demo_exp probeInterval (buildLabels [] demo_t) = Some 60"
proof -
  have k: "me_tagKeys demo_exp = []" by (simp add: demo_exp_def empty_exporter_def)
  from running_targets_exposed [OF map_vec_laws demo_idle, of "''a''" 0 demo_g] show ?thesis
    by (simp add: k demo_g_def demo_t_def dur_Seconds_def Second_def)
qed

end
