(* ===== verification/Probe_TCP.thy ===== *)
theory Probe_TCP
  imports Probe_Result
begin

text \<open>
  \<^verbatim>\<open>internal/probe/tcp.go\<close>: the TCP prober. Beside the contract of a prober it is shown which connections
  are open when it returns, and that all those that dialling opened are closed in the end, for any
  network whose calls open and close connections as \<open>conn_laws\<close> says.
\<close>

text \<open>
  The probe, with the goroutine that dialling may have left behind and its moves between the calls of
  the probe; \<open>TCP_Probe\<close> is what the caller of \<^verbatim>\<open>Probe\<close> gets.
\<close>

definition TCP_Probe_run ::
  "('w, 'c) net_ops \<Rightarrow> TargetConfig \<Rightarrow> ('w, ProbeResult \<times> 'c background option) io" where
  "TCP_Probe_run N target = do {
     let rv = resolverFor (tc_DNSResolver target);
     start \<leftarrow> op_Now N;
     (d, err) \<leftarrow> dialTCPWithSplitPhases N rv (tc_Address target);
     stop \<leftarrow> op_Now N;
     let phases = addObservedPhase (addObservedPhase (Some []) PhaseDNSResolve (sd_dnsEnd d) (sd_dnsStart d))
           PhaseTCPConnect (sd_tcpEnd d) (sd_tcpStart d);
     let r = set_phases phases (zero_result\<lparr>pr_Duration := time_Sub stop start\<rparr>);
     bg \<leftarrow> meanwhile N rv (sd_background d);
     (case (err, sd_conn d) of
        (Some e, _) \<Rightarrow> ret (r\<lparr>pr_Error := Some e\<rparr>, bg)
      | (None, Some conn) \<Rightarrow> do {
          op_Close N conn;
          bg' \<leftarrow> meanwhile N rv bg;
          ret (r\<lparr>pr_Success := True\<rparr>, bg')
        }
      | (None, None) \<Rightarrow> ret (r\<lparr>pr_Error := Some (SysErr ''nil pointer dereference'')\<rparr>, bg))
   }"

definition TCP_Probe :: "('w, 'c) net_ops \<Rightarrow> TargetConfig \<Rightarrow> ('w, ProbeResult) io" where
  "TCP_Probe N target = do { (r, _) \<leftarrow> TCP_Probe_run N target; ret r }"

section \<open>The contract\<close>

lemma TCP_Probe_ok: "always (TCP_Probe N t) result_ok"
proof -
  have fin: "always (case (err, c) of (Some e, _) \<Rightarrow> ret (r\<lparr>pr_Error := Some e\<rparr>, bg)
      | (None, Some conn) \<Rightarrow> do { op_Close N conn; bg' \<leftarrow> meanwhile N rv bg; ret (r\<lparr>pr_Success := True\<rparr>, bg') }
      | (None, None) \<Rightarrow> ret (r\<lparr>pr_Error := Some (SysErr ''nil pointer dereference'')\<rparr>, bg)) (\<lambda>(r, _). result_ok r)"
    if "pr_Success r = False" "pr_Error r = None" "phases_ok (pr_Phases r)" for err c r and bg :: "'b background option" and rv
    using that
    by (cases err; cases c) (auto simp: result_ok_def intro!: always_intro)
  have "always (TCP_Probe_run N t) (\<lambda>(r, _). result_ok r)"
    unfolding TCP_Probe_run_def by (intro always_intro fin) simp_all
  then show ?thesis unfolding TCP_Probe_def by (rule always_bind) (auto intro!: always_intro)
qed

interpretation tcp: prober "TCP_Probe N" for N :: "('w, 'c) net_ops"
  by unfold_locales (rule TCP_Probe_ok)

section \<open>Connections\<close>

text \<open>
  \<open>opn w\<close> are the connections open in the world \<open>w\<close>. Reading the clock and looking up names open
  none; dialling opens the connection it returns, a new one; closing removes one.
\<close>

definition conn_laws :: "('w, 'c) net_ops \<Rightarrow> ('w \<Rightarrow> 'c set) \<Rightarrow> bool" where
  "conn_laws N opn \<longleftrightarrow>
     (\<forall>S. triple (\<lambda>w. opn w = S) (op_Now N) (\<lambda>_ w. opn w = S))
   \<and> (\<forall>S rv h. triple (\<lambda>w. opn w = S) (op_LookupIPAddr N rv h) (\<lambda>_ w. opn w = S))
   \<and> (\<forall>S rv a. triple (\<lambda>w. opn w = S) (op_Dial N rv a)
        (\<lambda>r w. case r of Inl _ \<Rightarrow> opn w = S | Inr c \<Rightarrow> c \<notin> S \<and> opn w = insert c S))
   \<and> (\<forall>S. triple (\<lambda>w. opn w = S) (op_Pick N) (\<lambda>_ w. opn w = S))
   \<and> (\<forall>S. triple (\<lambda>w. opn w = S) (op_Cancel N) (\<lambda>_ w. opn w = S))
   \<and> (\<forall>S d. triple (\<lambda>w. opn w = S) (op_Delay N d) (\<lambda>_ w. opn w = S))
   \<and> (\<forall>S c. triple (\<lambda>w. opn w = S) (op_Close N c) (\<lambda>_ w. opn w = S - {c}))"

text \<open>What dialling leaves open: the connection it returns, if any.\<close>

definition holds :: "('w \<Rightarrow> 'c set) \<Rightarrow> 'c set \<Rightarrow> 'c option \<Rightarrow> 'w \<Rightarrow> bool" where
  "holds opn S c w \<longleftrightarrow> (case c of None \<Rightarrow> opn w = S | Some c \<Rightarrow> c \<notin> S \<and> opn w = insert c S)"

lemma conn_lawsD:
  assumes "conn_laws N opn"
  shows "triple (\<lambda>w. opn w = S) (op_Now N) (\<lambda>_ w. opn w = S)"
    and "triple (\<lambda>w. opn w = S) (op_LookupIPAddr N rv h) (\<lambda>_ w. opn w = S)"
    and "triple (\<lambda>w. opn w = S) (op_Dial N rv a)
        (\<lambda>r w. case r of Inl _ \<Rightarrow> opn w = S | Inr c \<Rightarrow> c \<notin> S \<and> opn w = insert c S)"
    and "triple (\<lambda>w. opn w = S) (op_Pick N) (\<lambda>_ w. opn w = S)"
    and "triple (\<lambda>w. opn w = S) (op_Delay N d) (\<lambda>_ w. opn w = S)"
    and "triple (\<lambda>w. opn w = S) (op_Close N c') (\<lambda>_ w. opn w = S - {c'})"
    and "triple (\<lambda>w. opn w = S) (op_Cancel N) (\<lambda>_ w. opn w = S)"
  using assms unfolding conn_laws_def by blast+

lemma holds_now: "conn_laws N opn \<Longrightarrow> triple (holds opn S c) (op_Now N) (\<lambda>_. holds opn S c)"
  by (cases c) (auto simp: conn_laws_def holds_def triple_def)

definition conn_of :: "'e + 'c \<Rightarrow> 'c option" where
  "conn_of r = (case r of Inl _ \<Rightarrow> None | Inr c \<Rightarrow> Some c)"

lemma dial_loop_conns:
  assumes "conn_laws N opn"
  shows "triple (\<lambda>w. opn w = S) (dial_loop N rv e ts) (\<lambda>r. holds opn S (conn_of r))"
proof (induction ts arbitrary: e)
  case Nil
  show ?case by (auto simp: conn_of_def holds_def intro!: triple_intro)
next
  case (Cons t ts)
  show ?case
    by (auto simp: conn_of_def holds_def intro!: triple_intro triple_bind [OF conn_lawsD(3) [OF assms]]
        intro: triple_conseq [OF Cons.IH])
qed

text \<open>The connections that the outcomes of a race hold: all new, all open, and no other.\<close>

definition conns_of :: "('e + 'c) list \<Rightarrow> 'c list" where
  "conns_of outs = concat (map (\<lambda>r. case r of Inl _ \<Rightarrow> [] | Inr c \<Rightarrow> [c]) outs)"

definition held :: "('w \<Rightarrow> 'c set) \<Rightarrow> 'c set \<Rightarrow> ('e + 'c) list \<Rightarrow> 'w \<Rightarrow> bool" where
  "held opn S outs w \<longleftrightarrow> distinct (conns_of outs) \<and> set (conns_of outs) \<inter> S = {} \<and> opn w = S \<union> set (conns_of outs)"

lemma conns_of_simps [simp]:
  "conns_of [] = []" "conns_of (Inl e # outs) = conns_of outs" "conns_of (Inr c # outs) = c # conns_of outs"
  "conns_of (outs @ outs') = conns_of outs @ conns_of outs'"
  by (simp_all add: conns_of_def)

lemma held_frame:
  assumes "\<And>S. triple (\<lambda>w. opn w = S) m (\<lambda>_ w. opn w = S)"
  shows "triple (held opn S outs) m (\<lambda>_. held opn S outs)"
  using assms [of "S \<union> set (conns_of outs)"] by (auto simp: triple_def held_def)

lemma work_conns:
  assumes "conn_laws N opn"
  shows "triple (held opn S outs) (work N rv a) (\<lambda>(_, out). held opn S (outs @ out))"
proof (cases "(N, rv, a)" rule: work.cases)
  case (1 N' rv' d ts)
  then have a: "a = WDelay d ts" by simp
  show ?thesis unfolding a work.simps
    by (rule triple_bind [OF held_frame [OF conn_lawsD(5) [OF assms]]])
      (auto simp: held_def intro!: triple_ret split: option.splits)
next
  case (3 N' rv' e t ts)
  then have a: "a = WDial e (t # ts)" by simp
  have "triple (held opn S outs) (op_Dial N rv t)
      (\<lambda>r. held opn S (outs @ (case r of Inl _ \<Rightarrow> [] | Inr c \<Rightarrow> [Inr c])))"
    using conn_lawsD(3) [OF assms, of "S \<union> set (conns_of outs)" rv t]
    by (fastforce simp: triple_def held_def split: sum.splits)
  then show ?thesis unfolding a work.simps
    by (rule triple_bind) (auto intro!: triple_ret split: sum.splits)
qed (auto simp: held_def intro!: triple_ret)

lemma first_conn_conns: "first_conn outs = (case conns_of outs of [] \<Rightarrow> None | c # _ \<Rightarrow> Some c)"
  by (induction outs rule: first_conn.induct) simp_all

lemma conns_of_length: "length (conns_of outs) \<le> length outs"
proof (induction outs)
  case (Cons r outs)
  then show ?case by (cases r) simp_all
qed simp

lemma await_first_single:
  "length (conns_of outs) \<le> 1 \<Longrightarrow> always (await_first N rv k a b outs) (\<lambda>(_, _, _, outs'). length (conns_of outs') \<le> 1)"
proof (induction k arbitrary: a b outs)
  case (Suc k)
  have move: "always (do { (x, out) \<leftarrow> work N rv c; await_first N rv k (f x) (g x) (outs @ out) })
      (\<lambda>(_, _, _, outs'). length (conns_of outs') \<le> 1)" if "first_conn outs = None" for c f g
  proof (rule always_bind [OF work_progress], rule always_case_prod, rule Suc.IH, goal_cases)
    case (1 p x out)
    then have "length out \<le> 1" by (auto split: if_splits)
    moreover have "conns_of outs = []" using that by (simp add: first_conn_conns split: list.splits)
    ultimately show ?case using conns_of_length [of out] by simp
  qed
  show ?case unfolding await_first.simps
    by (intro always_if always_bindT always_ret move) (use Suc.prems in auto)
qed (auto intro: always_ret)

lemma await_first_conns:
  assumes "conn_laws N opn"
  shows "triple (held opn S outs) (await_first N rv k a b outs) (\<lambda>(_, _, _, outs'). held opn S outs')"
proof (induction k arbitrary: a b outs)
  case (Suc k)
  have move: "triple (held opn S outs) (do { (x, out) \<leftarrow> work N rv c; await_first N rv k (f x) (g x) (outs @ out) })
      (\<lambda>(_, _, _, outs'). held opn S outs')" for c f g
    by (rule triple_bind [OF work_conns [OF assms]]) (auto intro: Suc.IH split: prod.splits)
  show ?case unfolding await_first.simps
    by (rule triple_if, rule triple_ret, simp,
        rule triple_bind [OF held_frame [OF conn_lawsD(4) [OF assms]]], rule triple_if) (rule move)+
qed (auto intro: triple_ret)

text \<open>
  What the goroutine left behind holds: the connections of the outcomes in the channel, at most one,
  and one outcome of a worker at most is still to come.
\<close>

fun bg_results :: "'c background \<Rightarrow> (goerr option + 'c) list" where
  "bg_results (Background a b results) = results"

fun bg_single :: "'c background \<Rightarrow> bool" where
  "bg_single (Background a b results) = (length results + unfinished a + unfinished b \<le> 1)"

lemma work_unfinished:
  "always (work N rv a) (\<lambda>(a', out). length out + unfinished a' = unfinished a \<and> 2 * work_left a' + length out \<le> 2 * work_left a
     \<and> (a \<noteq> WDone \<longrightarrow> 2 * work_left a' + length out < 2 * work_left a))"
  by (rule always_mono [OF work_progress]) (auto simp: unfinished_def split: if_splits)

lemma bg_step_progress:
  "always (bg_step N rv g) (\<lambda>g'. (bg_single g \<longrightarrow> bg_single g') \<and> bg_left g' \<le> bg_left g - 1)"
proof (cases g)
  case (Background a b rs)
  have move: "always (do { (x, out) \<leftarrow> work N rv c; ret (Background (f x) (h x) (rs @ out)) })
      (\<lambda>g'. (bg_single g \<longrightarrow> bg_single g') \<and> bg_left g' \<le> bg_left g - 1)"
    if "c \<noteq> WDone" "(c = a \<and> f = (\<lambda>x. x) \<and> h = (\<lambda>_. b)) \<or> (c = b \<and> f = (\<lambda>_. a) \<and> h = (\<lambda>x. x))" for c f h
    using that Background by (intro always_bind [OF work_unfinished] always_case_prod always_ret) auto
  show ?thesis unfolding Background bg_step.simps
    by (intro always_if always_bindT move [unfolded Background])
      (auto split: list.splits intro!: always_intro)
qed

lemma bg_step_conns:
  assumes "conn_laws N opn"
  shows "triple (held opn S (bg_results g)) (bg_step N rv g) (\<lambda>g'. held opn S (bg_results g'))"
proof (cases g)
  case (Background a b rs)
  have move: "triple (held opn S rs) (do { (x, out) \<leftarrow> work N rv c; ret (Background (f x) (h x) (rs @ out)) })
      (\<lambda>g'. held opn S (bg_results g'))" for c f h
    by (rule triple_bind [OF work_conns [OF assms]]) (auto intro!: triple_ret split: prod.splits)
  have close: "triple (held opn S (l # rest)) (close_loser N l) (\<lambda>_. held opn S rest)" for l rest
  proof (cases l)
    case (Inr c)
    from conn_lawsD(6) [OF assms, of "insert c (S \<union> set (conns_of rest))" c] show ?thesis
      unfolding Inr close_loser_def by (auto simp: triple_def held_def)
  qed (auto simp: close_loser_def held_def intro!: triple_ret)
  have drain: "triple (held opn S rs) (case rs of [] \<Rightarrow> ret (Background a b [])
      | l # rest \<Rightarrow> do { close_loser N l; ret (Background a b rest) }) (\<lambda>g'. held opn S (bg_results g'))"
    by (cases rs) (auto intro!: triple_ret triple_bind [OF close])
  show ?thesis unfolding Background bg_step.simps bg_results.simps
    by (rule triple_if, rule drain, rule triple_bind [OF held_frame [OF conn_lawsD(4) [OF assms]]], rule triple_if)
      (rule move)+
qed

text \<open>The open connections beside \<open>S\<close> are those the goroutine left behind holds.\<close>

definition left_open :: "('w \<Rightarrow> 'c set) \<Rightarrow> 'c set \<Rightarrow> 'c background option \<Rightarrow> 'w \<Rightarrow> bool" where
  "left_open opn S bg w \<longleftrightarrow>
     (case bg of None \<Rightarrow> opn w = S | Some g \<Rightarrow> bg_single g \<and> held opn S (bg_results g) w)"

lemma bg_step_left:
  "conn_laws N opn \<Longrightarrow> triple (left_open opn S (Some g)) (bg_step N rv g) (\<lambda>g'. left_open opn S (Some g'))"
  using bg_step_conns [of N opn S g rv] bg_step_progress [of N rv g]
  by (auto simp: triple_def left_open_def always_def)

lemma bg_moves_left:
  assumes "conn_laws N opn"
  shows "triple (left_open opn S (Some g)) (bg_moves N rv n g) (\<lambda>g'. left_open opn S (Some g'))"
proof (induction n arbitrary: g)
  case (Suc n)
  have pick: "triple (left_open opn S (Some g)) (op_Pick N) (\<lambda>_. left_open opn S (Some g))"
    using held_frame [OF conn_lawsD(4) [OF assms], of S "bg_results g"] by (auto simp: left_open_def triple_def)
  show ?case unfolding bg_moves.simps
    by (rule triple_bind [OF pick], rule triple_if, rule triple_bind [OF bg_step_left [OF assms]])
      (auto intro: Suc.IH triple_ret)
qed (auto intro: triple_ret)

lemma meanwhile_left:
  "conn_laws N opn \<Longrightarrow> triple (left_open opn S bg) (meanwhile N rv bg) (left_open opn S)"
  unfolding meanwhile_def
  by (cases bg) (auto intro!: triple_ret triple_bind [OF bg_moves_left])

lemma bg_run_left:
  assumes "conn_laws N opn"
  shows "triple (left_open opn S (Some g)) (bg_run N rv n g) (\<lambda>g'. left_open opn S (Some g'))"
  by (induction n arbitrary: g) (auto intro!: triple_ret triple_bind [OF bg_step_left [OF assms]])

lemma bg_run_ends: "always (bg_run N rv n g) (\<lambda>g'. bg_left g' \<le> bg_left g - n)"
proof (induction n arbitrary: g)
  case (Suc n)
  show ?case unfolding bg_run.simps
    by (rule always_bind [OF bg_step_progress]) (rule always_mono [OF Suc.IH], auto)
qed (auto intro: always_ret)

lemma finish_left:
  assumes "conn_laws N opn"
  shows "triple (left_open opn S bg) (finish N rv bg) (\<lambda>_ w. opn w = S)"
proof (cases bg)
  case (Some g)
  have e: "bg_left g' = 0 \<Longrightarrow> bg_results g' = []" for g' :: "'b background"
    by (cases g') simp
  have "triple (left_open opn S (Some g)) (bg_run N rv (bg_left g) g) (\<lambda>_ w. opn w = S)"
    by (rule triple_conseq [OF triple_always [OF bg_run_left [OF assms, of S g] bg_run_ends]])
      (auto simp: left_open_def held_def e)
  then show ?thesis unfolding Some finish_def option.case by (rule triple_bind) (auto intro!: triple_ret)
qed (auto simp: finish_def left_open_def intro!: triple_ret)

text \<open>What dialling leaves open: the connection it returns, if any, and what is left behind.\<close>

definition dialled :: "('w \<Rightarrow> 'c set) \<Rightarrow> 'c set \<Rightarrow> 'c option \<Rightarrow> 'c background option \<Rightarrow> 'w \<Rightarrow> bool" where
  "dialled opn S c bg w \<longleftrightarrow>
     (case c of None \<Rightarrow> left_open opn S bg w | Some c \<Rightarrow> c \<notin> S \<and> left_open opn (insert c S) bg w)"

lemma dialled_frame:
  assumes "\<And>S. triple (left_open opn S bg) m (\<lambda>x. left_open opn S (f x))"
  shows "triple (dialled opn S c bg) m (\<lambda>x. dialled opn S c (f x))"
  using assms by (cases c) (auto simp: triple_def dialled_def)

lemma left_frame:
  assumes "\<And>S. triple (\<lambda>w. opn w = S) m (\<lambda>_ w. opn w = S)"
  shows "triple (left_open opn S bg) m (\<lambda>_. left_open opn S bg)"
proof (cases bg)
  case (Some g)
  show ?thesis using held_frame [OF assms, of S "bg_results g"] by (auto simp: triple_def left_open_def Some)
qed (use assms in \<open>auto simp: triple_def left_open_def\<close>)

lemma happy_conns:
  assumes "conn_laws N opn"
  shows "triple (\<lambda>w. opn w = S) (dialTCPHappyEyeballs N rv ts) (\<lambda>(r, bg). dialled opn S (conn_of r) bg)"
proof -
  define verdict :: "(goerr option + 'b) list \<Rightarrow> 'b worker \<Rightarrow> 'b worker \<Rightarrow> (goerr + 'b) \<times> 'b background option"
    where "verdict = (\<lambda>outs a' b'. case (first_conn outs, outs) of
             (Some winner, _) \<Rightarrow> (Inr winner, Some (Background a' b' []))
           | (None, [_, Inl lastErr]) \<Rightarrow> (Inl (dial_error lastErr), None)
           | _ \<Rightarrow> (Inl (dial_error None), None))"
  have fin: "(case verdict outs a' b' of (r, bg) \<Rightarrow> dialled opn S (conn_of r) bg) w"
    if l: "length outs + unfinished a' + unfinished b' = 2" and c: "length (conns_of outs) \<le> 1" and h: "held opn S outs w"
    for outs and a' b' :: "'b worker" and w
  proof (cases "conns_of outs")
    case Nil
    then have "opn w = S" "first_conn outs = None" using h by (simp_all add: held_def first_conn_conns)
    then show ?thesis
      by (auto simp: verdict_def dialled_def left_open_def conn_of_def split: list.splits sum.splits)
  next
    case (Cons winner cs)
    with c have cs: "conns_of outs = [winner]" by simp
    moreover have "outs \<noteq> []" using cs by auto
    then have "unfinished a' + unfinished b' \<le> 1" using l by (cases outs) auto
    ultimately show ?thesis using h
      by (auto simp: verdict_def dialled_def left_open_def conn_of_def held_def first_conn_conns)
  qed
  have none: "dialled opn (opn w) (conn_of (Inl e)) None w" for w and e :: goerr
    by (simp add: dialled_def left_open_def conn_of_def)
  have race: "triple (\<lambda>w. opn w = S) (await_first N rv (work_left a + work_left b) a b [])
      (\<lambda>(_, a', b', outs) w. (length outs + unfinished a' + unfinished b' = 2 \<and> length (conns_of outs) \<le> 1)
         \<and> held opn S outs w)"
    if "a \<noteq> WDone" "b \<noteq> WDone" for a b
    by (rule triple_conseq [OF triple_always [OF triple_always [OF await_first_conns [OF assms]
          await_first_outcomes [OF order.refl]] await_first_single]])
      (use that in \<open>auto simp: held_def unfinished_def\<close>)
  have addrs: "triple (\<lambda>w. opn w = S)
      (do { r \<leftarrow> dialTCPAddresses N rv p; ret (case r of Inr c \<Rightarrow> Inr c | Inl e \<Rightarrow> Inl (dial_error e), None) })
      (\<lambda>(r, bg). dialled opn S (conn_of r) bg)" for p
    unfolding dialTCPAddresses_def
    by (rule triple_bind [OF dial_loop_conns [OF assms]])
      (auto simp: conn_of_def holds_def dialled_def left_open_def intro!: triple_ret split: sum.splits)
  have raced: "triple (\<lambda>w. opn w = S)
      (do { (_, a', b', outs) \<leftarrow> await_first N rv (work_left a + work_left b) a b []; op_Cancel N; ret (verdict outs a' b') })
      (\<lambda>(r, bg). dialled opn S (conn_of r) bg)" if "a \<noteq> WDone" "b \<noteq> WDone" for a b
  proof (rule triple_bind [OF race [OF that]], goal_cases)
    case (1 x)
    obtain k a' b' outs where x: "x = (k, a', b', outs)" by (metis prod_cases4)
    show ?case unfolding x prod.case
      by (rule triple_pure, rule triple_bind [OF held_frame [OF conn_lawsD(7) [OF assms]]], rule triple_ret, rule fin) simp_all
  qed
  show ?thesis unfolding dialTCPHappyEyeballs_def verdict_def [symmetric, unfolded fun_eq_iff, rule_format]
    by (intro triple_if triple_case_prod triple_Let addrs)
      (auto simp: start_worker_not_done none intro!: triple_ret raced)
qed

lemma dial_timed_conns:
  assumes "conn_laws N opn" "sd_conn r = None"
  shows "triple (\<lambda>w. opn w = S) (dial_timed N rv r ts) (\<lambda>(d, e). dialled opn S (sd_conn d) (sd_background d))"
  unfolding dial_timed_def
proof (rule triple_bind [OF conn_lawsD(1) [OF assms(1)]], rule triple_bind [OF happy_conns [OF assms(1)]], goal_cases)
  case (1 t2 x)
  obtain c bg where x: "x = (c, bg)" by (cases x)
  note now = dialled_frame [OF left_frame [OF conn_lawsD(1) [OF assms(1)]]]
  show ?case unfolding x prod.case
    by (rule triple_bind [OF dialled_frame [OF meanwhile_left [OF assms(1)]]], rule triple_bind [OF now], intro triple_intro)
      (auto simp: conn_of_def assms(2))
qed

lemma dial_conns:
  assumes "conn_laws N opn"
  shows "triple (\<lambda>w. opn w = S) (dialTCPWithSplitPhases N rv a) (\<lambda>(d, e). dialled opn S (sd_conn d) (sd_background d))"
  unfolding dialTCPWithSplitPhases_def
  by (intro triple_intro triple_bind [OF conn_lawsD(1) [OF assms]]
      triple_bind [OF conn_lawsD(2) [OF assms]] dial_timed_conns [OF assms])
    (auto simp: dialled_def left_open_def)

text \<open>The connections that the goroutine left behind still holds: none, or one.\<close>

lemma left_open_card:
  assumes "left_open opn S bg w"
  shows "S \<subseteq> opn w" "card (opn w - S) \<le> 1" "bg = None \<Longrightarrow> opn w = S"
proof -
  show "S \<subseteq> opn w" "bg = None \<Longrightarrow> opn w = S" using assms by (auto simp: left_open_def held_def split: option.splits)
  show "card (opn w - S) \<le> 1"
  proof (cases bg)
    case (Some g)
    obtain a b rs where g: "g = Background a b rs" by (cases g)
    have "opn w - S \<subseteq> set (conns_of rs)" "length rs \<le> 1"
      using assms by (auto simp: left_open_def held_def Some g)
    then show ?thesis
      using card_mono [of "set (conns_of rs)" "opn w - S"] card_length [of "conns_of rs"] conns_of_length [of rs] by simp
  qed (use assms in \<open>simp add: left_open_def\<close>)
qed

lemma TCP_Probe_run_conns:
  assumes "conn_laws N opn"
  shows "triple (\<lambda>w. opn w = S) (TCP_Probe_run N target) (\<lambda>(_, bg). left_open opn S bg)"
proof -
  have close: "triple (dialled opn S (Some c) bg) (op_Close N c) (\<lambda>_. left_open opn S bg)" for c bg
  proof -
    have "opn w' = S \<union> set (conns_of rs)" if "c \<notin> S" "c \<notin> set (conns_of rs)" "opn w = insert c (S \<union> set (conns_of rs))"
      "opn w' = opn w - {c}" for w w' and rs :: "(goerr option + 'b) list"
      using that by auto
    moreover have "opn (snd (run_state (op_Close N c) w)) = opn w - {c}" for w
      using tripleD [OF conn_lawsD(6) [OF assms, of "opn w" c] refl] by simp
    ultimately show ?thesis
      by (cases bg) (auto simp: triple_def dialled_def left_open_def held_def)
  qed
  have fin: "triple (dialled opn S conn bg)
      (case (err, conn) of (Some e, _) \<Rightarrow> ret (r\<lparr>pr_Error := Some e\<rparr>, bg)
      | (None, Some conn) \<Rightarrow> do { op_Close N conn; bg' \<leftarrow> meanwhile N rv bg; ret (r\<lparr>pr_Success := True\<rparr>, bg') }
      | (None, None) \<Rightarrow> ret (r\<lparr>pr_Error := Some (SysErr ''nil pointer dereference'')\<rparr>, bg))
      (\<lambda>(_, bg). left_open opn S bg)"
    if "(err = None) = (conn \<noteq> None)" for err conn bg rv and r :: ProbeResult
  proof (cases conn)
    case None
    with that show ?thesis by (auto simp: dialled_def intro!: triple_ret)
  next
    case (Some c)
    with that have "err = None" by simp
    with Some show ?thesis
      by (auto intro!: triple_ret triple_bind [OF close] triple_bind [OF meanwhile_left [OF assms]])
  qed
  note now = dialled_frame [OF left_frame [OF conn_lawsD(1) [OF assms]]]
  show ?thesis unfolding TCP_Probe_run_def
  proof (rule triple_Let, rule triple_bind [OF conn_lawsD(1) [OF assms]],
      rule triple_bind [OF triple_always [OF dial_conns [OF assms] dial_conn]], goal_cases)
    case (1 rv start de)
    obtain d e where de: "de = (d, e)" by (cases de)
    show ?case unfolding de prod.case [of _ d e]
      by (intro triple_pure, rule triple_bind [OF now], intro triple_Let,
          rule triple_bind [OF dialled_frame [OF meanwhile_left [OF assms]]], rule fin)
  qed
qed

text \<open>
  C38: the TCP prober loses no connection. When a probe returns, every connection is still open that was
  open before, and at most one in addition: none unless two address families raced and the probe left
  a goroutine behind that waits for the slower one. Once this goroutine has ended, which takes it the
  moves it has left, exactly the connections are open that were open before the probe, whether dialling
  failed, succeeded at once, or both families connected, during the probe or after it.
\<close>

theorem TCP_Probe_closes_connections:
  assumes "conn_laws N opn" and "run_state (TCP_Probe_run N target) w = ((r, bg), w')"
  shows "opn w \<subseteq> opn w' \<and> card (opn w' - opn w) \<le> 1 \<and> (bg = None \<longrightarrow> opn w' = opn w)
    \<and> opn (snd (run_state (finish N (resolverFor (tc_DNSResolver target)) bg) w')) = opn w"
proof -
  have l: "left_open opn (opn w) bg w'"
    using tripleD [OF TCP_Probe_run_conns [OF assms(1), of "opn w" target], of w] assms(2) by simp
  show ?thesis using left_open_card [OF l] tripleD [OF finish_left [OF assms(1)] l] by blast
qed

text \<open>
  A small network: a clock and the list of open connections, in which every dial succeeds with a
  new connection.
\<close>

definition fresh_conn :: "nat list \<Rightarrow> nat" where
  "fresh_conn cs = Suc (foldr max cs 0)"

lemma fresh_conn_new: "c \<in> set cs \<Longrightarrow> c < fresh_conn cs"
  by (induction cs) (auto simp: fresh_conn_def)

definition small_net :: "(int \<times> nat list, nat) net_ops" where
  "small_net =
     \<lparr>op_Now = State (\<lambda>(t, cs). (t + 1, (t + 1, cs))),
      op_CtxErr = ret None,
      op_LookupIP = (\<lambda>_ _ _. ret (Inr [[0, 0, 0, 0, 0, 65535, 2560, 1]])),
      op_LookupIPAddr = (\<lambda>_ _. ret (Inr [([0, 0, 0, 0, 0, 65535, 2560, 1], []), ([8193, 3512, 0, 0, 0, 0, 0, 1], [])])),
      op_LookupCNAME = (\<lambda>_ _. ret (Inr ''alias.'')),
      op_Dial = (\<lambda>_ _. State (\<lambda>(t, cs). (Inr (fresh_conn cs), (t, fresh_conn cs # cs)))),
      op_Delay = (\<lambda>_. ret None), op_Pick = ret True, op_Cancel = ret (),
      op_Close = (\<lambda>c. State (\<lambda>(t, cs). ((), (t, filter (\<lambda>d. d \<noteq> c) cs))))\<rparr>"

lemma small_net_laws: "conn_laws small_net (\<lambda>w. set (snd w))"
  by (auto simp: conn_laws_def small_net_def triple_def dest: fresh_conn_new)

text \<open>
  A network in which the goroutine left behind is slow: after the second connection, number 9, is there
  it makes no move until the probe has returned. The probe returns with the connection open.
\<close>

definition late_net :: "(int \<times> nat list, nat) net_ops" where
  "late_net = small_net\<lparr>op_Pick := State (\<lambda>(t, cs). (9 \<notin> set cs, (t, cs)))\<rparr>"

lemma late_net_laws: "conn_laws late_net (\<lambda>w. set (snd w))"
  using small_net_laws by (auto simp: conn_laws_def late_net_def triple_def)

lemma late_ops:
  "run_state (op_Pick late_net) (t, cs) = (9 \<notin> set cs, (t, cs))"
  "run_state (op_Dial late_net rv a) (t, cs) = (Inr (fresh_conn cs), (t, fresh_conn cs # cs))"
  "run_state (op_Delay late_net d) w = (None, w)" "run_state (op_Cancel late_net) w = ((), w)"
  "run_state (op_Now late_net) (t, cs) = (t + 1, (t + 1, cs))"
  "run_state (op_Close late_net c) (t, cs) = ((), (t, filter (\<lambda>d. d \<noteq> c) cs))"
  by (simp_all add: late_net_def small_net_def)

lemma late_dial:
  assumes "ts \<noteq> []" "splitDialFamilies ts = ([p], [f])"
  shows "run_state (dialTCPHappyEyeballs late_net rv ts) (t, [7])
    = ((Inr 8, Some (Background WDone (WDelay happyEyeballsFallbackDelay [f]) [])), (t, [8, 7]))"
  using assms
  by (simp add: dialTCPHappyEyeballs_def start_worker_def happyEyeballsFallbackDelay_def Millisecond_def Let_def
      late_ops fresh_conn_def)

lemma late_background:
  "run_state (meanwhile late_net rv (Some (Background WDone (WDelay d [f]) []))) (t, [8, 7])
     = (Some (Background WDone WDone [Inr 9]), (t, [9, 8, 7]))"
proof -
  have "run_state (bg_moves late_net rv (Suc (Suc (Suc n))) (Background WDone (WDelay d [f]) [])) (t, [8, 7])
      = (Background WDone WDone [Inr 9], (t, [9, 8, 7]))" for n
    by (simp add: late_ops fresh_conn_def)
  from this [of 3] show ?thesis by (simp add: meanwhile_def)
qed

lemma late_stays:
  "9 \<in> set cs \<Longrightarrow> run_state (meanwhile late_net rv (Some g)) (t, cs) = (Some g, (t, cs))"
  by (cases "bg_left g") (simp_all add: meanwhile_def late_ops)

lemma loser_outlives_dial:
  assumes "ts \<noteq> []" "splitDialFamilies ts = ([p], [f])" "sd_conn r = None"
  shows "run_state (do {
      (d, _) \<leftarrow> dial_timed late_net rv r ts;
      op_Close late_net (the (sd_conn d));
      meanwhile late_net rv (sd_background d) }) (t, [7])
    = (Some (Background WDone WDone [Inr 9]), (t + 2, [9, 7]))"
  using assms by (simp add: dial_timed_def late_dial late_background late_stays late_ops)

theorem TCP_Probe_closes_connections_witness:
  "(case run_state (TCP_Probe_run late_net (zero_target\<lparr>tc_Address := ''h:80''\<rparr>)) (1, [7]) of
     ((r, bg), w) \<Rightarrow> card (set (snd w) - {7}) \<le> 1 \<and>
       set (snd (snd (run_state (finish late_net (resolverFor (tc_DNSResolver zero_target)) bg) w))) = {7})"
proof -
  let ?t = "zero_target\<lparr>tc_Address := ''h:80''\<rparr>"
  obtain r bg w where e: "run_state (TCP_Probe_run late_net ?t) (1, [7]) = ((r, bg), w)" by (metis surj_pair)
  note c = TCP_Probe_closes_connections [OF late_net_laws e]
  show ?thesis unfolding e prod.case using c by (simp only: snd_conv list.set) simp
qed

text \<open>
  A TCP probe succeeds exactly if dialling returns a connection, reports the error of the dial
  otherwise, and its phases are exactly the DNS lookup and the connect that took place.
\<close>

lemma TCP_Probe_outcome:
  assumes "run_state (op_Now N) w = (start, w1)"
    and "run_state (dialTCPWithSplitPhases N (resolverFor (tc_DNSResolver t)) (tc_Address t)) w1 = ((d, err), w2)"
    and "r = fst (run_state (TCP_Probe N t) w)"
  shows "(pr_Success r \<longleftrightarrow> err = None) \<and> pr_Error r = err
    \<and> mget (pr_Phases r) PhaseDNSResolve
        = (if sd_dnsStart d = 0 \<or> sd_dnsEnd d = 0 then None else Some (safeSub (sd_dnsEnd d) (sd_dnsStart d)))
    \<and> mget (pr_Phases r) PhaseTCPConnect
        = (if sd_tcpStart d = 0 \<or> sd_tcpEnd d = 0 then None else Some (safeSub (sd_tcpEnd d) (sd_tcpStart d)))
    \<and> set (mkeys (pr_Phases r)) \<subseteq> {PhaseDNSResolve, PhaseTCPConnect}"
proof -
  have conn: "(err = None) = (sd_conn d \<noteq> None)"
    using alwaysD [OF dial_conn, of N "resolverFor (tc_DNSResolver t)" "tc_Address t" w1] assms(2) by simp
  have ne: "PhaseDNSResolve \<noteq> PhaseTCPConnect" "PhaseTCPConnect \<noteq> PhaseDNSResolve" by (simp_all add: phase_defs)
  obtain stop w3 where s: "run_state (op_Now N) w2 = (stop, w3)" by fastforce
  define ph where "ph = addObservedPhase (addObservedPhase (Some []) PhaseDNSResolve (sd_dnsEnd d) (sd_dnsStart d))
      PhaseTCPConnect (sd_tcpEnd d) (sd_tcpStart d)"
  have phases: "pr_Phases r = (if slen ph > 0 then ph else None)" and err: "pr_Error r = err"
    and succ: "pr_Success r \<longleftrightarrow> err = None"
    using assms s conn
    by (auto simp: TCP_Probe_def TCP_Probe_run_def Let_def ph_def set_phases_def split: option.splits prod.splits)
  have "mget ph PhaseDNSResolve
        = (if sd_dnsStart d = 0 \<or> sd_dnsEnd d = 0 then None else Some (safeSub (sd_dnsEnd d) (sd_dnsStart d)))"
    "mget ph PhaseTCPConnect
        = (if sd_tcpStart d = 0 \<or> sd_tcpEnd d = 0 then None else Some (safeSub (sd_tcpEnd d) (sd_tcpStart d)))"
    "set (mkeys ph) \<subseteq> {PhaseDNSResolve, PhaseTCPConnect}"
    using ne by (auto simp: ph_def addObservedPhase_def IsZero_def mkeys_mput, auto simp: mget_def mkeys_def)
  moreover have "mget (pr_Phases r) k = mget ph k" "set (mkeys (pr_Phases r)) = set (mkeys ph)" for k
    using phases by (auto simp: mget_def mkeys_def split: if_splits)
  ultimately show ?thesis using succ err by simp
qed

end
