(* ===== verification/Probe_DNS.thy ===== *)
theory Probe_DNS
  imports Probe_TCP
begin

text \<open>
  \<^verbatim>\<open>internal/probe/dns.go\<close>: the DNS prober, its resolver, the lookup by record type and the comparison
  of the records with the expected ones.
\<close>

definition DNS_buildResolver :: "string \<Rightarrow> resolver \<Rightarrow> resolver" where
  "DNS_buildResolver server preResolver =
     (if server = [] then DefaultResolver
      else DialResolver (if SplitHostPort server = None then JoinHostPort server ''53'' else server)
        (Some preResolver))"

definition lookup_strings ::
  "('w, 'c) net_ops \<Rightarrow> resolver \<Rightarrow> string \<Rightarrow> string \<Rightarrow> ('w, goerr + string list) io" where
  "lookup_strings N rv network name = do {
     ips \<leftarrow> op_LookupIP N rv network name;
     ret (case ips of Inl e \<Rightarrow> Inl e | Inr ps \<Rightarrow> Inr (map IP_String ps))
   }"

definition DNS_resolve ::
  "('w, 'c) net_ops \<Rightarrow> resolver \<Rightarrow> string \<Rightarrow> string \<Rightarrow> ('w, goerr + string list) io" where
  "DNS_resolve N rv queryName queryType =
     (if queryType = ''A'' then lookup_strings N rv ''ip4'' queryName
      else if queryType = ''AAAA'' then lookup_strings N rv ''ip6'' queryName
      else if queryType = ''CNAME'' then do {
        c \<leftarrow> op_LookupCNAME N rv queryName;
        ret (case c of
               Inl e \<Rightarrow> Inl e
             | Inr cname \<Rightarrow> (let s = TrimSuffix cname ''.'' in Inr (if s = [] then [] else [s])))
      }
      else ret (Inl (Errorf ''unsupported dns_query_type: %s'' [FStr queryType])))"

definition dns_norm :: "string \<Rightarrow> string" where
  "dns_norm v = TrimSuffix (ToLower (TrimSpace v)) ''.''"

fun same_elements :: "string list \<Rightarrow> string list \<Rightarrow> bool" where
  "same_elements (x # xs) (y # ys) = (x = y \<and> same_elements xs ys)"
| "same_elements _ _ = True"

definition matchExpected :: "string list \<Rightarrow> string list \<Rightarrow> bool" where
  "matchExpected got want =
     (let g = sort (map dns_norm got); w = sort (map dns_norm want)
      in if length g \<noteq> length w then False else same_elements g w)"

definition DNS_Probe :: "('w, 'c) net_ops \<Rightarrow> TargetConfig \<Rightarrow> ('w, ProbeResult) io" where
  "DNS_Probe N target =
     (let opts = tc_ProbeOpts target;
          queryName = (if po_DNSQueryName opts = [] then tc_Address target else po_DNSQueryName opts);
          queryType = (if po_DNSQueryType opts = [] then ''A'' else po_DNSQueryType opts);
          rv = DNS_buildResolver (po_DNSServer opts) (resolverFor (tc_DNSResolver target));
          expected = elems (po_DNSExpectedResults opts)
      in do {
        start \<leftarrow> op_Now N;
        records \<leftarrow> DNS_resolve N rv queryName queryType;
        stop \<leftarrow> op_Now N;
        let elapsed = time_Sub stop start;
        let r = zero_result\<lparr>pr_DNSResolveTime := elapsed, pr_Duration := elapsed\<rparr>;
        ret (case records of
               Inl e \<Rightarrow> r\<lparr>pr_Error := Some (Errorf ''dns resolve: %s'' [FErr e])\<rparr>
             | Inr recs \<Rightarrow>
                 if recs = [] then
                   (if expected \<noteq> [] then r\<lparr>pr_DNSMatchEvaluated := True, pr_DNSMatched := False\<rparr> else r)
                     \<lparr>pr_Error := Some (Errorf ''dns resolve: no results returned'' [])\<rparr>
                 else if expected = [] then r\<lparr>pr_Success := True\<rparr>
                 else if matchExpected recs expected then
                   r\<lparr>pr_Success := True, pr_DNSMatchEvaluated := True, pr_DNSMatched := True\<rparr>
                 else r\<lparr>pr_Success := False, pr_DNSMatchEvaluated := True, pr_DNSMatched := False,
                     pr_Error := Some (Errorf ''dns expected result mismatch: got %v, want %v''
                       (map FStr recs @ map FStr expected))\<rparr>)
      })"

section \<open>Properties\<close>

lemma same_elements_eq: "length xs = length ys \<Longrightarrow> same_elements xs ys \<longleftrightarrow> xs = ys"
  by (induction xs ys rule: list_induct2) auto

text \<open>
  The comparison with the expected records is equality of multisets of normalised records: it
  ignores order, letter case, surrounding space and a trailing dot, and it counts duplicates.
\<close>

lemma matchExpected_iff:
  "matchExpected got want \<longleftrightarrow> image_mset dns_norm (mset got) = image_mset dns_norm (mset want)"
proof -
  have "matchExpected got want \<longleftrightarrow> sort (map dns_norm got) = sort (map dns_norm want)"
    by (auto simp: matchExpected_def Let_def same_elements_eq dest: arg_cong [of _ _ length])
  also have "\<dots> \<longleftrightarrow> mset (map dns_norm got) = mset (map dns_norm want)"
    by (rule sort_eq_iff)
  finally show ?thesis by simp
qed

lemma DNS_Probe_ok: "always (DNS_Probe N t) result_ok"
  unfolding DNS_Probe_def by (intro always_intro) (auto simp: result_ok_def split: sum.splits)

interpretation dns: prober "DNS_Probe N" for N :: "('w, 'c) net_ops"
  by unfold_locales (rule DNS_Probe_ok)

text \<open>
  C39: a DNS probe succeeds exactly if the lookup returned at least one record and the records are,
  as a multiset, the expected ones whenever some are configured; the match is reported as evaluated
  exactly if expectations are configured and the lookup did not fail, and both times are equal.
\<close>

theorem DNS_Probe_outcome:
  assumes "run_state (op_Now N) w = (start, w1)"
    and "run_state (DNS_resolve N (DNS_buildResolver (po_DNSServer (tc_ProbeOpts t)) (resolverFor (tc_DNSResolver t)))
           (if po_DNSQueryName (tc_ProbeOpts t) = [] then tc_Address t else po_DNSQueryName (tc_ProbeOpts t))
           (if po_DNSQueryType (tc_ProbeOpts t) = [] then ''A'' else po_DNSQueryType (tc_ProbeOpts t))) w1
         = (records, w2)"
    and "r = fst (run_state (DNS_Probe N t) w)"
  shows "(pr_Success r \<longleftrightarrow> (\<exists>recs. records = Inr recs \<and> recs \<noteq> []
           \<and> (elems (po_DNSExpectedResults (tc_ProbeOpts t)) = []
              \<or> image_mset dns_norm (mset recs) = image_mset dns_norm (mset (elems (po_DNSExpectedResults (tc_ProbeOpts t)))))))
    \<and> (pr_DNSMatchEvaluated r \<longleftrightarrow> elems (po_DNSExpectedResults (tc_ProbeOpts t)) \<noteq> [] \<and> (\<exists>recs. records = Inr recs))
    \<and> (pr_DNSMatched r \<longrightarrow> pr_DNSMatchEvaluated r \<and> pr_Success r)
    \<and> pr_Duration r = pr_DNSResolveTime r"
proof -
  obtain stop w3 where "run_state (op_Now N) w2 = (stop, w3)" by fastforce
  with assms show ?thesis
    by (auto simp: DNS_Probe_def Let_def zero_result_def matchExpected_iff split: sum.splits prod.splits)
qed

theorem DNS_Probe_outcome_witness:
  "pr_Success (fst (run_state (DNS_Probe small_net (zero_target\<lparr>tc_Address := ''h''\<rparr>)) (1, [])))"
proof -
  define t where "t = zero_target\<lparr>tc_Address := ''h''\<rparr>"
  have n: "run_state (op_Now small_net) (1, []) = (2, (2, []))" by (simp add: small_net_def)
  have "run_state (DNS_resolve small_net
        (DNS_buildResolver (po_DNSServer (tc_ProbeOpts t)) (resolverFor (tc_DNSResolver t)))
        (if po_DNSQueryName (tc_ProbeOpts t) = [] then tc_Address t else po_DNSQueryName (tc_ProbeOpts t))
        (if po_DNSQueryType (tc_ProbeOpts t) = [] then ''A'' else po_DNSQueryType (tc_ProbeOpts t))) (2, [])
      = (Inr [''10.0.0.1''], (2, []))"
    by (simp add: t_def DNS_resolve_def lookup_strings_def small_net_def go_eval)
  from DNS_Probe_outcome [OF n this refl] show ?thesis by (simp add: t_def zero_target_def zero_opts_def)
qed

end
