(* ===== verification/Probe_MTU.thy ===== *)
theory Probe_MTU
  imports Probe_Result Config_Load
begin

text \<open>
  \<^verbatim>\<open>internal/probe/mtu.go\<close> and \<^verbatim>\<open>mtu_backend_other.go\<close>: the path MTU prober. The back end that sends the
  packets is the record \<open>mtuProbeBackend\<close>, an interface of the source; each of its calls gets the
  timeout of the attempt's context. The locale \<open>mtu_backend\<close> states what the prober needs of it: an
  answer to a probe of a size carries that size.
\<close>

section \<open>Data\<close>

definition mtuSanityPayloadSize :: int where "mtuSanityPayloadSize = 64"
definition mtuSanitySeq :: int where "mtuSanitySeq = 0"

datatype mtuPayloadStatus = mtuPayloadSuccess | mtuPayloadTooLarge | mtuPayloadLocalTooLarge
  | mtuPayloadTimeout | mtuPayloadUnreachable | mtuPayloadError

record mtuPayloadResult =
  mp_status :: mtuPayloadStatus
  mp_payloadSize :: int
  mp_rtt :: duration
  mp_err :: "goerr option"

record mtuClassification =
  cl_state :: string
  cl_detail :: string
  cl_pathMTU :: int
  cl_success :: bool

type_synonym ipv4 = "nat \<times> nat"

record 'w mtuProbeBackend =
  be_probeSmallEcho :: "duration \<Rightarrow> ipv4 \<Rightarrow> int \<Rightarrow> int \<Rightarrow> ('w, mtuPayloadResult) io"
  be_probePayloadWithDF :: "duration \<Rightarrow> ipv4 \<Rightarrow> int \<Rightarrow> int \<Rightarrow> ('w, mtuPayloadResult) io"

section \<open>Pure helpers\<close>

definition effectiveMTURetries :: "int \<Rightarrow> int" where
  "effectiveMTURetries retries = (if retries < 1 then DefaultMTURetries else retries)"

definition effectiveMTUPerAttemptTimeout :: "duration \<Rightarrow> duration" where
  "effectiveMTUPerAttemptTimeout timeout =
     (if timeout \<le> 0 then DefaultMTUPerAttemptTimeout else timeout)"

definition avgRTT :: "duration list \<Rightarrow> duration" where
  "avgRTT samples =
     (if samples = [] then 0
      else foldl (\<lambda>total s. int64 (total + s)) 0 samples sdiv int (length samples))"

text \<open>\<^verbatim>\<open>errors.Is(err, os.ErrPermission)\<close> on an error value: it or an error it wraps.\<close>

fun is_perm :: "goerr \<Rightarrow> bool" and is_perm_arg :: "fmtarg \<Rightarrow> bool" where
  "is_perm (SysErr s) = (s = ''permission denied'' \<or> s = ''operation not permitted'')"
| "is_perm (Errorf f args) = (Contains f ''%w'' \<and> list_ex is_perm_arg args)"
| "is_perm_arg (FErr e) = is_perm e"
| "is_perm_arg (FStr s) = False"
| "is_perm_arg (FInt i) = False"

definition isPermissionError :: "goerr option \<Rightarrow> bool" where
  "isPermissionError err = (case err of None \<Rightarrow> False | Some e \<Rightarrow> is_perm e)"

definition mtuPermissionDeniedError :: goerr where
  "mtuPermissionDeniedError =
     Errorf ''permission denied: check net.ipv4.ping_group_range for the process effective or supplementary GID'' []"

fun first_with :: "mtuPayloadStatus \<Rightarrow> mtuPayloadResult list \<Rightarrow> mtuPayloadResult option" where
  "first_with st [] = None"
| "first_with st (a # as) = (if mp_status a = st then Some a else first_with st as)"

fun or_else :: "'a option \<Rightarrow> 'a option \<Rightarrow> 'a option" where
  "or_else (Some x) y = Some x"
| "or_else None y = y"

definition payload_timeout :: "int \<Rightarrow> mtuPayloadResult" where
  "payload_timeout s = \<lparr>mp_status = mtuPayloadTimeout, mp_payloadSize = s, mp_rtt = 0, mp_err = None\<rparr>"

definition classifyPayloadAttempts :: "mtuPayloadResult list \<Rightarrow> mtuPayloadResult" where
  "classifyPayloadAttempts attempts =
     (if attempts = [] then payload_timeout 0
      else case or_else (first_with mtuPayloadSuccess attempts)
             (or_else (first_with mtuPayloadUnreachable attempts)
             (or_else (first_with mtuPayloadError attempts)
             (or_else (first_with mtuPayloadLocalTooLarge attempts)
                      (first_with mtuPayloadTooLarge attempts)))) of
        Some a \<Rightarrow> a
      | None \<Rightarrow> payload_timeout (mp_payloadSize (hd attempts)))"

definition hasPayloadStatus :: "mtuPayloadResult list \<Rightarrow> mtuPayloadStatus \<Rightarrow> bool" where
  "hasPayloadStatus results status = list_ex (\<lambda>r. mp_status r = status) results"

definition detailForPriorPayloadFailures :: "mtuPayloadResult list \<Rightarrow> string" where
  "detailForPriorPayloadFailures results =
     (if hasPayloadStatus results mtuPayloadLocalTooLarge then MTUDetailLocalMessageTooLarge
      else if hasPayloadStatus results mtuPayloadTooLarge then MTUDetailFragmentationNeeded
      else if hasPayloadStatus results mtuPayloadTimeout then MTUDetailLargerSizesTimedOut
      else MTUDetailLargestSizeConfirmed)"

definition detailForFailedPayloads :: "mtuPayloadResult list \<Rightarrow> string" where
  "detailForFailedPayloads results =
     (if hasPayloadStatus results mtuPayloadLocalTooLarge then MTUDetailLocalMessageTooLarge
      else if hasPayloadStatus results mtuPayloadTooLarge then MTUDetailBelowMinTested
      else MTUDetailAllSizesTimedOut)"

text \<open>The results before the first success, and that success.\<close>

fun split_success :: "mtuPayloadResult list \<Rightarrow> (mtuPayloadResult list \<times> mtuPayloadResult) option" where
  "split_success [] = None"
| "split_success (r # rs) =
     (if mp_status r = mtuPayloadSuccess then Some ([], r)
      else map_option (map_prod (Cons r) id) (split_success rs))"

definition classifyMTUResult :: "mtuPayloadResult list \<Rightarrow> int \<Rightarrow> mtuClassification" where
  "classifyMTUResult results expectedMinMTU =
     (case split_success results of
        Some (prior, r) \<Rightarrow>
          (let pathMTU = int64 (mp_payloadSize r + 28);
               below = (expectedMinMTU > 0 \<and> pathMTU < expectedMinMTU)
           in \<lparr>cl_state = (if below then MTUStateDegraded else MTUStateOK),
               cl_detail = detailForPriorPayloadFailures prior, cl_pathMTU = pathMTU,
               cl_success = \<not> below\<rparr>)
      | None \<Rightarrow>
          \<lparr>cl_state = MTUStateDegraded, cl_detail = detailForFailedPayloads results, cl_pathMTU = -1,
           cl_success = False\<rparr>)"

section \<open>Results\<close>

definition clearObservedICMPRTT :: "ProbeResult \<Rightarrow> ProbeResult" where
  "clearObservedICMPRTT r = r\<lparr>pr_ICMPRepliesObserved := 0, pr_ICMPAvgRTT := 0\<rparr>"

definition set_rtt :: "duration list \<Rightarrow> ProbeResult \<Rightarrow> ProbeResult" where
  "set_rtt samples r = r\<lparr>pr_ICMPRepliesObserved := int (length samples), pr_ICMPAvgRTT := avgRTT samples\<rparr>"

definition set_mtu :: "string \<Rightarrow> string \<Rightarrow> goerr \<Rightarrow> ProbeResult \<Rightarrow> ProbeResult" where
  "set_mtu state detail err r = r\<lparr>pr_MTUState := state, pr_MTUDetail := detail, pr_Error := Some err\<rparr>"

definition setMTUInconclusive :: "ProbeResult \<Rightarrow> duration list \<Rightarrow> goerr option \<Rightarrow> ProbeResult" where
  "setMTUInconclusive r rttSamples err =
     set_mtu MTUStateDegraded MTUDetailInconclusive
       (case err of
          Some e \<Rightarrow> Errorf ''mtu probe inconclusive: %s'' [FErr e]
        | None \<Rightarrow> Errorf ''mtu probe inconclusive'' [])
       (set_rtt rttSamples (r\<lparr>pr_PathMTU := -1, pr_Success := False\<rparr>))"

definition error_text :: "string \<Rightarrow> goerr option \<Rightarrow> goerr" where
  "error_text fmt err = Errorf fmt [case err of None \<Rightarrow> FStr ''unknown error'' | Some e \<Rightarrow> FErr e]"

text \<open>\<open>None\<close> for a sanity check that succeeded, where the source returns false.\<close>

definition applySanityFailure :: "ProbeResult \<Rightarrow> mtuPayloadResult \<Rightarrow> ProbeResult option" where
  "applySanityFailure r sanity =
     (let r' = (clearObservedICMPRTT r)\<lparr>pr_PathMTU := -1\<rparr> in
      case mp_status sanity of
        mtuPayloadSuccess \<Rightarrow> None
      | mtuPayloadUnreachable \<Rightarrow>
          Some (set_mtu MTUStateUnreachable MTUDetailDestinationUnreach
            (Errorf ''sanity check destination unreachable'' []) r')
      | mtuPayloadError \<Rightarrow>
          (if isPermissionError (mp_err sanity) then
             Some (set_mtu MTUStateError MTUDetailPermissionDenied mtuPermissionDeniedError r')
           else Some (set_mtu MTUStateError MTUDetailInternalError
             (error_text ''mtu sanity check error: %s'' (mp_err sanity)) r'))
      | _ \<Rightarrow>
          Some (set_mtu MTUStateUnreachable MTUDetailSanityCheckFailed
            (Errorf ''sanity check failed'' []) r'))"

definition apply_classification :: "mtuClassification \<Rightarrow> duration list \<Rightarrow> ProbeResult \<Rightarrow> ProbeResult" where
  "apply_classification c rttSamples r =
     set_rtt rttSamples (r\<lparr>pr_PathMTU := cl_pathMTU c, pr_Success := cl_success c,
       pr_MTUState := cl_state c, pr_MTUDetail := cl_detail c\<rparr>)"

section \<open>The probe\<close>

definition final_status :: "mtuPayloadStatus \<Rightarrow> bool" where
  "final_status st = (st = mtuPayloadSuccess \<or> st = mtuPayloadUnreachable \<or> st = mtuPayloadError)"

text \<open>The loop that both retry functions of the source have.\<close>

fun attempts_loop ::
  "('w, 'c) net_ops \<Rightarrow> ('w, mtuPayloadResult) io \<Rightarrow> nat \<Rightarrow> mtuPayloadResult list
     \<Rightarrow> ('w, mtuPayloadResult list) io" where
  "attempts_loop N m 0 attempts = ret attempts"
| "attempts_loop N m (Suc k) attempts = do {
     r \<leftarrow> m;
     if final_status (mp_status r) then ret (attempts @ [r])
     else do {
       ce \<leftarrow> op_CtxErr N;
       if ce \<noteq> None then ret (attempts @ [r]) else attempts_loop N m k (attempts @ [r])
     }
   }"

definition probeSmallICMPEchoWithRetries ::
  "('w, 'c) net_ops \<Rightarrow> 'w mtuProbeBackend \<Rightarrow> ipv4 \<Rightarrow> duration \<Rightarrow> int \<Rightarrow> ('w, mtuPayloadResult) io" where
  "probeSmallICMPEchoWithRetries N B dst perAttemptTimeout retries = do {
     attempts \<leftarrow> attempts_loop N
       (be_probeSmallEcho B perAttemptTimeout dst mtuSanityPayloadSize mtuSanitySeq) (nat retries) [];
     ret (classifyPayloadAttempts attempts)
   }"

definition probePayloadWithDFRetries ::
  "('w, 'c) net_ops \<Rightarrow> 'w mtuProbeBackend \<Rightarrow> ipv4 \<Rightarrow> int \<Rightarrow> duration \<Rightarrow> int \<Rightarrow> ('w, mtuPayloadResult) io" where
  "probePayloadWithDFRetries N B dst payloadSize perAttemptTimeout retries = do {
     attempts \<leftarrow> attempts_loop N
       (be_probePayloadWithDF B perAttemptTimeout dst payloadSize payloadSize) (nat retries) [];
     ret (classifyPayloadAttempts attempts)
   }"

text \<open>The three bytes of the dash in the text of the source.\<close>

definition em_dash :: string where
  "em_dash = [CHR 0xE2, CHR 0x80, CHR 0x94]"

text \<open>
  The loop over the sizes: \<open>results\<close> are the payload results and \<open>rtts\<close> the round-trip times so
  far, \<open>probe1\<close> is the probe of one size with its retries.
\<close>

fun step_down ::
  "('w, 'c) net_ops \<Rightarrow> (int \<Rightarrow> ('w, mtuPayloadResult) io) \<Rightarrow> int \<Rightarrow> ProbeResult \<Rightarrow> int list
     \<Rightarrow> mtuPayloadResult list \<Rightarrow> duration list \<Rightarrow> ('w, ProbeResult) io" where
  "step_down N probe1 expectedMin r [] results rtts =
     ret ((apply_classification (classifyMTUResult results expectedMin) rtts r)\<lparr>pr_Error :=
       Some (Errorf (''all MTU sizes failed '' @ em_dash @ '' target unreachable or path MTU below minimum test size'') [])\<rparr>)"
| "step_down N probe1 expectedMin r (payloadSize # sizes) results rtts = do {
     ce \<leftarrow> op_CtxErr N;
     if ce \<noteq> None then ret (setMTUInconclusive r rtts ce)
     else do {
       p \<leftarrow> probe1 payloadSize;
       let results' = results @ [p];
       let rtts' = (if mp_rtt p > 0 then rtts @ [mp_rtt p] else rtts);
       ce' \<leftarrow> (if mp_status p = mtuPayloadTimeout then op_CtxErr N else ret None);
       if ce' \<noteq> None then ret (setMTUInconclusive r rtts' ce')
       else (case mp_status p of
          mtuPayloadSuccess \<Rightarrow>
            (let c = classifyMTUResult results' expectedMin;
                 r' = apply_classification c rtts' r
             in ret (if cl_success c then r'
                     else r'\<lparr>pr_Error := Some (Errorf ''path MTU %d below expected minimum %d''
                       [FInt (cl_pathMTU c), FInt expectedMin])\<rparr>))
        | mtuPayloadUnreachable \<Rightarrow>
            ret (set_rtt rtts' (set_mtu MTUStateUnreachable MTUDetailDestinationUnreach
              (Errorf ''destination unreachable'' []) r))
        | mtuPayloadError \<Rightarrow>
            (if isPermissionError (mp_err p) then
               ret (set_rtt rtts' (set_mtu MTUStateError MTUDetailPermissionDenied mtuPermissionDeniedError r))
             else ret (set_rtt rtts' (set_mtu MTUStateError MTUDetailInternalError
               (error_text ''mtu probe error: %s'' (mp_err p)) r)))
        | _ \<Rightarrow> step_down N probe1 expectedMin r sizes results' rtts')
     }
   }"

text \<open>The body of \<^verbatim>\<open>Probe\<close> between the two readings of the clock.\<close>

definition MTU_body ::
  "('w, 'c) net_ops \<Rightarrow> 'w mtuProbeBackend \<Rightarrow> TargetConfig \<Rightarrow> ('w, ProbeResult) io" where
  "MTU_body N B target =
     (let opts = tc_ProbeOpts target; sizes = elems (po_ICMPPayloadSizes opts);
          r0 = zero_result\<lparr>pr_PathMTU := -1\<rparr>
      in if sizes = [] then
           ret (set_mtu MTUStateError MTUDetailInternalError (Errorf ''no icmp_payload_sizes configured'' [])
             (clearObservedICMPRTT r0))
         else do {
           re \<leftarrow> resolveIPv4 N (resolverFor (tc_DNSResolver target)) (tc_Address target);
           (case re of (resolved, err) \<Rightarrow>
              let r1 = (if ir_dnsStart resolved \<noteq> 0
                    then set_phases (addObservedPhase (Some []) PhaseDNSResolve (ir_dnsEnd resolved) (ir_dnsStart resolved)) r0
                    else r0)
              in case (err, ir_addr resolved) of
                (Some e, _) \<Rightarrow>
                  ret (set_mtu MTUStateError MTUDetailResolveError (Errorf ''resolve IPv4 address: %s'' [FErr e])
                    (clearObservedICMPRTT r1))
              | (None, None) \<Rightarrow> ret (r1\<lparr>pr_Error := Some (SysErr ''nil pointer dereference'')\<rparr>)
              | (None, Some dst) \<Rightarrow> do {
                  ce \<leftarrow> op_CtxErr N;
                  if ce \<noteq> None then ret (setMTUInconclusive r1 [] ce)
                  else do {
                    let retries = effectiveMTURetries (po_MTURetries opts);
                    let timeout = effectiveMTUPerAttemptTimeout (po_MTUPerAttemptTimeout opts);
                    sanity \<leftarrow> probeSmallICMPEchoWithRetries N B dst timeout retries;
                    ce' \<leftarrow> (if mp_status sanity = mtuPayloadTimeout then op_CtxErr N else ret None);
                    if ce' \<noteq> None then ret (setMTUInconclusive r1 [] ce')
                    else (case applySanityFailure r1 sanity of
                       Some r \<Rightarrow> ret r
                     | None \<Rightarrow>
                         step_down N (\<lambda>s. probePayloadWithDFRetries N B dst s timeout retries)
                           (po_ExpectedMinMTU opts) r1 sizes []
                           (if mp_rtt sanity > 0 then [mp_rtt sanity] else []))
                  }
                })
         })"

definition MTU_Probe ::
  "('w, 'c) net_ops \<Rightarrow> 'w mtuProbeBackend \<Rightarrow> TargetConfig \<Rightarrow> ('w, ProbeResult) io" where
  "MTU_Probe N B target = do {
     start \<leftarrow> op_Now N;
     r \<leftarrow> MTU_body N B target;
     stop \<leftarrow> op_Now N;
     ret (r\<lparr>pr_Duration := time_Sub stop start\<rparr>)
   }"

text \<open>The back end of systems other than Linux.\<close>

definition unsupported_result :: mtuPayloadResult where
  "unsupported_result = \<lparr>mp_status = mtuPayloadError, mp_payloadSize = 0, mp_rtt = 0,
     mp_err = Some (Errorf ''mtu probing is supported on Linux only'' [])\<rparr>"

definition unsupportedMTUBackend :: "'w mtuProbeBackend" where
  "unsupportedMTUBackend =
     \<lparr>be_probeSmallEcho = (\<lambda>_ _ _ _. ret unsupported_result),
      be_probePayloadWithDF = (\<lambda>_ _ _ _. ret unsupported_result)\<rparr>"

section \<open>Classification\<close>

definition prior_status :: "mtuPayloadStatus \<Rightarrow> bool" where
  "prior_status st \<longleftrightarrow> st \<in> {mtuPayloadTooLarge, mtuPayloadLocalTooLarge, mtuPayloadTimeout}"

lemma split_success_None: "split_success rs = None \<longleftrightarrow> (\<forall>r \<in> set rs. mp_status r \<noteq> mtuPayloadSuccess)"
  by (induction rs) auto

lemma split_success_Some:
  "split_success rs = Some (prior, r) \<longleftrightarrow>
     (\<exists>post. rs = prior @ r # post) \<and> mp_status r = mtuPayloadSuccess
     \<and> (\<forall>p \<in> set prior. mp_status p \<noteq> mtuPayloadSuccess)"
proof (induction rs arbitrary: prior)
  case (Cons a rs)
  show ?case
  proof (cases "mp_status a = mtuPayloadSuccess")
    case True
    then show ?thesis by (cases prior) auto
  next
    case False
    then show ?thesis using Cons.IH by (cases prior) (auto simp: map_prod_def split: prod.splits)
  qed
qed simp

lemma detail_largest_iff:
  assumes "\<forall>p \<in> set prior. prior_status (mp_status p)"
  shows "detailForPriorPayloadFailures prior = MTUDetailLargestSizeConfirmed \<longleftrightarrow> prior = []"
  using assms
  by (cases prior) (auto simp: detailForPriorPayloadFailures_def hasPayloadStatus_def prior_status_def
      mtu_label_defs)

lemma first_with_Some: "first_with st as = Some a \<Longrightarrow> a \<in> set as \<and> mp_status a = st"
  by (induction as) (auto split: if_splits)

lemma first_with_None: "first_with st as = None \<longleftrightarrow> (\<forall>a \<in> set as. mp_status a \<noteq> st)"
  by (induction as) auto

lemma or_else_Some: "or_else x y = Some v \<longleftrightarrow> x = Some v \<or> (x = None \<and> y = Some v)"
  by (cases x) auto

lemma or_else_None: "or_else x y = None \<longleftrightarrow> x = None \<and> y = None"
  by (cases x) auto

lemma classifyPayloadAttempts_member:
  "mp_status (classifyPayloadAttempts as) \<noteq> mtuPayloadTimeout \<Longrightarrow> classifyPayloadAttempts as \<in> set as"
  by (auto simp: classifyPayloadAttempts_def payload_timeout_def or_else_Some split: if_splits option.splits
      dest: first_with_Some)

text \<open>
  Of the attempts for one size the result is decided by rank: a success beats everything, then
  an unreachable destination, an error, a local limit and a limit on the path; it is a timeout
  exactly if every attempt timed out or none was made.
\<close>

lemma classifyPayloadAttempts_rank:
  "mp_status (classifyPayloadAttempts as) =
     (if \<exists>a \<in> set as. mp_status a = mtuPayloadSuccess then mtuPayloadSuccess
      else if \<exists>a \<in> set as. mp_status a = mtuPayloadUnreachable then mtuPayloadUnreachable
      else if \<exists>a \<in> set as. mp_status a = mtuPayloadError then mtuPayloadError
      else if \<exists>a \<in> set as. mp_status a = mtuPayloadLocalTooLarge then mtuPayloadLocalTooLarge
      else if \<exists>a \<in> set as. mp_status a = mtuPayloadTooLarge then mtuPayloadTooLarge
      else mtuPayloadTimeout)"
proof (cases "as = []")
  case False
  have e: "\<exists>a. first_with st as = Some a \<and> mp_status a = st" if "\<exists>a \<in> set as. mp_status a = st" for st
    using that first_with_None [of st as] first_with_Some [of st as] by (cases "first_with st as") auto
  have n: "first_with st as = None" if "\<not> (\<exists>a \<in> set as. mp_status a = st)" for st
    using that by (simp add: first_with_None)
  let ?ex = "\<lambda>st. \<exists>a \<in> set as. mp_status a = st"
  show ?thesis
    using False e [of mtuPayloadSuccess] n [of mtuPayloadSuccess] e [of mtuPayloadUnreachable]
      n [of mtuPayloadUnreachable] e [of mtuPayloadError] n [of mtuPayloadError]
      e [of mtuPayloadLocalTooLarge] n [of mtuPayloadLocalTooLarge] e [of mtuPayloadTooLarge]
      n [of mtuPayloadTooLarge]
    by (cases "?ex mtuPayloadSuccess"; cases "?ex mtuPayloadUnreachable"; cases "?ex mtuPayloadError";
        cases "?ex mtuPayloadLocalTooLarge"; cases "?ex mtuPayloadTooLarge")
      (auto simp: classifyPayloadAttempts_def payload_timeout_def simp del: bex_simps)
qed (simp add: classifyPayloadAttempts_def payload_timeout_def)

section \<open>The probe\<close>

text \<open>What the result of an MTU probe with these sizes and this expected minimum says.\<close>

definition mtu_ok :: "int list \<Rightarrow> int \<Rightarrow> ProbeResult \<Rightarrow> bool" where
  "mtu_ok sizes expectedMin r \<longleftrightarrow>
     result_ok r
     \<and> (pr_PathMTU r = -1 \<or> (\<exists>s \<in> set sizes. pr_PathMTU r = s + 28))
     \<and> (pr_Success r \<longleftrightarrow> pr_PathMTU r \<noteq> -1 \<and> (expectedMin \<le> 0 \<or> expectedMin \<le> pr_PathMTU r))
     \<and> (pr_Success r \<longleftrightarrow> pr_MTUState r = MTUStateOK)
     \<and> (pr_MTUDetail r = MTUDetailLargestSizeConfirmed \<longleftrightarrow> pr_PathMTU r = hd sizes + 28)"

text \<open>The sizes of a validated target, small enough for the sum with the headers not to wrap.\<close>

definition sizes_ok :: "int list \<Rightarrow> bool" where
  "sizes_ok sizes \<longleftrightarrow> sizes \<noteq> [] \<and> sorted_wrt (>) sizes \<and> (\<forall>s \<in> set sizes. 0 < s \<and> s < 2 ^ 63 - 28)"

text \<open>A result of the prober before its final state: nothing detected, nothing reported.\<close>

definition mtu_blank :: "ProbeResult \<Rightarrow> bool" where
  "mtu_blank r \<longleftrightarrow> \<not> pr_Success r \<and> pr_PathMTU r = -1 \<and> phases_ok (pr_Phases r) \<and> pr_Error r = None"

lemma mtu_ok_failure:
  assumes "sizes_ok sizes" and "pr_PathMTU r = -1" "\<not> pr_Success r" "pr_Error r \<noteq> None"
    "phases_ok (pr_Phases r)" "pr_MTUState r \<noteq> MTUStateOK" "pr_MTUDetail r \<noteq> MTUDetailLargestSizeConfirmed"
  shows "mtu_ok sizes m r"
proof -
  have "0 < hd sizes" using assms(1) hd_in_set [of sizes] by (auto simp: sizes_ok_def)
  with assms(2) have "pr_PathMTU r \<noteq> hd sizes + 28" by linarith
  with assms(2-) show ?thesis by (auto simp: mtu_ok_def result_ok_def)
qed

lemma mtu_ok_set_mtu:
  assumes "sizes_ok sizes" "mtu_blank r" "st \<noteq> MTUStateOK" "d \<noteq> MTUDetailLargestSizeConfirmed"
  shows "mtu_ok sizes m (set_mtu st d e r)" "mtu_ok sizes m (set_rtt rs (set_mtu st d e r))"
    "mtu_ok sizes m (set_mtu st d e (set_rtt rs r))"
  using assms by (auto intro!: mtu_ok_failure simp: set_mtu_def set_rtt_def mtu_blank_def)

lemma mtu_labels_neq [simp]:
  "MTUStateDegraded \<noteq> MTUStateOK" "MTUStateUnreachable \<noteq> MTUStateOK" "MTUStateError \<noteq> MTUStateOK"
  "MTUDetailInconclusive \<noteq> MTUDetailLargestSizeConfirmed"
  "MTUDetailDestinationUnreach \<noteq> MTUDetailLargestSizeConfirmed"
  "MTUDetailPermissionDenied \<noteq> MTUDetailLargestSizeConfirmed"
  "MTUDetailInternalError \<noteq> MTUDetailLargestSizeConfirmed"
  "MTUDetailSanityCheckFailed \<noteq> MTUDetailLargestSizeConfirmed"
  "MTUDetailResolveError \<noteq> MTUDetailLargestSizeConfirmed"
  "detailForFailedPayloads rs \<noteq> MTUDetailLargestSizeConfirmed"
  by (simp_all add: mtu_label_defs detailForFailedPayloads_def)

lemma mtu_blank_fields [simp]:
  "mtu_blank r \<Longrightarrow> mtu_blank (clearObservedICMPRTT r)"
  "mtu_blank r \<Longrightarrow> mtu_blank (r\<lparr>pr_PathMTU := -1\<rparr>)"
  "mtu_blank r \<Longrightarrow> mtu_blank (r\<lparr>pr_PathMTU := -1, pr_Success := False\<rparr>)"
  by (simp_all add: mtu_blank_def clearObservedICMPRTT_def)

lemma mtu_ok_inconclusive: "sizes_ok sizes \<Longrightarrow> mtu_blank r \<Longrightarrow> mtu_ok sizes m (setMTUInconclusive r rs e)"
  by (simp add: setMTUInconclusive_def mtu_ok_set_mtu)

lemma mtu_ok_sanity: "sizes_ok sizes \<Longrightarrow> mtu_blank r \<Longrightarrow> applySanityFailure r p = Some r' \<Longrightarrow> mtu_ok sizes m r'"
  by (auto simp: applySanityFailure_def Let_def mtu_ok_set_mtu split: mtuPayloadStatus.splits if_splits)

lemma mtu_ok_success:
  assumes "sizes_ok (prev @ s # rest)" "mtu_blank r" "mp_status p = mtuPayloadSuccess" "mp_payloadSize p = s"
    and "length results = length prev" "\<forall>q \<in> set results. prior_status (mp_status q)"
  shows "mtu_ok (prev @ s # rest) m
    (let c = classifyMTUResult (results @ [p]) m; r' = apply_classification c rtts r
     in if cl_success c then r'
        else r'\<lparr>pr_Error := Some (Errorf ''path MTU %d below expected minimum %d''
               [FInt (cl_pathMTU c), FInt m])\<rparr>)"
proof -
  have "split_success (results @ [p]) = Some (results, p)"
    unfolding split_success_Some using assms(3,6) by (auto simp: prior_status_def)
  moreover have "in_int64 (s + 28)" "s + 28 \<noteq> -1" using assms(1) by (auto simp: sizes_ok_def in_int64_def)
  moreover have "detailForPriorPayloadFailures results = MTUDetailLargestSizeConfirmed \<longleftrightarrow> prev = []"
    using detail_largest_iff [OF assms(6)] assms(5) by auto
  moreover have "prev = [] \<longleftrightarrow> hd (prev @ s # rest) = s"
    using assms(1) by (cases prev) (auto simp: sizes_ok_def)
  ultimately show ?thesis using assms(2,4)
    by (auto simp: mtu_ok_def classifyMTUResult_def Let_def apply_classification_def set_rtt_def
        result_ok_def mtu_blank_def)
qed

lemma mtu_ok_all_failed:
  assumes "sizes_ok sizes" "mtu_blank r" "\<forall>q \<in> set results. prior_status (mp_status q)"
  shows "mtu_ok sizes m ((apply_classification (classifyMTUResult results m) rtts r)\<lparr>pr_Error := Some e\<rparr>)"
proof -
  have "split_success results = None"
    using assms(3) by (auto simp: split_success_None prior_status_def)
  with assms show ?thesis
    by (intro mtu_ok_failure)
      (auto simp: classifyMTUResult_def apply_classification_def set_rtt_def mtu_blank_def)
qed

lemma step_down_ok:
  assumes "\<And>s. always (probe1 s) (\<lambda>p. mp_status p = mtuPayloadSuccess \<longrightarrow> mp_payloadSize p = s)"
    and "sizes_ok (prev @ rest)" "mtu_blank r"
    and "length results = length prev" "\<forall>q \<in> set results. prior_status (mp_status q)"
  shows "always (step_down N probe1 m r rest results rtts) (mtu_ok (prev @ rest) m)"
  using assms(2,4,5)
proof (induction rest arbitrary: prev results rtts)
  case Nil
  then show ?case using assms(3) by (auto intro!: always_ret mtu_ok_all_failed)
next
  case (Cons s rest)
  note IH = Cons.IH [of "prev @ [s]"]
  show ?case unfolding step_down.simps
  proof (rule always_bindT, rule always_if, goal_cases)
    case (1 ce)
    show ?case by (rule always_ret, rule mtu_ok_inconclusive [OF Cons.prems(1) assms(3)])
  next
    case (2 ce)
    show ?case
    proof (rule always_bind [OF assms(1)], rule always_Let, rule always_Let, rule always_bindT,
        rule always_if, goal_cases)
      case (1 p rs rt ce')
      show ?case by (rule always_ret, rule mtu_ok_inconclusive [OF Cons.prems(1) assms(3)])
    next
      case (2 p rs rt ce')
      have cont: "always (step_down N probe1 m r rest rs rt) (mtu_ok (prev @ s # rest) m)"
        if "prior_status (mp_status p)"
        using IH [of rs rt] Cons.prems that 2 by simp
      show ?case
      proof (cases "mp_status p")
        case mtuPayloadSuccess
        with 2 Cons.prems assms(3) mtu_ok_success [of prev s rest r p results m rt] show ?thesis
          by (auto intro!: always_ret simp: Let_def)
      next
        case mtuPayloadUnreachable
        with Cons.prems(1) assms(3) show ?thesis by (auto intro!: always_ret mtu_ok_set_mtu)
      next
        case mtuPayloadError
        with Cons.prems(1) assms(3) show ?thesis by (auto intro!: always_ret mtu_ok_set_mtu)
      qed (use cont in \<open>simp_all add: prior_status_def\<close>)
    qed
  qed
qed

section \<open>The back end\<close>

lemma attempts_loop_all:
  assumes "always m Q" "\<forall>a \<in> set as. Q a"
  shows "always (attempts_loop N m k as) (\<lambda>as. \<forall>a \<in> set as. Q a)"
  using assms(2)
proof (induction k arbitrary: as)
  case 0
  then show ?case by (auto intro: always_ret)
next
  case (Suc k)
  show ?case unfolding attempts_loop.simps
  proof (rule always_bind [OF assms(1)], rule always_if, goal_cases)
    case (1 r)
    with Suc.prems show ?case by (auto intro!: always_ret)
  next
    case (2 r)
    with Suc.prems have "\<forall>a \<in> set (as @ [r]). Q a" by auto
    with Suc.IH [OF this] show ?case by (auto intro!: always_bindT always_if always_ret)
  qed
qed

locale mtu_backend =
  fixes B :: "'w mtuProbeBackend"
  assumes df_size: "always (be_probePayloadWithDF B timeout dst s q)
    (\<lambda>p. mp_status p = mtuPayloadSuccess \<longrightarrow> mp_payloadSize p = s)"
begin

lemma retries_size:
  "always (probePayloadWithDFRetries N B dst s timeout retries)
     (\<lambda>p. mp_status p = mtuPayloadSuccess \<longrightarrow> mp_payloadSize p = s)"
  unfolding probePayloadWithDFRetries_def
proof (rule always_bind [OF attempts_loop_all [OF df_size]], goal_cases)
  case (2 as)
  then show ?case
    using classifyPayloadAttempts_member [of as] by (auto intro!: always_ret)
qed simp

lemma probe_from_blank:
  assumes "sizes_ok sizes" "mtu_blank r"
  shows "always (step_down N (\<lambda>s. probePayloadWithDFRetries N B dst s timeout retries) m r sizes [] rtts)
    (mtu_ok sizes m)"
  using step_down_ok [OF retries_size, of "[]" sizes r "[]"] assms by simp

lemma body_ok:
  assumes "sizes_ok (elems (po_ICMPPayloadSizes (tc_ProbeOpts t)))"
  shows "always (MTU_body N B t)
    (mtu_ok (elems (po_ICMPPayloadSizes (tc_ProbeOpts t))) (po_ExpectedMinMTU (tc_ProbeOpts t)))"
proof -
  let ?sizes = "elems (po_ICMPPayloadSizes (tc_ProbeOpts t))" and ?m = "po_ExpectedMinMTU (tc_ProbeOpts t)"
  have ne: "?sizes \<noteq> []" using assms by (simp add: sizes_ok_def)
  have b0: "mtu_blank (zero_result\<lparr>pr_PathMTU := -1\<rparr>)" by (simp add: mtu_blank_def)
  have bp: "mtu_blank r \<Longrightarrow> phases_ok ps \<Longrightarrow> mtu_blank (set_phases ps r)" for r ps
    by (simp add: mtu_blank_def set_phases_def)
  show ?thesis unfolding MTU_body_def Let_def
  proof (simp only: ne if_False, rule always_bind [OF resolveIPv4_addr], rule always_case_prod, goal_cases)
    case (1 re resolved err)
    define r1 where "r1 = (if ir_dnsStart resolved \<noteq> 0
      then set_phases (addObservedPhase (Some []) PhaseDNSResolve (ir_dnsEnd resolved) (ir_dnsStart resolved))
        (zero_result\<lparr>pr_PathMTU := -1\<rparr>)
      else zero_result\<lparr>pr_PathMTU := -1\<rparr>)"
    have b: "mtu_blank r1" unfolding r1_def using b0 by (simp add: bp)
    show ?case
    proof (cases err)
      case (Some e)
      show ?thesis unfolding Some r1_def [symmetric] prod.case option.case
        by (rule always_ret, rule mtu_ok_set_mtu(1) [OF assms]) (simp_all add: b)
    next
      case None
      with 1 obtain dst where "ir_addr resolved = Some dst" by auto
      show ?thesis unfolding None \<open>ir_addr resolved = Some dst\<close> r1_def [symmetric] prod.case option.case
        by (intro always_bindT always_if always_ret always_case_option mtu_ok_inconclusive
            probe_from_blank mtu_ok_sanity [OF assms b] assms b)
    qed
  qed
qed

end

interpretation unsupported: mtu_backend unsupportedMTUBackend
  by unfold_locales (auto simp: unsupportedMTUBackend_def unsupported_result_def intro: always_ret)

text \<open>
  C37: for every back end that answers for the size it was asked, and every target with positive
  sizes in descending order, the MTU probe reports either no path MTU (-1) or one of the configured
  sizes plus 28; it succeeds exactly if a path MTU was detected that is not below the expected
  minimum, which is exactly the state \<^verbatim>\<open>ok\<close>; the detail says that the largest size was confirmed
  exactly if the path MTU is that of the first size; a failure always carries an error text and a
  success none.
\<close>

theorem MTU_Probe_sound:
  assumes "mtu_backend B" and "sizes_ok (elems (po_ICMPPayloadSizes (tc_ProbeOpts t)))"
    and "r = fst (run_state (MTU_Probe N B t) w)"
  shows "(pr_PathMTU r = -1 \<or> (\<exists>s \<in> set (elems (po_ICMPPayloadSizes (tc_ProbeOpts t))). pr_PathMTU r = s + 28))
    \<and> (pr_Success r \<longleftrightarrow> pr_PathMTU r \<noteq> -1
         \<and> (po_ExpectedMinMTU (tc_ProbeOpts t) \<le> 0 \<or> po_ExpectedMinMTU (tc_ProbeOpts t) \<le> pr_PathMTU r))
    \<and> (pr_Success r \<longleftrightarrow> pr_MTUState r = MTUStateOK) \<and> (pr_Success r \<longleftrightarrow> pr_Error r = None)
    \<and> (pr_MTUDetail r = MTUDetailLargestSizeConfirmed
         \<longleftrightarrow> pr_PathMTU r = hd (elems (po_ICMPPayloadSizes (tc_ProbeOpts t))) + 28)"
proof -
  have "always (MTU_Probe N B t)
      (mtu_ok (elems (po_ICMPPayloadSizes (tc_ProbeOpts t))) (po_ExpectedMinMTU (tc_ProbeOpts t)))"
    unfolding MTU_Probe_def
    by (rule always_bindT, rule always_bind [OF mtu_backend.body_ok [OF assms(1,2)]], rule always_bindT,
        rule always_ret) (auto simp: mtu_ok_def result_ok_def)
  from alwaysD [OF this, of w] assms(3)
  have "mtu_ok (elems (po_ICMPPayloadSizes (tc_ProbeOpts t))) (po_ExpectedMinMTU (tc_ProbeOpts t)) r" by simp
  then show ?thesis unfolding mtu_ok_def result_ok_def by argo
qed

text \<open>A path that drops everything above 1400 bytes without telling, probed from a literal address.\<close>

definition drop_backend :: "'w mtuProbeBackend" where
  "drop_backend =
     \<lparr>be_probeSmallEcho = (\<lambda>_ _ s _. ret \<lparr>mp_status = mtuPayloadSuccess, mp_payloadSize = s, mp_rtt = 5, mp_err = None\<rparr>),
      be_probePayloadWithDF = (\<lambda>_ _ s _. ret (if s > 1400 then payload_timeout s
        else \<lparr>mp_status = mtuPayloadSuccess, mp_payloadSize = s, mp_rtt = 7, mp_err = None\<rparr>))\<rparr>"

definition mtu_target :: TargetConfig where
  "mtu_target = zero_target\<lparr>tc_Address := ''10.0.0.1'', tc_ProbeType := ProbeTypeMTU,
     tc_ProbeOpts := zero_opts\<lparr>po_ICMPPayloadSizes := Some [1472, 1392], po_ExpectedMinMTU := 1400,
       po_MTURetries := 1, po_MTUPerAttemptTimeout := 1\<rparr>\<rparr>"

definition still_net :: "(unit, unit) net_ops" where
  "still_net = \<lparr>op_Now = ret 1, op_CtxErr = ret None, op_LookupIP = (\<lambda>_ _ _. ret (Inr [])),
     op_LookupIPAddr = (\<lambda>_ _. ret (Inr [])), op_LookupCNAME = (\<lambda>_ _. ret (Inr [])),
     op_Dial = (\<lambda>_ _. ret (Inr ())), op_Delay = (\<lambda>_. ret None), op_Pick = ret True, op_Cancel = ret (),
     op_Close = (\<lambda>_. ret ())\<rparr>"

theorem MTU_Probe_sound_witness:
  "\<exists>r. r = fst (run_state (MTU_Probe still_net drop_backend mtu_target) ()) \<and> pr_PathMTU r = 1420
     \<and> pr_Success r \<and> pr_MTUState r = MTUStateOK"
proof -
  define r where "r = fst (run_state (MTU_Probe still_net drop_backend mtu_target) ())"
  have b: "mtu_backend (drop_backend :: unit mtuProbeBackend)"
    by unfold_locales (auto simp: drop_backend_def payload_timeout_def intro!: always_ret)
  have s: "sizes_ok (elems (po_ICMPPayloadSizes (tc_ProbeOpts mtu_target)))"
    by (simp add: sizes_ok_def mtu_target_def)
  have p: "pr_PathMTU r = 1420"
    unfolding r_def
    by (simp add: MTU_Probe_def MTU_body_def still_net_def drop_backend_def mtu_target_def
        resolveIPv4_def go_eval probeSmallICMPEchoWithRetries_def probePayloadWithDFRetries_def
        effectiveMTURetries_def effectiveMTUPerAttemptTimeout_def final_status_def payload_timeout_def
        classifyPayloadAttempts_def applySanityFailure_def classifyMTUResult_def apply_classification_def
        set_rtt_def)
  from MTU_Probe_sound [OF b s r_def] p have "pr_Success r"
    by (simp add: mtu_target_def)
  with MTU_Probe_sound [OF b s r_def] p show ?thesis unfolding r_def by blast
qed

section \<open>The contract of a prober\<close>

text \<open>Success and error fit together for every back end and every list of sizes.\<close>

lemma result_ok_set_mtu:
  assumes "mtu_blank r"
  shows "result_ok (set_mtu st d e r)" "result_ok (set_rtt rs (set_mtu st d e r))"
    "result_ok (setMTUInconclusive r rs err)"
    "result_ok ((apply_classification c rs r)\<lparr>pr_Success := False, pr_Error := Some e\<rparr>)"
  using assms
  by (simp_all add: set_mtu_def set_rtt_def setMTUInconclusive_def result_ok_def mtu_blank_def
      apply_classification_def)

lemma result_ok_sanity: "mtu_blank r \<Longrightarrow> applySanityFailure r p = Some r' \<Longrightarrow> result_ok r'"
  by (auto simp: applySanityFailure_def Let_def result_ok_set_mtu split: mtuPayloadStatus.splits if_splits)

lemma result_ok_classified:
  assumes "mtu_blank r"
  shows "result_ok (let c = classifyMTUResult results m; r' = apply_classification c rtts r
     in if cl_success c then r'
        else r'\<lparr>pr_Error := Some (Errorf ''path MTU %d below expected minimum %d'' [FInt (cl_pathMTU c), FInt m])\<rparr>)"
  using assms by (simp add: result_ok_def mtu_blank_def apply_classification_def set_rtt_def Let_def)

lemma step_down_result_ok:
  assumes "mtu_blank r" "\<forall>q \<in> set results. mp_status q \<noteq> mtuPayloadSuccess"
  shows "always (step_down N probe1 m r rest results rtts) result_ok"
  using assms(2)
proof (induction rest arbitrary: results rtts)
  case Nil
  then have "split_success results = None" by (simp add: split_success_None)
  with assms(1) show ?case
    by (auto intro!: always_ret simp: result_ok_def mtu_blank_def apply_classification_def set_rtt_def
        classifyMTUResult_def)
next
  case (Cons s rest)
  show ?case unfolding step_down.simps
  proof (rule always_bindT, rule always_if, goal_cases)
    case (1 ce)
    show ?case by (rule always_ret, rule result_ok_set_mtu(3) [OF assms(1)])
  next
    case (2 ce)
    show ?case
    proof (rule always_bindT, rule always_Let, rule always_Let, rule always_bindT, rule always_if, goal_cases)
      case (1 p rs rt ce')
      show ?case by (rule always_ret, rule result_ok_set_mtu(3) [OF assms(1)])
    next
      case (2 p rs rt ce')
      have cont: "mp_status p \<noteq> mtuPayloadSuccess \<Longrightarrow> always (step_down N probe1 m r rest rs rt) result_ok"
        using Cons.IH [of rs rt] Cons.prems 2 by simp
      show ?case
      proof (cases "mp_status p")
        case mtuPayloadSuccess
        with result_ok_classified [OF assms(1), of rs m rt] show ?thesis
          by (auto intro!: always_ret simp: Let_def)
      qed (use cont in \<open>auto intro!: always_ret result_ok_set_mtu assms(1)\<close>)
    qed
  qed
qed

lemma MTU_Probe_ok: "always (MTU_Probe N B t) result_ok"
proof -
  let ?r0 = "zero_result\<lparr>pr_PathMTU := -1\<rparr>"
  have b0: "mtu_blank ?r0" "mtu_blank (clearObservedICMPRTT ?r0)"
    by (simp_all add: mtu_blank_def clearObservedICMPRTT_def)
  have "always (MTU_body N B t) result_ok"
    unfolding MTU_body_def Let_def
  proof (rule always_if, rule always_ret, rule result_ok_set_mtu(1) [OF b0(2)], rule always_bindT,
      rule always_case_prod, goal_cases)
    case (1 re resolved err)
    define r1 where "r1 = (if ir_dnsStart resolved \<noteq> 0
      then set_phases (addObservedPhase (Some []) PhaseDNSResolve (ir_dnsEnd resolved) (ir_dnsStart resolved)) ?r0
      else ?r0)"
    have b: "mtu_blank r1" "mtu_blank (clearObservedICMPRTT r1)"
      unfolding r1_def by (auto simp: mtu_blank_def set_phases_def clearObservedICMPRTT_def)
    show ?case
    proof (cases err)
      case (Some e)
      show ?thesis unfolding Some r1_def [symmetric] prod.case option.case
        by (rule always_ret, rule result_ok_set_mtu(1) [OF b(2)])
    next
      case None
      show ?thesis
      proof (cases "ir_addr resolved")
        case (Some dst)
        show ?thesis unfolding None Some r1_def [symmetric] prod.case option.case
          by (intro always_bindT always_if always_ret always_case_option result_ok_set_mtu(3)
              step_down_result_ok result_ok_sanity [OF b(1)] b(1)) simp_all
      next
        case None
        show ?thesis unfolding \<open>err = None\<close> None r1_def [symmetric] prod.case option.case
          using b(1) by (intro always_ret) (simp add: result_ok_def mtu_blank_def)
      qed
    qed
  qed
  note body = this
  show ?thesis unfolding MTU_Probe_def
    by (rule always_bindT, rule always_bind [OF body], rule always_bindT, rule always_ret)
      (simp add: result_ok_def)
qed

interpretation mtu: prober "MTU_Probe N B" for N :: "('w, 'c) net_ops" and B :: "'w mtuProbeBackend"
  by unfold_locales (rule MTU_Probe_ok)

end
