(* ===== verification/Probe_ICMP.thy ===== *)
theory Probe_ICMP
  imports Probe_MTU
begin

text \<open>
  \<^verbatim>\<open>internal/probe/icmp.go\<close>: the ICMP prober. \<^verbatim>\<open>runICMPEchoSequence\<close> takes the function that sends one
  echo as an argument, as in the source; the socket and that function come from the record
  \<open>icmp_ops\<close>. The averages and the standard deviation are those of the source, with real numbers
  where it has floats.
\<close>

section \<open>The sequence of echoes\<close>

record ('w, 's) icmp_ops =
  ic_Listen :: "('w, goerr + 's) io"
  ic_sendEcho :: "'s \<Rightarrow> ipv4 \<Rightarrow> int \<Rightarrow> nat \<Rightarrow> ('w, duration \<times> bool \<times> goerr option) io"
  ic_Close :: "'s \<Rightarrow> ('w, unit) io"
  ic_Wait :: "duration \<Rightarrow> ('w, bool) io"

text \<open>The variables of the loop.\<close>

record echo_state =
  ec_totalRTT :: duration
  ec_totalRTTSquared :: real
  ec_received :: int
  ec_actualSent :: int

definition echo_start :: echo_state where
  "echo_start = \<lparr>ec_totalRTT = 0, ec_totalRTTSquared = 0, ec_received = 0, ec_actualSent = 0\<rparr>"

definition echo_step :: "duration \<times> bool \<times> goerr option \<Rightarrow> echo_state \<Rightarrow> echo_state" where
  "echo_step res st =
     (case res of (rtt, sent, err) \<Rightarrow>
        let st1 = (if sent then st\<lparr>ec_actualSent := ec_actualSent st + 1\<rparr> else st)
        in if err \<noteq> None then st1
           else st1\<lparr>ec_received := ec_received st1 + 1, ec_totalRTT := int64 (ec_totalRTT st1 + rtt),
             ec_totalRTTSquared := ec_totalRTTSquared st1 + dur_Seconds rtt * dur_Seconds rtt\<rparr>)"

text \<open>\<open>k\<close> echoes are left and \<open>seq\<close> is the number of the next one; \<^verbatim>\<open>waitForPingInterval\<close> is \<open>wait\<close>.\<close>

fun echo_loop ::
  "('w, goerr option) io \<Rightarrow> ('w, bool) io \<Rightarrow> (nat \<Rightarrow> ('w, duration \<times> bool \<times> goerr option) io)
     \<Rightarrow> nat \<Rightarrow> nat \<Rightarrow> echo_state \<Rightarrow> ('w, echo_state) io" where
  "echo_loop ctxErr wait sendEcho 0 seq st = ret st"
| "echo_loop ctxErr wait sendEcho (Suc k) seq st = do {
     ce \<leftarrow> ctxErr;
     if ce \<noteq> None then ret st
     else do {
       go \<leftarrow> (if seq > 0 then wait else ret True);
       if \<not> go then ret st
       else do {
         res \<leftarrow> sendEcho seq;
         echo_loop ctxErr wait sendEcho k (Suc seq) (echo_step res st)
       }
     }
   }"

definition echo_result :: "echo_state \<Rightarrow> ProbeResult" where
  "echo_result st =
     (let failed = Some (Errorf ''all ICMP echo requests timed out or failed'' []) in
      if ec_actualSent st = 0 then zero_result\<lparr>pr_PacketLoss := 1, pr_Error := failed\<rparr>
      else let r = zero_result\<lparr>pr_PacketLoss :=
                 of_int (ec_actualSent st - ec_received st) / of_int (ec_actualSent st)\<rparr>
        in if ec_received st = 0 then r\<lparr>pr_Error := failed\<rparr>
           else let avg = ec_totalRTT st sdiv ec_received st;
                    variance = ec_totalRTTSquared st / of_int (ec_received st) - dur_Seconds avg * dur_Seconds avg;
                    r' = r\<lparr>pr_ICMPRepliesObserved := ec_received st, pr_Success := True, pr_ICMPAvgRTT := avg\<rparr>
             in if ec_received st \<ge> 2
                then r'\<lparr>pr_ICMPStddevRTT := \<lfloor>sqrt (if variance < 0 then 0 else variance) * 1000000000\<rfloor>\<rparr>
                else r')"

definition runICMPEchoSequence ::
  "('w, goerr option) io \<Rightarrow> ('w, bool) io \<Rightarrow> int \<Rightarrow> (nat \<Rightarrow> ('w, duration \<times> bool \<times> goerr option) io)
     \<Rightarrow> ('w, ProbeResult) io" where
  "runICMPEchoSequence ctxErr wait pingCount sendEcho = do {
     st \<leftarrow> echo_loop ctxErr wait sendEcho (nat pingCount) 0 echo_start;
     ret (echo_result st)
   }"

section \<open>The probe\<close>

text \<open>
  \<^verbatim>\<open>time.Duration(sec * float64(time.Second))\<close> truncates; a value outside the range of a duration, an
  infinity and NaN become the least duration, as the conversion does on amd64.
\<close>

definition to_duration :: "float64 \<Rightarrow> duration" where
  "to_duration f =
     (case f of
        Fin x \<Rightarrow> (let d = (if x < 0 then \<lceil>x * 1000000000\<rceil> else \<lfloor>x * 1000000000\<rfloor>)
                 in if in_int64 d then d else - (2 ^ 63))
      | _ \<Rightarrow> - (2 ^ 63))"

definition ICMP_body ::
  "('w, 'c) net_ops \<Rightarrow> ('w, 's) icmp_ops \<Rightarrow> TargetConfig \<Rightarrow> ('w, ProbeResult) io" where
  "ICMP_body N I target =
     (let opts = tc_ProbeOpts target;
          pingCount = (if po_PingCount opts \<le> 0 then 1 else po_PingCount opts);
          pi = to_duration (po_PingIntervalSec opts);
          pingInterval = (if pi \<le> 0 then Second else pi)
      in do {
        re \<leftarrow> resolveIPv4 N (resolverFor (tc_DNSResolver target)) (tc_Address target);
        (case re of (resolved, err) \<Rightarrow>
           let r = (if ir_dnsStart resolved \<noteq> 0
                 then set_phases (addObservedPhase (Some []) PhaseDNSResolve (ir_dnsEnd resolved) (ir_dnsStart resolved)) zero_result
                 else zero_result)
           in case (err, ir_addr resolved) of
             (Some e, _) \<Rightarrow>
               ret (r\<lparr>pr_Error := Some (Errorf ''resolve IPv4 address: %s'' [FErr e]), pr_PacketLoss := 1\<rparr>)
           | (None, None) \<Rightarrow> ret (r\<lparr>pr_Error := Some (SysErr ''nil pointer dereference'')\<rparr>)
           | (None, Some dst) \<Rightarrow> do {
               conn \<leftarrow> ic_Listen I;
               (case conn of
                  Inl e \<Rightarrow>
                    ret (r\<lparr>pr_Error := Some (Errorf ''listen icmp: %s (check net.ipv4.ping_group_range)'' [FErr e]),
                      pr_PacketLoss := 1\<rparr>)
                | Inr s \<Rightarrow> do {
                    r' \<leftarrow> runICMPEchoSequence (op_CtxErr N) (ic_Wait I pingInterval) pingCount (ic_sendEcho I s dst 0);
                    ic_Close I s;
                    ret (if pr_Phases r \<noteq> None then r'\<lparr>pr_Phases := pr_Phases r\<rparr> else r')
                  })
             })
      })"

definition ICMP_Probe ::
  "('w, 'c) net_ops \<Rightarrow> ('w, 's) icmp_ops \<Rightarrow> TargetConfig \<Rightarrow> ('w, ProbeResult) io" where
  "ICMP_Probe N I target = do {
     start \<leftarrow> op_Now N;
     r \<leftarrow> ICMP_body N I target;
     stop \<leftarrow> op_Now N;
     ret (r\<lparr>pr_Duration := time_Sub stop start\<rparr>)
   }"

section \<open>Properties\<close>

lemma echo_result_fields:
  "(pr_Success (echo_result st) \<longleftrightarrow> pr_Error (echo_result st) = None) \<and> pr_Phases (echo_result st) = None"
  by (simp add: echo_result_def Let_def)

lemma ICMP_Probe_ok: "always (ICMP_Probe N I t) result_ok"
proof -
  have seq: "always (runICMPEchoSequence ce w n se) (\<lambda>r. (pr_Success r \<longleftrightarrow> pr_Error r = None) \<and> pr_Phases r = None)"
    for ce w n and se :: "nat \<Rightarrow> ('a, duration \<times> bool \<times> goerr option) io"
    unfolding runICMPEchoSequence_def
    by (rule always_bindT, rule always_ret, rule echo_result_fields)
  have body: "always (ICMP_body N I t) result_ok"
    unfolding ICMP_body_def Let_def
  proof (rule always_bindT, rule always_case_prod, goal_cases)
    case (1 re resolved err)
    define r where "r = (if ir_dnsStart resolved \<noteq> 0
      then set_phases (addObservedPhase (Some []) PhaseDNSResolve (ir_dnsEnd resolved) (ir_dnsStart resolved)) zero_result
      else zero_result)"
    have r: "\<not> pr_Success r" "phases_ok (pr_Phases r)" unfolding r_def by auto
    have run: "always (do { r' \<leftarrow> runICMPEchoSequence ce w n se; ic_Close I s;
          ret (if pr_Phases r \<noteq> None then r'\<lparr>pr_Phases := pr_Phases r\<rparr> else r') }) result_ok" for ce w n se s
      by (rule always_bind [OF seq], rule always_bindT, rule always_ret) (use r in \<open>auto simp: result_ok_def\<close>)
    show ?case
    proof (cases err)
      case (Some e)
      show ?thesis unfolding Some r_def [symmetric] prod.case option.case
        by (rule always_ret) (use r in \<open>simp add: result_ok_def\<close>)
    next
      case None
      show ?thesis
      proof (cases "ir_addr resolved")
        case (Some dst)
        show ?thesis unfolding None Some r_def [symmetric] prod.case option.case
          by (rule always_bindT, rule always_case_sum, rule always_ret)
            (use r in \<open>simp add: result_ok_def\<close>, rule run)
      next
        case None
        show ?thesis unfolding \<open>err = None\<close> None r_def [symmetric] prod.case option.case
          by (rule always_ret) (use r in \<open>simp add: result_ok_def\<close>)
      qed
    qed
  qed
  show ?thesis unfolding ICMP_Probe_def
    by (rule always_bindT, rule always_bind [OF body], rule always_bindT, rule always_ret)
      (simp add: result_ok_def)
qed

interpretation icmp: prober "ICMP_Probe N I" for N :: "('w, 'c) net_ops" and I :: "('w, 's) icmp_ops"
  by unfold_locales (rule ICMP_Probe_ok)

definition echo_inv :: "nat \<Rightarrow> echo_state \<Rightarrow> bool" where
  "echo_inv n st \<longleftrightarrow> 0 \<le> ec_received st \<and> ec_received st \<le> ec_actualSent st \<and> ec_actualSent st \<le> int n"

definition loss_ok :: "int \<Rightarrow> ProbeResult \<Rightarrow> bool" where
  "loss_ok pingCount r \<longleftrightarrow> 0 \<le> pr_PacketLoss r \<and> pr_PacketLoss r \<le> 1
     \<and> (pr_Success r \<longleftrightarrow> pr_PacketLoss r \<noteq> 1) \<and> (pr_Success r \<longleftrightarrow> 1 \<le> pr_ICMPRepliesObserved r)
     \<and> pr_ICMPRepliesObserved r \<le> pingCount"

lemma echo_result_loss_ok: "echo_inv n st \<Longrightarrow> loss_ok (int n) (echo_result st)"
proof (cases "ec_actualSent st = 0")
  case True
  then show ?thesis by (simp add: loss_ok_def echo_result_def zero_result_def)
next
  case False
  assume "echo_inv n st"
  with False have "0 < ec_actualSent st" "0 \<le> ec_received st" "ec_received st \<le> ec_actualSent st"
    "ec_actualSent st \<le> int n" by (simp_all add: echo_inv_def)
  then show ?thesis
    by (auto simp: loss_ok_def echo_result_def zero_result_def Let_def field_simps)
qed

text \<open>What the sequence of echoes needs of the function that sends one: an answered echo was sent.\<close>

locale echo_sender =
  fixes sendEcho :: "nat \<Rightarrow> ('w, duration \<times> bool \<times> goerr option) io"
  assumes answered_was_sent: "always (sendEcho q) (\<lambda>(rtt, sent, err). err = None \<longrightarrow> sent)"
begin

lemma loop_inv:
  assumes "echo_inv n st"
  shows "always (echo_loop ce wait sendEcho k seq st) (echo_inv (n + k))"
  using assms
proof (induction k arbitrary: seq st n)
  case 0
  then show ?case by (auto intro: always_ret)
next
  case (Suc k)
  then have m: "echo_inv (n + Suc k) st" by (simp add: echo_inv_def)
  show ?case unfolding echo_loop.simps
  proof (rule always_bindT, rule always_if, rule always_ret, rule m, rule always_bindT, rule always_if,
      rule always_ret, rule m, rule always_bind [OF answered_was_sent], goal_cases)
    case (1 ce go res)
    then have "echo_inv (Suc n) (echo_step res st)"
      using Suc.prems by (auto simp: echo_inv_def echo_step_def Let_def split: prod.splits)
    from Suc.IH [OF this] show ?case by simp
  qed
qed

lemma sequence_loss:
  assumes "0 \<le> pingCount"
  shows "always (runICMPEchoSequence ctxErr wait pingCount sendEcho) (loss_ok pingCount)"
  unfolding runICMPEchoSequence_def
proof (rule always_bind)
  show "always (echo_loop ctxErr wait sendEcho (nat pingCount) 0 echo_start) (echo_inv (0 + nat pingCount))"
    by (rule loop_inv) (simp add: echo_inv_def echo_start_def)
qed (use echo_result_loss_ok [of "nat pingCount"] assms in \<open>auto intro!: always_ret\<close>)

end

lemma ICMP_Probe_loss_ok:
  assumes "\<And>s dst. echo_sender (ic_sendEcho I s dst 0)"
  shows "always (ICMP_Probe N I t) (loss_ok (max 1 (po_PingCount (tc_ProbeOpts t))))"
proof -
  let ?n = "max 1 (po_PingCount (tc_ProbeOpts t))"
  have c: "(if po_PingCount (tc_ProbeOpts t) \<le> 0 then 1 else po_PingCount (tc_ProbeOpts t)) = ?n" by simp
  note q = echo_sender.sequence_loss [OF assms, of ?n]
  have b: "always (ICMP_body N I t) (loss_ok ?n)"
    unfolding ICMP_body_def Let_def c
  proof (rule always_bind [OF resolveIPv4_addr], rule always_case_prod, goal_cases)
    case (1 re resolved err)
    define r where "r = (if ir_dnsStart resolved \<noteq> 0
      then set_phases (addObservedPhase (Some []) PhaseDNSResolve (ir_dnsEnd resolved) (ir_dnsStart resolved)) zero_result
      else zero_result)"
    have "\<not> pr_Success r" "pr_ICMPRepliesObserved r = 0" by (simp_all add: r_def set_phases_def zero_result_def)
    then have e: "loss_ok ?n (r\<lparr>pr_Error := Some e, pr_PacketLoss := 1\<rparr>)" for e by (simp add: loss_ok_def)
    have p: "loss_ok ?n r' \<Longrightarrow> loss_ok ?n (if pr_Phases r \<noteq> None then r'\<lparr>pr_Phases := pr_Phases r\<rparr> else r')" for r'
      by (auto simp: loss_ok_def)
    show ?case
    proof (cases err)
      case (Some e')
      show ?thesis unfolding Some r_def [symmetric] prod.case option.case by (rule always_ret, rule e)
    next
      case None
      with 1 obtain dst where d: "ir_addr resolved = Some dst" by auto
      show ?thesis unfolding None d r_def [symmetric] prod.case option.case
        by (intro always_bindT always_case_sum always_ret e always_bind [OF q] p) simp
    qed
  qed
  show ?thesis unfolding ICMP_Probe_def
    by (rule always_bindT, rule always_bind [OF b], rule always_bindT, rule always_ret) (auto simp: loss_ok_def)
qed

end
