(* ===== verification/Probe_Conn.thy ===== *)
theory Probe_Conn
  imports Probe_TCP Proxy_URL
begin

text \<open>
  What the probers that speak TLS and HTTP use of \<^verbatim>\<open>crypto/tls\<close>, \<^verbatim>\<open>net/http\<close> and \<^verbatim>\<open>encoding/base64\<close>:
  connections in layers, requests with canonical header keys, responses, and the calls on a connection
  (\<open>wire_ops\<close>). A monitor of the outside world records what is dialled, written and closed; \<open>wire_laws\<close>
  says which call changes what of it, and the library of triples below is what the probers rely on. A second
  view, \<open>observation\<close>, keeps what was last read: handshake, certificates, response and body.
\<close>

section \<open>Connections\<close>

text \<open>\<^verbatim>\<open>tls.Client(conn, cfg)\<close> is a layer over a connection; closing it closes what is below.\<close>

record TLSConfig =
  tls_ServerName :: string
  tls_InsecureSkipVerify :: bool

datatype 'c conn = Raw 'c | TLSClient TLSConfig "'c conn"

fun raw :: "'c conn \<Rightarrow> 'c" where
  "raw (Raw c) = c"
| "raw (TLSClient cfg c) = raw c"

definition conn_Close :: "('w, 'c) net_ops \<Rightarrow> 'c conn \<Rightarrow> ('w, unit) io" where
  "conn_Close N c = op_Close N (raw c)"

section \<open>Requests and responses\<close>

text \<open>\<^verbatim>\<open>textproto.CanonicalMIMEHeaderKey\<close>: a key with a byte that is no token byte is left as it is.\<close>

definition token_char :: "char \<Rightarrow> bool" where
  "token_char c =
     (let n = of_char c :: nat in
      (48 \<le> n \<and> n \<le> 57) \<or> (65 \<le> n \<and> n \<le> 90) \<or> (97 \<le> n \<and> n \<le> 122) \<or>
      n \<in> {33, 35, 36, 37, 38, 39, 42, 43, 45, 46, 94, 95, 96, 124, 126})"

definition upper_char :: "char \<Rightarrow> char" where
  "upper_char c = (let n = of_char c :: nat in if 97 \<le> n \<and> n \<le> 122 then char_of (n - 32) else c)"

fun canonical_case :: "bool \<Rightarrow> string \<Rightarrow> string" where
  "canonical_case up [] = []"
| "canonical_case up (c # s) = (if up then upper_char c else lower_char c) # canonical_case (c = CHR ''-'') s"

definition CanonicalHeaderKey :: "string \<Rightarrow> string" where
  "CanonicalHeaderKey k = (if list_all token_char k then canonical_case True k else k)"

text \<open>\<^verbatim>\<open>Header.Set\<close> and \<^verbatim>\<open>Header.Get\<close>; the sources give a key at most one value.\<close>

type_synonym header = "string gomap"

definition header_Set :: "header \<Rightarrow> string \<Rightarrow> string \<Rightarrow> header" where
  "header_Set h k v = mput h (CanonicalHeaderKey k) v"

definition header_Get :: "header \<Rightarrow> string \<Rightarrow> string" where
  "header_Get h k = (case mget h (CanonicalHeaderKey k) of None \<Rightarrow> [] | Some v \<Rightarrow> v)"

text \<open>\<^verbatim>\<open>for k, v := range headers { req.Header.Set(k, v) }\<close>.\<close>

definition set_headers :: "header \<Rightarrow> string gomap \<Rightarrow> header" where
  "set_headers h kvs = foldl (\<lambda>h (k, v). header_Set h k v) h (elems kvs)"

record Request =
  rq_Method :: string
  rq_URL :: URL
  rq_Host :: string
  rq_Header :: header
  rq_Body :: "string option"
  rq_Close :: bool

record Response =
  rs_StatusCode :: int
  rs_Header :: header
  rs_TLS :: "Certificate list option"

definition zero_URL :: URL where
  "zero_URL = \<lparr>u_Scheme = [], u_Opaque = [], u_User = None, u_Host = [], u_Path = [], u_RawPath = [],
     u_OmitHost = False, u_ForceQuery = False, u_RawQuery = [], u_Fragment = []\<rparr>"

text \<open>The functions of \<^verbatim>\<open>net/url\<close>: \<^verbatim>\<open>ParseRequestURI\<close>, \<^verbatim>\<open>Parse\<close>, \<^verbatim>\<open>URL.Parse\<close> and \<^verbatim>\<open>URL.String\<close>.\<close>

record url_ops =
  uo_ParseRequestURI :: uri_parser
  uo_Parse :: "string \<Rightarrow> URL res"
  uo_Resolve :: "URL \<Rightarrow> string \<Rightarrow> URL res"
  uo_String :: "URL \<Rightarrow> string"

text \<open>
  \<^verbatim>\<open>http.NewRequestWithContext\<close>: the method must be a token, the URL must parse, and an empty port is
  dropped from the host.
\<close>

definition removeEmptyPort :: "string \<Rightarrow> string" where
  "removeEmptyPort host =
     (case before_last CHR '':'' host of
        None \<Rightarrow> host
      | Some (_, after) \<Rightarrow> if CHR '']'' \<in> set after then host else TrimSuffix host '':'')"

definition NewRequest :: "url_ops \<Rightarrow> string \<Rightarrow> string \<Rightarrow> string option \<Rightarrow> Request res" where
  "NewRequest U method url body =
     (let mth = (if method = [] then ''GET'' else method) in
      if \<not> list_all token_char mth then Inl (Errorf ''net/http: invalid method %q'' [FStr mth])
      else case uo_Parse U url of
        Inl e \<Rightarrow> Inl e
      | Inr u \<Rightarrow>
          (let h = removeEmptyPort (u_Host u) in
           Inr \<lparr>rq_Method = mth, rq_URL = u\<lparr>u_Host := h\<rparr>, rq_Host = h, rq_Header = Some [], rq_Body = body,
             rq_Close = False\<rparr>))"

text \<open>\<^verbatim>\<open>base64.StdEncoding.EncodeToString\<close>.\<close>

definition base64_char :: "nat \<Rightarrow> char" where
  "base64_char n =
     (if n < 26 then char_of (65 + n) else if n < 52 then char_of (71 + n)
      else if n < 62 then char_of (n - 4) else if n = 62 then CHR ''+'' else CHR ''/'')"

fun base64_encode :: "string \<Rightarrow> string" where
  "base64_encode [] = []"
| "base64_encode [a] =
     (let n = of_char a * 16 :: nat in [base64_char (n div 64), base64_char (n mod 64), CHR ''='', CHR ''=''])"
| "base64_encode [a, b] =
     (let n = (of_char a * 256 + of_char b) * 4 :: nat
      in [base64_char (n div 4096), base64_char (n div 64 mod 64), base64_char (n mod 64), CHR ''=''])"
| "base64_encode (a # b # c # s) =
     (let n = (of_char a * 256 + of_char b) * 256 + of_char c :: nat
      in [base64_char (n div 262144), base64_char (n div 4096 mod 64), base64_char (n div 64 mod 64),
          base64_char (n mod 64)] @ base64_encode s)"

section \<open>Calls on a connection\<close>

text \<open>
  \<open>wo_Write proxy req c\<close> is \<^verbatim>\<open>req.Write(c)\<close>, or \<^verbatim>\<open>req.WriteProxy(c)\<close> if \<open>proxy\<close>. \<open>wo_ReadResponse\<close> is
  \<^verbatim>\<open>http.ReadResponse\<close> on a buffered reader of the connection; beside the response it reports the reads it
  made, each with its number of bytes and the instant after it. \<open>wo_ReadBody\<close> reads a response body
  up to a number of bytes, the end of the body or an error.
\<close>

record ('w, 'c) wire_ops =
  wo_Handshake :: "'c conn \<Rightarrow> ('w, goerr option) io"
  wo_PeerCertificates :: "'c conn \<Rightarrow> ('w, Certificate list) io"
  wo_Deadline :: "('w, gotime option) io"
  wo_SetDeadline :: "'c conn \<Rightarrow> gotime option \<Rightarrow> ('w, goerr option) io"
  wo_Write :: "bool \<Rightarrow> Request \<Rightarrow> 'c conn \<Rightarrow> ('w, goerr option) io"
  wo_ReadResponse :: "Request \<Rightarrow> 'c conn \<Rightarrow> ('w, (goerr + Response) \<times> (nat \<times> gotime) list) io"
  wo_ReadBody :: "'c conn \<Rightarrow> nat \<Rightarrow> ('w, string \<times> goerr option) io"

text \<open>\<^verbatim>\<open>io.LimitReader\<close>: at the limit the reader ends without an error.\<close>

definition read_limited :: "(nat \<Rightarrow> ('w, string \<times> goerr option) io) \<Rightarrow> nat \<Rightarrow> ('w, string \<times> goerr option) io" where
  "read_limited read n =
     (if n = 0 then ret ([], None)
      else do {
        (bs, err) \<leftarrow> read n;
        ret (take n bs, if n \<le> length bs then None else err)
      })"

lemma read_limited_length: "always (read_limited rd n) (\<lambda>(bs, _). length bs \<le> n)"
  unfolding read_limited_def by (intro always_intro) auto

section \<open>The monitor\<close>

text \<open>
  What is open, to which address a connection was dialled, how often was dialled, and what was written:
  each request with the connection it was written to and the address to which this one was dialled.
\<close>

record 'c monitor =
  mo_open :: "'c set"
  mo_addr :: "'c \<Rightarrow> string option"
  mo_log :: "(string option \<times> 'c conn \<times> Request) list"
  mo_dials :: nat

text \<open>A call that leaves what is monitored as it is: with \<open>monitor\<close>, it opens, closes and writes nothing.\<close>

definition silent :: "('w \<Rightarrow> 'm) \<Rightarrow> ('w, 'a) io \<Rightarrow> bool" where
  "silent mon m \<longleftrightarrow> (\<forall>w. mon (snd (run_state m w)) = mon w)"

definition wire_laws :: "('w, 'c) net_ops \<Rightarrow> ('w, 'c) wire_ops \<Rightarrow> ('w \<Rightarrow> 'c monitor) \<Rightarrow> bool" where
  "wire_laws N X mon \<longleftrightarrow>
     silent mon (op_Now N) \<and> silent mon (op_Pick N) \<and> silent mon (op_Cancel N) \<and> (\<forall>d. silent mon (op_Delay N d))
   \<and> (\<forall>rv h. silent mon (op_LookupIPAddr N rv h))
   \<and> (\<forall>rv a M. triple (\<lambda>w. mon w = M) (op_Dial N rv a)
        (\<lambda>r w. case r of
           Inl _ \<Rightarrow> mon w = M\<lparr>mo_dials := Suc (mo_dials M)\<rparr>
         | Inr c \<Rightarrow> c \<notin> mo_open M \<and> mon w = M\<lparr>mo_open := insert c (mo_open M), mo_addr := (mo_addr M)(c \<mapsto> a),
             mo_dials := Suc (mo_dials M)\<rparr>))
   \<and> (\<forall>c M. triple (\<lambda>w. mon w = M) (op_Close N c) (\<lambda>_ w. mon w = M\<lparr>mo_open := mo_open M - {c}\<rparr>))
   \<and> (\<forall>p req c M. triple (\<lambda>w. mon w = M) (wo_Write X p req c) 
        (\<lambda>_ w. mon w = M\<lparr>mo_log := mo_log M @ [(mo_addr M (raw c), c, req)]\<rparr>))
   \<and> silent mon (wo_Deadline X)
   \<and> (\<forall>c d. silent mon (wo_SetDeadline X c d)) \<and> (\<forall>c. silent mon (wo_Handshake X c))
   \<and> (\<forall>c. silent mon (wo_PeerCertificates X c)) \<and> (\<forall>req c. silent mon (wo_ReadResponse X req c))
   \<and> (\<forall>c n. silent mon (wo_ReadBody X c n))"

lemma wire_lawsD:
  assumes "wire_laws N X mon"
  shows "silent mon (op_Now N)" "silent mon (wo_Deadline X)" "silent mon (wo_SetDeadline X c d)"
    "silent mon (wo_Handshake X c)" "silent mon (wo_PeerCertificates X c)" "silent mon (wo_ReadResponse X req c)"
    "silent mon (wo_ReadBody X c n)"
  using assms by (simp_all add: wire_laws_def)

text \<open>
  \<open>tracks mon A M S n C w\<close>: since the monitor was \<open>M\<close>, \<open>n\<close> connections were dialled, the requests written
  are all in \<open>S\<close> and on connections dialled to address \<open>A\<close>, and exactly the connections that were open then
  are open, with those of \<open>C\<close> in addition, which are new and were dialled to \<open>A\<close>.
\<close>

definition tracks ::
  "('w \<Rightarrow> 'c monitor) \<Rightarrow> string \<Rightarrow> 'c monitor \<Rightarrow> ('c conn \<times> Request) set \<Rightarrow> nat \<Rightarrow> 'c set \<Rightarrow> 'w \<Rightarrow> bool" where
  "tracks mon A M S n C w \<longleftrightarrow>
     mo_open (mon w) = mo_open M \<union> C \<and> C \<inter> mo_open M = {} \<and> mo_dials (mon w) = mo_dials M + n
     \<and> (\<forall>c \<in> C. mo_addr (mon w) c = Some A) \<and> (\<exists>l. mo_log (mon w) = mo_log M @ l \<and> set l \<subseteq> {Some A} \<times> S)"

named_theorems tracks_intro \<open>triples of the calls on a connection\<close>

text \<open>These are also the laws of the connections that a TCP probe relies on.\<close>

lemma wire_conn_laws:
  assumes "wire_laws N X mon"
  shows "conn_laws N (\<lambda>w. mo_open (mon w))"
proof -
  have s: "triple (\<lambda>w. mo_open (mon w) = S) m (\<lambda>_ w. mo_open (mon w) = S)" if "silent mon m" for m :: "('a, 'x) io" and S
    using that by (simp add: triple_def silent_def)
  have "triple (\<lambda>w. mo_open (mon w) = S) (op_Dial N rv a)
      (\<lambda>r w. case r of Inl _ \<Rightarrow> mo_open (mon w) = S | Inr c \<Rightarrow> c \<notin> S \<and> mo_open (mon w) = insert c S)" for S rv a
    using assms unfolding wire_laws_def triple_def by (fastforce split: sum.splits)
  moreover have "triple (\<lambda>w. mo_open (mon w) = S) (op_Close N c) (\<lambda>_ w. mo_open (mon w) = S - {c})" for S c
    using assms unfolding wire_laws_def triple_def by fastforce
  ultimately show ?thesis using assms unfolding conn_laws_def wire_laws_def by (auto intro: s)
qed

lemma tracks_start: "mon w = M \<Longrightarrow> tracks mon A M S 0 {} w"
  by (auto simp: tracks_def)

lemma silent_tracks: "silent mon m \<Longrightarrow> triple (tracks mon A M S n C) m (\<lambda>_. tracks mon A M S n C)"
  by (auto simp: silent_def triple_def tracks_def)

lemma silent_pure: "silent mon m \<Longrightarrow> triple (\<lambda>w. F \<and> tracks mon A M S n C w) m (\<lambda>_ w. F \<and> tracks mon A M S n C w)"
  by (auto simp: silent_def triple_def tracks_def)

lemma silent_always:
  "silent mon m \<Longrightarrow> always m Q \<Longrightarrow> triple (tracks mon A M S n C) m (\<lambda>x w. Q x \<and> tracks mon A M S n C w)"
  by (auto simp: silent_def triple_def tracks_def always_def)

named_theorems silent_intro \<open>rules for programs that leave what is monitored as it is\<close>

lemma silent_bind [silent_intro]: "silent mon m \<Longrightarrow> (\<And>x. silent mon (f x)) \<Longrightarrow> silent mon (State_Monad.bind m f)"
  by (auto simp: silent_def split: prod.splits) (metis snd_conv)

lemma silent_ret [silent_intro]: "silent mon (ret x)"
  by (simp add: silent_def)

lemma silent_if [silent_intro]: "silent mon m \<Longrightarrow> silent mon m' \<Longrightarrow> silent mon (if b then m else m')"
  by simp

lemma silent_Let [silent_intro]: "(\<And>x. silent mon (f x)) \<Longrightarrow> silent mon (Let v f)"
  by simp

lemma silent_case [silent_intro]:
  "(\<And>a b. silent mon (f a b)) \<Longrightarrow> silent mon (case p of (a, b) \<Rightarrow> f a b)"
  "silent mon m \<Longrightarrow> (\<And>a. silent mon (g a)) \<Longrightarrow> silent mon (case x of None \<Rightarrow> m | Some a \<Rightarrow> g a)"
  "(\<And>a. silent mon (h a)) \<Longrightarrow> (\<And>a. silent mon (k a)) \<Longrightarrow> silent mon (case y of Inl a \<Rightarrow> h a | Inr a \<Rightarrow> k a)"
  by (auto split: prod.splits option.splits sum.splits)

lemma silent_read_limited [silent_intro]: "(\<And>n. silent mon (rd n)) \<Longrightarrow> silent mon (read_limited rd n)"
  unfolding read_limited_def by (intro silent_intro)

lemma tracks_dial:
  assumes "wire_laws N X mon"
  shows "triple (tracks mon A M S n {}) (op_Dial N rv A)
    (\<lambda>r. tracks mon A M S (Suc n) (case r of Inl _ \<Rightarrow> {} | Inr c \<Rightarrow> {c}))"
proof -
  have "triple (\<lambda>w. mon w = M') (op_Dial N rv A)
        (\<lambda>r w. case r of
           Inl _ \<Rightarrow> mon w = M'\<lparr>mo_dials := Suc (mo_dials M')\<rparr>
         | Inr c \<Rightarrow> c \<notin> mo_open M' \<and> mon w = M'\<lparr>mo_open := insert c (mo_open M'), mo_addr := (mo_addr M')(c \<mapsto> A),
             mo_dials := Suc (mo_dials M')\<rparr>)" for M'
    using assms unfolding wire_laws_def by blast
  then show ?thesis by (fastforce simp: triple_def tracks_def split: sum.splits)
qed

lemma tracks_close:
  assumes "wire_laws N X mon"
  shows "triple (tracks mon A M S n {raw c}) (conn_Close N c) (\<lambda>_. tracks mon A M S n {})"
proof -
  have "triple (\<lambda>w. mon w = M') (op_Close N (raw c)) (\<lambda>_ w. mon w = M'\<lparr>mo_open := mo_open M' - {raw c}\<rparr>)" for M'
    using assms unfolding wire_laws_def by blast
  then show ?thesis by (fastforce simp: triple_def tracks_def conn_Close_def)
qed

lemma tracks_write:
  assumes "wire_laws N X mon" "(c, req) \<in> S"
  shows "triple (tracks mon A M S n {raw c}) (wo_Write X p req c) (\<lambda>_. tracks mon A M S n {raw c})"
proof -
  have "triple (\<lambda>w. mon w = M') (wo_Write X p req c)
      (\<lambda>_ w. mon w = M'\<lparr>mo_log := mo_log M' @ [(mo_addr M' (raw c), c, req)]\<rparr>)" for M'
    using assms(1) unfolding wire_laws_def by blast
  then show ?thesis using assms(2) by (fastforce simp: triple_def tracks_def)
qed

lemma tracks_end:
  assumes "triple (tracks mon A M S 0 {}) m (\<lambda>_ w. \<exists>n \<le> k. tracks mon A M S n {} w)" "mon w = M"
  shows "mo_open (mon (snd (run_state m w))) = mo_open M"
    "mo_dials (mon (snd (run_state m w))) \<le> mo_dials M + k"
    "\<exists>l. mo_log (mon (snd (run_state m w))) = mo_log M @ l \<and> set l \<subseteq> {Some A} \<times> S"
  using tripleD [OF assms(1) tracks_start [of mon w M A S, OF assms(2)]] by (auto simp: tracks_def)

section \<open>Observations\<close>

text \<open>
  What a prober gets to see: the last TLS handshake with its outcome and the certificates read since,
  the last response that was read (\<open>None\<close> if reading it failed) and the last read of a body since, with
  the number of bytes asked for, the bytes and the error. \<open>observes\<close> says which call is recorded where.
\<close>

record 'c observation =
  ob_handshake :: "('c conn \<times> goerr option) option"
  ob_certs :: "Certificate list option"
  ob_resp :: "Response option"
  ob_body :: "(nat \<times> string \<times> goerr option) option"

definition no_obs :: "'c observation" where
  "no_obs = \<lparr>ob_handshake = None, ob_certs = None, ob_resp = None, ob_body = None\<rparr>"

definition response_of :: "goerr + Response \<Rightarrow> Response option" where
  "response_of r = (case r of Inl _ \<Rightarrow> None | Inr rs \<Rightarrow> Some rs)"

definition observes :: "('w, 'c) net_ops \<Rightarrow> ('w, 'c) wire_ops \<Rightarrow> ('w \<Rightarrow> 'c observation) \<Rightarrow> bool" where
  "observes N X ob \<longleftrightarrow>
     silent ob (op_Now N) \<and> silent ob (op_Pick N) \<and> silent ob (op_Cancel N) \<and> (\<forall>d. silent ob (op_Delay N d))
   \<and> (\<forall>rv h. silent ob (op_LookupIPAddr N rv h)) \<and> (\<forall>rv a. silent ob (op_Dial N rv a)) \<and> (\<forall>c. silent ob (op_Close N c))
   \<and> (\<forall>p req c. silent ob (wo_Write X p req c)) \<and> silent ob (wo_Deadline X) \<and> (\<forall>c d. silent ob (wo_SetDeadline X c d))
   \<and> (\<forall>c B. triple (\<lambda>w. ob w = B) (wo_Handshake X c) (\<lambda>e w. ob w = B\<lparr>ob_handshake := Some (c, e), ob_certs := None\<rparr>))
   \<and> (\<forall>c B. triple (\<lambda>w. ob w = B) (wo_PeerCertificates X c) (\<lambda>cs w. ob w = B\<lparr>ob_certs := Some cs\<rparr>))
   \<and> (\<forall>req c B. triple (\<lambda>w. ob w = B) (wo_ReadResponse X req c)
        (\<lambda>r w. ob w = B\<lparr>ob_resp := response_of (fst r), ob_body := None\<rparr>))
   \<and> (\<forall>c n B. triple (\<lambda>w. ob w = B) (wo_ReadBody X c n) (\<lambda>r w. ob w = B\<lparr>ob_body := Some (n, r)\<rparr>))"

lemma observesD:
  assumes "observes N X ob"
  shows "silent ob (op_Now N)" "silent ob (op_Dial N rv a)" "silent ob (op_Close N k)" "silent ob (wo_Write X p req c)"
    "silent ob (wo_Deadline X)" "silent ob (wo_SetDeadline X c d)" "silent ob (op_Pick N)" "silent ob (op_Cancel N)"
    "silent ob (op_Delay N dd)" "silent ob (op_LookupIPAddr N rv a)"
    "triple (\<lambda>w. ob w = B) (wo_Handshake X c) (\<lambda>e w. ob w = B\<lparr>ob_handshake := Some (c, e), ob_certs := None\<rparr>)"
    "triple (\<lambda>w. ob w = B) (wo_PeerCertificates X c) (\<lambda>cs w. ob w = B\<lparr>ob_certs := Some cs\<rparr>)"
    "triple (\<lambda>w. ob w = B) (wo_ReadResponse X req c) (\<lambda>r w. ob w = B\<lparr>ob_resp := response_of (fst r), ob_body := None\<rparr>)"
    "triple (\<lambda>w. ob w = B) (wo_ReadBody X c n) (\<lambda>r w. ob w = B\<lparr>ob_body := Some (n, r)\<rparr>)"
  using assms by (simp_all add: observes_def)

text \<open>A program that keeps a property of the world.\<close>

definition keeps :: "('w \<Rightarrow> bool) \<Rightarrow> ('w, 'a) io \<Rightarrow> bool" where
  "keeps P m \<longleftrightarrow> triple P m (\<lambda>_. P)"

named_theorems keeps_intro \<open>rules for programs that keep a property of the world\<close>

lemma keeps_silent: "silent ob m \<Longrightarrow> keeps (\<lambda>w. Q (ob w)) m"
  by (auto simp: keeps_def triple_def silent_def)

lemma keeps_bind [keeps_intro]: "keeps P m \<Longrightarrow> (\<And>x. keeps P (f x)) \<Longrightarrow> keeps P (State_Monad.bind m f)"
  by (auto simp: keeps_def intro: triple_bind)

lemma keeps_ret [keeps_intro]: "keeps P (ret x)"
  by (simp add: keeps_def triple_def)

lemma keeps_if [keeps_intro]: "keeps P m \<Longrightarrow> keeps P m' \<Longrightarrow> keeps P (if b then m else m')"
  by simp

lemma keeps_Let [keeps_intro]: "(\<And>x. keeps P (f x)) \<Longrightarrow> keeps P (Let v f)"
  by simp

lemma keeps_case [keeps_intro]:
  "(\<And>a b. keeps P (f a b)) \<Longrightarrow> keeps P (case p of (a, b) \<Rightarrow> f a b)"
  "keeps P m \<Longrightarrow> (\<And>a. keeps P (g a)) \<Longrightarrow> keeps P (case x of None \<Rightarrow> m | Some a \<Rightarrow> g a)"
  "(\<And>a. keeps P (h a)) \<Longrightarrow> (\<And>a. keeps P (k a)) \<Longrightarrow> keeps P (case y of Inl a \<Rightarrow> h a | Inr a \<Rightarrow> k a)"
  by (auto split: prod.splits option.splits sum.splits)

lemma triple_keeps: "keeps P m \<Longrightarrow> triple P m (\<lambda>_. P)"
  by (simp add: keeps_def)

text \<open>No certificates have been read since the last handshake, no body since the last response.\<close>

definition uncertified :: "('w \<Rightarrow> 'c observation) \<Rightarrow> 'w \<Rightarrow> bool" where
  "uncertified ob w \<longleftrightarrow> ob_certs (ob w) = None"

definition bodyless :: "('w \<Rightarrow> 'c observation) \<Rightarrow> 'w \<Rightarrow> bool" where
  "bodyless ob w \<longleftrightarrow> ob_body (ob w) = None"

lemma keeps_observed:
  assumes "silent ob m"
  shows "keeps (uncertified ob) m" "keeps (bodyless ob) m"
  using assms by (auto simp: keeps_def triple_def silent_def uncertified_def bodyless_def)

lemma uncertified_calls:
  assumes "observes N X ob"
  shows "keeps (uncertified ob) (op_Now N)" "keeps (uncertified ob) (op_Dial N rv a)" "keeps (uncertified ob) (conn_Close N c)"
    "keeps (uncertified ob) (wo_Write X p req c)" "keeps (uncertified ob) (wo_Deadline X)"
    "keeps (uncertified ob) (wo_SetDeadline X c d)" "keeps (uncertified ob) (wo_Handshake X c)"
    "keeps (uncertified ob) (wo_ReadResponse X req c)"
proof -
  show "keeps (uncertified ob) (wo_Handshake X c)" "keeps (uncertified ob) (wo_ReadResponse X req c)"
    using observesD(11,13) [OF assms] by (auto simp: keeps_def triple_def uncertified_def)
qed (simp_all add: conn_Close_def keeps_observed observesD [OF assms])

lemma bodyless_calls:
  assumes "observes N X ob"
  shows "keeps (bodyless ob) (op_Now N)" "keeps (bodyless ob) (op_Dial N rv a)" "keeps (bodyless ob) (conn_Close N c)"
    "keeps (bodyless ob) (wo_Write X p req c)" "keeps (bodyless ob) (wo_Deadline X)"
    "keeps (bodyless ob) (wo_SetDeadline X c d)" "keeps (bodyless ob) (wo_Handshake X c)"
    "keeps (bodyless ob) (wo_ReadResponse X req c)" "keeps (bodyless ob) (wo_PeerCertificates X c)"
proof -
  show "keeps (bodyless ob) (wo_Handshake X c)" "keeps (bodyless ob) (wo_ReadResponse X req c)"
    "keeps (bodyless ob) (wo_PeerCertificates X c)"
    using observesD(11-13) [OF assms] by (auto simp: keeps_def triple_def bodyless_def)
qed (simp_all add: conn_Close_def keeps_observed observesD [OF assms])

section \<open>A small world\<close>

text \<open>
  A clock, the open connections, the requests written, the connections dialled with their addresses, and
  the observation. Every dial and every handshake succeeds, and every request is answered with the given
  response and body.
\<close>

type_synonym small_world =
  "int \<times> nat list \<times> (string option \<times> nat conn \<times> Request) list \<times> (nat \<times> string) list \<times> nat observation"

abbreviation world0 :: "nat list \<Rightarrow> small_world" where
  "world0 cs \<equiv> (1, cs, [], [], no_obs)"

definition small_mon :: "small_world \<Rightarrow> nat monitor" where
  "small_mon w = (case w of (t, cs, l, ds, b) \<Rightarrow> \<lparr>mo_open = set cs, mo_addr = map_of ds, mo_log = l, mo_dials = length ds\<rparr>)"

definition small_obs :: "small_world \<Rightarrow> nat observation" where
  "small_obs w = (case w of (t, cs, l, ds, b) \<Rightarrow> b)"

definition wire_net :: "(small_world, nat) net_ops" where
  "wire_net =
     \<lparr>op_Now = State (\<lambda>(t, w). (t + 1, (t + 1, w))),
      op_CtxErr = ret None,
      op_LookupIP = (\<lambda>_ _ _. ret (Inr [])), op_LookupIPAddr = (\<lambda>_ _. ret (Inr [])),
      op_LookupCNAME = (\<lambda>_ _. ret (Inr ''alias.'')),
      op_Dial = (\<lambda>_ a. State (\<lambda>(t, cs, l, ds, b).
        (Inr (fresh_conn cs), (t, fresh_conn cs # cs, l, (fresh_conn cs, a) # ds, b)))),
      op_Delay = (\<lambda>_. ret None), op_Pick = ret True, op_Cancel = ret (),
      op_Close = (\<lambda>c. State (\<lambda>(t, cs, r). ((), (t, filter (\<lambda>d. d \<noteq> c) cs, r))))\<rparr>"

definition small_certs :: "Certificate list" where
  "small_certs = [\<lparr>ce_NotAfter = 9, ce_RawIssuer = ''i'', ce_RawSubject = ''l''\<rparr>]"

definition small_wire :: "Response \<Rightarrow> string \<Rightarrow> (small_world, nat) wire_ops" where
  "small_wire resp body =
     \<lparr>wo_Handshake = (\<lambda>c. State (\<lambda>(t, cs, l, ds, b). (None, (t, cs, l, ds, b\<lparr>ob_handshake := Some (c, None), ob_certs := None\<rparr>)))),
      wo_PeerCertificates = (\<lambda>_. State (\<lambda>(t, cs, l, ds, b). (small_certs, (t, cs, l, ds, b\<lparr>ob_certs := Some small_certs\<rparr>)))),
      wo_Deadline = ret None, wo_SetDeadline = (\<lambda>_ _. ret None),
      wo_Write = (\<lambda>p req c. State (\<lambda>(t, cs, l, ds, b). (None, (t, cs, l @ [(map_of ds (raw c), c, req)], ds, b)))),
      wo_ReadResponse = (\<lambda>_ _. State (\<lambda>(t, cs, l, ds, b).
        ((Inr resp, [(1, t + 1)]), (t + 1, cs, l, ds, b\<lparr>ob_resp := Some resp, ob_body := None\<rparr>)))),
      wo_ReadBody = (\<lambda>_ n. State (\<lambda>(t, cs, l, ds, b).
        ((take n body, None), (t, cs, l, ds, b\<lparr>ob_body := Some (n, take n body, None)\<rparr>))))\<rparr>"

lemma small_wire_laws: "wire_laws wire_net (small_wire resp body) small_mon"
  by (auto simp: wire_laws_def wire_net_def small_wire_def small_mon_def triple_def silent_def dest: fresh_conn_new)

lemma small_wire_observes: "observes wire_net (small_wire resp body) small_obs"
  by (auto simp: observes_def wire_net_def small_wire_def small_obs_def triple_def silent_def response_of_def)

text \<open>URLs that are all printed and parsed as the same one.\<close>

definition one_url :: "URL \<Rightarrow> url_ops" where
  "one_url u = \<lparr>uo_ParseRequestURI = (\<lambda>_. Some u), uo_Parse = (\<lambda>_. Inr u), uo_Resolve = (\<lambda>_ _. Inr u), uo_String = (\<lambda>_. [])\<rparr>"

end
