(* ===== verification/Probe_Proxy.thy ===== *)
theory Probe_Proxy
  imports Probe_Conn Config_Target
begin

text \<open>
  The CONNECT tunnel and the prober for it: \<^verbatim>\<open>internal/probe/proxy_tunnel.go\<close>, \<^verbatim>\<open>proxy_endpoint.go\<close>,
  \<^verbatim>\<open>proxy.go\<close>, and \<^verbatim>\<open>BasicAuthHeader\<close> of \<^verbatim>\<open>internal/config/config.go\<close>. A panic of \<^verbatim>\<open>mustProxyEndpoint\<close> is
  the value \<open>None\<close> in place of the program of a probe. The resolver of a probe is never nil here.
\<close>

section \<open>Credentials and endpoints\<close>

definition BasicAuthHeader :: "ResolvedProxyCredentials \<Rightarrow> string \<times> bool" where
  "BasicAuthHeader c =
     (if cr_username c = [] \<and> cr_password c = [] then ([], False)
      else (''Basic '' @ base64_encode (cr_username c @ '':'' @ cr_password c), True))"

definition mustProxyEndpoint :: "url_ops \<Rightarrow> string \<Rightarrow> URL option" where
  "mustProxyEndpoint U endpoint = (case ProxyURL_Parse (uo_ParseRequestURI U) endpoint of Inl _ \<Rightarrow> None | Inr u \<Rightarrow> Some u)"

definition hostPortForURL :: "URL \<Rightarrow> string" where
  "hostPortForURL u =
     JoinHostPort (Hostname u)
       (if Port u = [] then if u_Scheme u = ''https'' then ''443'' else ''80'' else Port u)"

definition setProxyAuthorization :: "Request \<Rightarrow> string \<Rightarrow> Request" where
  "setProxyAuthorization req proxyAuthHeader =
     (if proxyAuthHeader = [] then req
      else req\<lparr>rq_Header := header_Set (rq_Header req) ''Proxy-Authorization'' proxyAuthHeader\<rparr>)"

section \<open>The tunnel\<close>

record proxyConnectResponse =
  pc_StatusCode :: int
  pc_Observed :: bool

record 'c proxyTunnelResult =
  pt_conn :: "'c conn option"
  pt_phases :: "duration gomap"
  pt_connectResp :: proxyConnectResponse

definition zero_connectResp :: proxyConnectResponse where
  "zero_connectResp = \<lparr>pc_StatusCode = 0, pc_Observed = False\<rparr>"

text \<open>
  The steps of \<^verbatim>\<open>dialProxyTunnel\<close> after the dial: the TLS handshake with an https proxy, the deadline,
  and the CONNECT exchange. Each returns the value of \<^verbatim>\<open>proxyConn\<close>, which the deferred function closes on
  an error. Closing the body of the CONNECT response closes nothing and is left out.
\<close>

definition tunnel_tls ::
  "('w, 'c) net_ops \<Rightarrow> ('w, 'c) wire_ops \<Rightarrow> URL \<Rightarrow> bool \<Rightarrow> 'c conn \<Rightarrow> duration gomap
     \<Rightarrow> ('w, duration gomap \<times> 'c conn \<times> goerr option) io" where
  "tunnel_tls N X proxyURL skipVerify conn phases =
     (if u_Scheme proxyURL = ''https'' then do {
        let host = (case SplitHostPort (hostPortForURL proxyURL) of Some (h, _) \<Rightarrow> h | None \<Rightarrow> []);
        let tlsConn = TLSClient \<lparr>tls_ServerName = host, tls_InsecureSkipVerify = skipVerify\<rparr> conn;
        tlsStart \<leftarrow> op_Now N;
        err \<leftarrow> wo_Handshake X tlsConn;
        tlsEnd \<leftarrow> op_Now N;
        let phases' = addObservedPhase phases PhaseProxyTLS tlsEnd tlsStart;
        ret (case err of
               Some e \<Rightarrow> (phases', conn, Some (Errorf ''proxy tls handshake: %s'' [FErr e]))
             | None \<Rightarrow> (phases', tlsConn, None))
      }
      else ret (phases, conn, None))"

definition set_tunnel_deadline :: "('w, 'c) wire_ops \<Rightarrow> 'c conn \<Rightarrow> ('w, goerr option) io" where
  "set_tunnel_deadline X conn = do {
     deadline \<leftarrow> wo_Deadline X;
     (case deadline of
        None \<Rightarrow> ret None
      | Some d \<Rightarrow> do {
          err \<leftarrow> wo_SetDeadline X conn (Some d);
          ret (map_option (\<lambda>e. Errorf ''set deadline: %s'' [FErr e]) err)
        })
   }"

definition connectReq :: "string \<Rightarrow> string \<Rightarrow> Request" where
  "connectReq tunnelDest proxyAuthHeader =
     setProxyAuthorization
       \<lparr>rq_Method = ''CONNECT'', rq_URL = zero_URL\<lparr>u_Opaque := tunnelDest\<rparr>, rq_Host = tunnelDest,
        rq_Header = Some [], rq_Body = None, rq_Close = False\<rparr> proxyAuthHeader"

definition tunnel_connect ::
  "('w, 'c) net_ops \<Rightarrow> ('w, 'c) wire_ops \<Rightarrow> string \<Rightarrow> string \<Rightarrow> 'c conn \<Rightarrow> duration gomap
     \<Rightarrow> ('w, duration gomap \<times> proxyConnectResponse \<times> goerr option) io" where
  "tunnel_connect N X tunnelDest proxyAuthHeader conn phases = do {
     let req = connectReq tunnelDest proxyAuthHeader;
     connectStart \<leftarrow> op_Now N;
     werr \<leftarrow> wo_Write X False req conn;
     (case werr of
        Some e \<Rightarrow> do {
          t \<leftarrow> op_Now N;
          ret (addObservedPhase phases PhaseProxyConnect t connectStart, zero_connectResp,
            Some (Errorf ''writing CONNECT request: %s'' [FErr e]))
        }
      | None \<Rightarrow> do {
          (resp, _) \<leftarrow> wo_ReadResponse X req conn;
          t \<leftarrow> op_Now N;
          let phases' = addObservedPhase phases PhaseProxyConnect t connectStart;
          ret (case resp of
                 Inl e \<Rightarrow> (phases', zero_connectResp, Some (Errorf ''reading CONNECT response: %s'' [FErr e]))
               | Inr r \<Rightarrow>
                   (phases', \<lparr>pc_StatusCode = rs_StatusCode r, pc_Observed = True\<rparr>,
                    errif (rs_StatusCode r < 200 \<or> rs_StatusCode r > 299)
                      (Errorf ''proxy CONNECT returned status %d'' [FInt (rs_StatusCode r)])))
        })
   }"

definition tunnel_setup ::
  "('w, 'c) net_ops \<Rightarrow> ('w, 'c) wire_ops \<Rightarrow> URL \<Rightarrow> string \<Rightarrow> bool \<Rightarrow> string \<Rightarrow> 'c conn \<Rightarrow> duration gomap
     \<Rightarrow> ('w, duration gomap \<times> 'c conn \<times> proxyConnectResponse \<times> goerr option) io" where
  "tunnel_setup N X proxyURL tunnelDest skipVerify proxyAuthHeader rawConn phases = do {
     (phases1, conn, terr) \<leftarrow> tunnel_tls N X proxyURL skipVerify rawConn phases;
     (case terr of
        Some e \<Rightarrow> ret (phases1, conn, zero_connectResp, Some e)
      | None \<Rightarrow> do {
          derr \<leftarrow> set_tunnel_deadline X conn;
          (case derr of
             Some e \<Rightarrow> ret (phases1, conn, zero_connectResp, Some e)
           | None \<Rightarrow> do {
               (phases2, resp, cerr) \<leftarrow> tunnel_connect N X tunnelDest proxyAuthHeader conn phases1;
               ret (phases2, conn, resp, cerr)
             })
        })
   }"

definition dialProxyTunnel ::
  "('w, 'c) net_ops \<Rightarrow> ('w, 'c) wire_ops \<Rightarrow> URL \<Rightarrow> string \<Rightarrow> bool \<Rightarrow> string \<Rightarrow> resolver
     \<Rightarrow> ('w, 'c proxyTunnelResult \<times> goerr option) io" where
  "dialProxyTunnel N X proxyURL tunnelDest skipVerify proxyAuthHeader rv = do {
     start \<leftarrow> op_Now N;
     dialed \<leftarrow> op_Dial N rv (hostPortForURL proxyURL);
     proxyDialDone \<leftarrow> op_Now N;
     let phases = addObservedPhase (Some []) PhaseProxyDial proxyDialDone start;
     (case dialed of
        Inl e \<Rightarrow> ret (\<lparr>pt_conn = None, pt_phases = phases, pt_connectResp = zero_connectResp\<rparr>,
          Some (Errorf ''proxy dial: %s'' [FErr e]))
      | Inr c \<Rightarrow> do {
          (phases', conn, resp, err) \<leftarrow>
            tunnel_setup N X proxyURL tunnelDest skipVerify proxyAuthHeader (Raw c) phases;
          (case err of
             Some e \<Rightarrow> do {
               conn_Close N conn;
               ret (\<lparr>pt_conn = None, pt_phases = phases', pt_connectResp = resp\<rparr>, Some e)
             }
           | None \<Rightarrow> ret (\<lparr>pt_conn = Some conn, pt_phases = phases', pt_connectResp = resp\<rparr>, None))
        })
   }"

section \<open>The prober\<close>

definition parseTunnelDestination :: "string \<Rightarrow> string res" where
  "parseTunnelDestination address =
     (if Contains address ''://'' then
        Inl (Errorf ''address must be host:port (URL syntax not supported for proxy_connect), got %q'' [FStr address])
      else case SplitHostPort address of
        Some _ \<Rightarrow> Inr address
      | None \<Rightarrow> Inl (Errorf ''address must be host:port, got %q'' [FStr address]))"

text \<open>The part that the probers through a proxy share: the phases and the CONNECT response of the tunnel.\<close>

definition set_tunnel_result :: "duration gomap \<Rightarrow> proxyConnectResponse \<Rightarrow> ProbeResult \<Rightarrow> ProbeResult" where
  "set_tunnel_result phases resp r =
     (let r1 = set_phases phases r in
      if pc_Observed resp
      then r1\<lparr>pr_ProxyConnectResponseReceived := True, pr_ProxyConnectStatusCode := pc_StatusCode resp\<rparr>
      else r1)"

definition proxy_verdict :: "int list \<Rightarrow> proxyConnectResponse \<Rightarrow> goerr option \<Rightarrow> ProbeResult \<Rightarrow> ProbeResult" where
  "proxy_verdict expected resp err r =
     (case err of
        Some e \<Rightarrow>
          if pc_Observed resp \<and> pc_StatusCode resp \<in> set expected then r\<lparr>pr_Success := True\<rparr>
          else r\<lparr>pr_Error := Some e\<rparr>
      | None \<Rightarrow>
          if expected \<noteq> [] then
            if pc_StatusCode resp \<in> set expected then r\<lparr>pr_Success := True\<rparr>
            else r\<lparr>pr_Error := Some (Errorf ''unexpected proxy CONNECT status %d'' [FInt (pc_StatusCode resp)])\<rparr>
          else r\<lparr>pr_Success := True\<rparr>)"

definition ProxyProber_Probe ::
  "url_ops \<Rightarrow> ('w, 'c) net_ops \<Rightarrow> ('w, 'c) wire_ops \<Rightarrow> TargetConfig \<Rightarrow> ('w, ProbeResult) io option" where
  "ProxyProber_Probe U N X target =
     (case tc_ResolvedProxy target of
        None \<Rightarrow> Some (ret (zero_result\<lparr>pr_Error := Some (Errorf ''missing resolved proxy'' [])\<rparr>))
      | Some rp \<Rightarrow>
          (case mustProxyEndpoint U (rp_Endpoint rp) of
             None \<Rightarrow> None
           | Some proxyURL \<Rightarrow> Some
               (case parseTunnelDestination (tc_Address target) of
                  Inl e \<Rightarrow> ret (zero_result\<lparr>pr_Error := Some (Errorf ''invalid target address: %s'' [FErr e])\<rparr>)
                | Inr tunnelDest \<Rightarrow> do {
                    start \<leftarrow> op_Now N;
                    (tunnel, err) \<leftarrow> dialProxyTunnel N X proxyURL tunnelDest (rp_TLSSkipVerify rp)
                      (fst (BasicAuthHeader (rp_Credentials rp))) (resolverFor (tc_DNSResolver target));
                    stop \<leftarrow> op_Now N;
                    let r = set_tunnel_result (pt_phases tunnel) (pt_connectResp tunnel)
                      (zero_result\<lparr>pr_Duration := time_Sub stop start\<rparr>);
                    let r' = proxy_verdict (elems (po_ExpectedProxyConnectStatusCodes (tc_ProbeOpts target)))
                      (pt_connectResp tunnel) err r;
                    (case pt_conn tunnel of None \<Rightarrow> ret () | Some conn \<Rightarrow> conn_Close N conn);
                    ret r'
                  })))"

section \<open>What a tunnel promises\<close>

lemma known_proxy_phases [simp]:
  "PhaseProxyDial \<in> set AllPhases" "PhaseProxyTLS \<in> set AllPhases" "PhaseProxyConnect \<in> set AllPhases"
  by (simp_all add: AllPhases_def)

lemma zero_connectResp_simps [simp]: "pc_Observed zero_connectResp = False" "pc_StatusCode zero_connectResp = 0"
  by (simp_all add: zero_connectResp_def)

definition connect_ok :: "proxyConnectResponse \<Rightarrow> bool" where
  "connect_ok resp \<longleftrightarrow> pc_Observed resp \<and> 200 \<le> pc_StatusCode resp \<and> pc_StatusCode resp \<le> 299"

lemma connect_ok_zero [simp]: "\<not> connect_ok zero_connectResp"
  by (simp add: connect_ok_def)

lemma tunnel_connect_always:
  "phases_ok ps \<Longrightarrow> always (tunnel_connect N X d a c ps) (\<lambda>(ps', resp, e). phases_ok ps' \<and> (e = None) = connect_ok resp)"
  unfolding tunnel_connect_def by (intro always_intro) (auto simp: connect_ok_def split: sum.splits)

lemma tunnel_tls_always: "phases_ok ps \<Longrightarrow> always (tunnel_tls N X u sk c ps) (\<lambda>(ps', _). phases_ok ps')"
  unfolding tunnel_tls_def by (intro always_intro) (auto split: option.splits)

lemma tunnel_setup_always:
  assumes "phases_ok ps"
  shows "always (tunnel_setup N X u d sk a c ps) (\<lambda>(ps', _, resp, e). phases_ok ps' \<and> (e = None) = connect_ok resp)"
proof -
  have conn: "always (do { (ps2, resp, e) \<leftarrow> tunnel_connect N X d a c' ps1; ret (ps2, c', resp, e) })
      (\<lambda>(ps', _, resp, e). phases_ok ps' \<and> (e = None) = connect_ok resp)" if "phases_ok ps1" for ps1 c'
    by (rule always_bind [OF tunnel_connect_always [OF that]]) (auto intro!: always_ret)
  show ?thesis unfolding tunnel_setup_def
    by (rule always_bind [OF tunnel_tls_always [OF assms]])
      (intro always_case_prod always_case_option always_bindT conn always_ret; auto)
qed

lemma dialProxyTunnel_always:
  "always (dialProxyTunnel N X u d sk a rv)
     (\<lambda>(t, e). phases_ok (pt_phases t) \<and> (e = None) = connect_ok (pt_connectResp t) \<and> (e = None) = (pt_conn t \<noteq> None))"
proof -
  have rest: "always (do {
        (ps', conn, resp, err) \<leftarrow> tunnel_setup N X u d sk a c ps;
        (case err of
           Some e \<Rightarrow> do { conn_Close N conn; ret (\<lparr>pt_conn = None, pt_phases = ps', pt_connectResp = resp\<rparr>, Some e) }
         | None \<Rightarrow> ret (\<lparr>pt_conn = Some conn, pt_phases = ps', pt_connectResp = resp\<rparr>, None)) })
      (\<lambda>(t, e). phases_ok (pt_phases t) \<and> (e = None) = connect_ok (pt_connectResp t) \<and> (e = None) = (pt_conn t \<noteq> None))"
    if "phases_ok ps" for c ps
    by (rule always_bind [OF tunnel_setup_always [OF that]])
      (auto intro!: always_intro split: option.splits)
  show ?thesis unfolding dialProxyTunnel_def
    by (intro always_bindT always_Let always_case_sum rest always_ret) auto
qed

section \<open>Connections and what is written to them\<close>

text \<open>The connection on which CONNECT is sent: to an https proxy under TLS with the proxy's own settings.\<close>

definition proxy_layer :: "URL \<Rightarrow> bool \<Rightarrow> 'c conn \<Rightarrow> 'c conn" where
  "proxy_layer proxyURL skipVerify c =
     (if u_Scheme proxyURL = ''https''
      then TLSClient \<lparr>tls_ServerName = (case SplitHostPort (hostPortForURL proxyURL) of Some (h, _) \<Rightarrow> h | None \<Rightarrow> []),
             tls_InsecureSkipVerify = skipVerify\<rparr> c
      else c)"

lemma raw_proxy_layer [simp]: "raw (proxy_layer u sk c) = raw c"
  by (simp add: proxy_layer_def)

lemma tunnel_tls_always_conn:
  "always (tunnel_tls N X u sk c ps) (\<lambda>(_, c', e). raw c' = raw c \<and> (e = None \<longrightarrow> c' = proxy_layer u sk c))"
  unfolding tunnel_tls_def by (intro always_intro) (auto simp: proxy_layer_def split: option.splits)

lemma tunnel_tls_silent: "wire_laws N X mon \<Longrightarrow> silent mon (tunnel_tls N X u sk c ps)"
  unfolding tunnel_tls_def by (intro silent_intro wire_lawsD)

lemma set_tunnel_deadline_silent: "wire_laws N X mon \<Longrightarrow> silent mon (set_tunnel_deadline X c)"
  unfolding set_tunnel_deadline_def by (intro silent_intro wire_lawsD)

lemma tunnel_connect_tracks:
  assumes "wire_laws N X mon" "(c, connectReq d a) \<in> S"
  shows "triple (tracks mon A M S n {raw c}) (tunnel_connect N X d a c ps) (\<lambda>_. tracks mon A M S n {raw c})"
  unfolding tunnel_connect_def Let_def
  by (rule triple_bind [OF silent_tracks [OF wire_lawsD(1) [OF assms(1)]]],
      rule triple_bind [OF tracks_write [OF assms]])
    (intro silent_tracks silent_intro wire_lawsD [OF assms(1)])

text \<open>
  The tunnel dials once. On success exactly its connection is open in addition, under the TLS layer
  of the proxy; on an error nothing is. The only request written is the CONNECT request, on that layer.
\<close>

definition tunnel_open :: "'c proxyTunnelResult \<Rightarrow> 'c set" where
  "tunnel_open t = (case pt_conn t of None \<Rightarrow> {} | Some c \<Rightarrow> {raw c})"

lemma tunnel_setup_tracks:
  assumes "wire_laws N X mon" "(proxy_layer u sk c, connectReq d a) \<in> S"
  shows "triple (tracks mon A M S n {raw c}) (tunnel_setup N X u d sk a c ps)
    (\<lambda>(_, c', _, e) w. (raw c' = raw c \<and> (e = None \<longrightarrow> c' = proxy_layer u sk c)) \<and> tracks mon A M S n {raw c} w)"
proof -
  have tls: "triple (tracks mon A M S n {raw c}) (tunnel_tls N X u sk c ps)
      (\<lambda>x w. (case x of (_, c', e) \<Rightarrow> raw c' = raw c \<and> (e = None \<longrightarrow> c' = proxy_layer u sk c)) \<and> tracks mon A M S n {raw c} w)"
    by (rule silent_always [OF tunnel_tls_silent [OF assms(1)] tunnel_tls_always_conn])
  have conn: "triple (tracks mon A M S n {raw c})
      (do { (ps2, resp, e) \<leftarrow> tunnel_connect N X d a (proxy_layer u sk c) ps1; ret (ps2, proxy_layer u sk c, resp, e) })
      (\<lambda>(_, c', _, e) w. (raw c' = raw c \<and> (e = None \<longrightarrow> c' = proxy_layer u sk c)) \<and> tracks mon A M S n {raw c} w)" for ps1
    using tunnel_connect_tracks [OF assms] by (intro triple_bind) (auto intro!: triple_ret)
  show ?thesis unfolding tunnel_setup_def
  proof (rule triple_bind [OF tls], goal_cases)
    case (1 x)
    obtain ps1 c' terr where x: "x = (ps1, c', terr)" by (cases x)
    show ?case unfolding x prod.case
    proof (rule triple_pure, cases terr)
      case None
      assume "raw c' = raw c \<and> (terr = None \<longrightarrow> c' = proxy_layer u sk c)"
      with None have c': "c' = proxy_layer u sk c" by simp
      show "triple (tracks mon A M S n {raw c}) (case terr of None \<Rightarrow> do {
            derr \<leftarrow> set_tunnel_deadline X c';
            (case derr of
               None \<Rightarrow> do { (phases2, resp, cerr) \<leftarrow> tunnel_connect N X d a c' ps1; ret (phases2, c', resp, cerr) }
             | Some e \<Rightarrow> ret (ps1, c', zero_connectResp, Some e)) }
          | Some e \<Rightarrow> ret (ps1, c', zero_connectResp, Some e))
        (\<lambda>(_, c', _, e) w. (raw c' = raw c \<and> (e = None \<longrightarrow> c' = proxy_layer u sk c)) \<and> tracks mon A M S n {raw c} w)"
        unfolding None option.case c'
        by (rule triple_bind [OF silent_tracks [OF set_tunnel_deadline_silent [OF assms(1)]]])
          (intro triple_case_option conn triple_ret; auto)
    qed (auto intro!: triple_ret)
  qed
qed

lemma dialProxyTunnel_tracks:
  assumes "wire_laws N X mon" "\<And>c. (proxy_layer u sk (Raw c), connectReq d a) \<in> S" "A = hostPortForURL u"
  shows "triple (tracks mon A M S n {}) (dialProxyTunnel N X u d sk a rv)
    (\<lambda>(t, e) w. (\<forall>c'. pt_conn t = Some c' \<longrightarrow> (\<exists>c. c' = proxy_layer u sk (Raw c))) \<and> tracks mon A M S (Suc n) (tunnel_open t) w)"
proof -
  have rest: "triple (tracks mon A M S (Suc n) {c}) (do {
        (ps', conn, resp, err) \<leftarrow> tunnel_setup N X u d sk a (Raw c) ps;
        (case err of
           Some e \<Rightarrow> do { conn_Close N conn; ret (\<lparr>pt_conn = None, pt_phases = ps', pt_connectResp = resp\<rparr>, Some e) }
         | None \<Rightarrow> ret (\<lparr>pt_conn = Some conn, pt_phases = ps', pt_connectResp = resp\<rparr>, None)) })
      (\<lambda>(t, e) w. (\<forall>c'. pt_conn t = Some c' \<longrightarrow> (\<exists>c. c' = proxy_layer u sk (Raw c)))
         \<and> tracks mon A M S (Suc n) (tunnel_open t) w)" for c ps
  proof (rule triple_bind [OF tunnel_setup_tracks [where c = "Raw c", unfolded raw.simps, OF assms(1,2)]], goal_cases)
    case (1 x)
    obtain ps' conn resp err where x: "x = (ps', conn, resp, err)" by (cases x)
    show ?case unfolding x prod.case
    proof (rule triple_pure, cases err)
      case (Some e)
      assume "raw conn = c \<and> (err = None \<longrightarrow> conn = proxy_layer u sk (Raw c))"
      then have c: "c = raw conn" by simp
      show "triple (tracks mon A M S (Suc n) {c}) (case err of
           None \<Rightarrow> ret (\<lparr>pt_conn = Some conn, pt_phases = ps', pt_connectResp = resp\<rparr>, None)
         | Some e \<Rightarrow> do { conn_Close N conn; ret (\<lparr>pt_conn = None, pt_phases = ps', pt_connectResp = resp\<rparr>, Some e) })
        (\<lambda>(t, e) w. (\<forall>c'. pt_conn t = Some c' \<longrightarrow> (\<exists>c. c' = proxy_layer u sk (Raw c)))
           \<and> tracks mon A M S (Suc n) (tunnel_open t) w)"
        unfolding Some option.case c
        by (rule triple_bind [OF tracks_close [OF assms(1)]]) (auto simp: tunnel_open_def intro!: triple_ret)
    qed (auto simp: tunnel_open_def intro!: triple_ret)
  qed
  have fin: "triple (tracks mon A M S (Suc n) (case dialed of Inl _ \<Rightarrow> {} | Inr c \<Rightarrow> {c})) (case dialed of
        Inl e \<Rightarrow> ret (\<lparr>pt_conn = None, pt_phases = ps, pt_connectResp = zero_connectResp\<rparr>, Some (Errorf ''proxy dial: %s'' [FErr e]))
      | Inr c \<Rightarrow> do {
        (ps', conn, resp, err) \<leftarrow> tunnel_setup N X u d sk a (Raw c) ps;
        (case err of
           Some e \<Rightarrow> do { conn_Close N conn; ret (\<lparr>pt_conn = None, pt_phases = ps', pt_connectResp = resp\<rparr>, Some e) }
         | None \<Rightarrow> ret (\<lparr>pt_conn = Some conn, pt_phases = ps', pt_connectResp = resp\<rparr>, None)) })
      (\<lambda>(t, e) w. (\<forall>c'. pt_conn t = Some c' \<longrightarrow> (\<exists>c. c' = proxy_layer u sk (Raw c)))
         \<and> tracks mon A M S (Suc n) (tunnel_open t) w)" for dialed ps
    using rest by (cases dialed) (auto simp: tunnel_open_def intro!: triple_ret)
  show ?thesis unfolding dialProxyTunnel_def assms(3) [symmetric]
    by (rule triple_bind [OF silent_tracks [OF wire_lawsD(1) [OF assms(1)]]],
        rule triple_bind [OF tracks_dial [OF assms(1)]],
        rule triple_bind [OF silent_tracks [OF wire_lawsD(1) [OF assms(1)]]], rule triple_Let, rule fin)
qed

text \<open>The tunnel reads no certificates and no body.\<close>

lemma dialProxyTunnel_keeps:
  assumes "observes N X ob"
  shows "keeps (uncertified ob) (dialProxyTunnel N X u d sk a rv)" "keeps (bodyless ob) (dialProxyTunnel N X u d sk a rv)"
  unfolding dialProxyTunnel_def tunnel_setup_def tunnel_tls_def set_tunnel_deadline_def tunnel_connect_def
  by (intro keeps_intro uncertified_calls [OF assms] bodyless_calls [OF assms])+

section \<open>The contract of the prober\<close>

text \<open>
  A prober whose program may not start: \<open>None\<close> is a panic before the first call. Every prober is one
  that never panics.
\<close>

locale partial_prober =
  fixes probe :: "TargetConfig \<Rightarrow> ('w, ProbeResult) io option"
  assumes probe_ok: "probe t = Some m \<Longrightarrow> always m result_ok"
begin

lemma error_iff_failure:
  "probe t = Some m \<Longrightarrow> pr_Success (fst (run_state m w)) \<longleftrightarrow> pr_Error (fst (run_state m w)) = None"
  using alwaysD [OF probe_ok] by (simp add: result_ok_def)

lemma known_phases_only:
  "probe t = Some m \<Longrightarrow> set (mkeys (pr_Phases (fst (run_state m w)))) \<subseteq> set AllPhases"
  using alwaysD [OF probe_ok] by (simp add: result_ok_def phases_ok_def)

end

sublocale prober \<subseteq> total: partial_prober "\<lambda>t. Some (probe t)"
  by unfold_locales (simp add: probe_ok)

lemma set_tunnel_result_fields [simp]:
  "pr_Success (set_tunnel_result ps resp r) = pr_Success r" "pr_Error (set_tunnel_result ps resp r) = pr_Error r"
  "phases_ok ps \<Longrightarrow> phases_ok (pr_Phases r) \<Longrightarrow> phases_ok (pr_Phases (set_tunnel_result ps resp r))"
  by (simp_all add: set_tunnel_result_def Let_def)

lemma proxy_verdict_fields [simp]:
  "pr_Phases (proxy_verdict xs resp e r) = pr_Phases r"
  "pr_ProxyConnectResponseReceived (proxy_verdict xs resp e r) = pr_ProxyConnectResponseReceived r"
  "pr_ProxyConnectStatusCode (proxy_verdict xs resp e r) = pr_ProxyConnectStatusCode r"
  by (auto simp: proxy_verdict_def split: option.splits)

lemma proxy_verdict_ok:
  "\<not> pr_Success r \<Longrightarrow> pr_Error r = None \<Longrightarrow> phases_ok (pr_Phases r) \<Longrightarrow> result_ok (proxy_verdict xs resp e r)"
  by (auto simp: result_ok_def proxy_verdict_def split: option.splits)

text \<open>The verdict in terms of the CONNECT response alone.\<close>

definition connect_expected :: "int list \<Rightarrow> bool \<Rightarrow> int \<Rightarrow> bool" where
  "connect_expected expected observed status \<longleftrightarrow>
     observed \<and> (if expected = [] then 200 \<le> status \<and> status \<le> 299 else status \<in> set expected)"

lemma proxy_verdict_success:
  assumes "(e = None) = connect_ok resp" "\<not> pr_Success r"
  shows "pr_Success (proxy_verdict xs resp e r) = connect_expected xs (pc_Observed resp) (pc_StatusCode resp)"
  using assms by (auto simp: proxy_verdict_def connect_expected_def connect_ok_def split: option.splits)

definition verdict_ok :: "TargetConfig \<Rightarrow> ProbeResult \<Rightarrow> bool" where
  "verdict_ok t r \<longleftrightarrow> result_ok r \<and>
     pr_Success r = connect_expected (elems (po_ExpectedProxyConnectStatusCodes (tc_ProbeOpts t)))
       (pr_ProxyConnectResponseReceived r) (pr_ProxyConnectStatusCode r)"

lemma ProxyProber_verdict:
  assumes "ProxyProber_Probe U N X t = Some m"
  shows "always m (verdict_ok t)"
proof (cases "tc_ResolvedProxy t")
  case None
  with assms have "m = ret (zero_result\<lparr>pr_Error := Some (Errorf ''missing resolved proxy'' [])\<rparr>)"
    by (simp add: ProxyProber_Probe_def)
  then show ?thesis by (auto simp: verdict_ok_def result_ok_def connect_expected_def zero_result_def intro!: always_ret)
next
  case (Some rp)
  with assms obtain u where u: "mustProxyEndpoint U (rp_Endpoint rp) = Some u"
    by (auto simp: ProxyProber_Probe_def split: option.splits)
  show ?thesis
  proof (cases "parseTunnelDestination (tc_Address t)")
    case (Inl e)
    with assms Some u have "m = ret (zero_result\<lparr>pr_Error := Some (Errorf ''invalid target address: %s'' [FErr e])\<rparr>)"
      by (simp add: ProxyProber_Probe_def)
    then show ?thesis by (auto simp: verdict_ok_def result_ok_def connect_expected_def zero_result_def intro!: always_ret)
  next
    case (Inr d)
    let ?xs = "elems (po_ExpectedProxyConnectStatusCodes (tc_ProbeOpts t))"
    have fin: "verdict_ok t (proxy_verdict ?xs (pt_connectResp tn) e
        (set_tunnel_result (pt_phases tn) (pt_connectResp tn) (zero_result\<lparr>pr_Duration := x\<rparr>)))"
      if "phases_ok (pt_phases tn)" "(e = None) = connect_ok (pt_connectResp tn)" for tn :: "'b proxyTunnelResult" and e x
      using that unfolding verdict_ok_def
      by (simp add: proxy_verdict_ok proxy_verdict_success [OF that(2)] set_tunnel_result_def Let_def
          zero_result_def connect_expected_def set_phases_def)
    from assms Some u Inr have m: "m = do {
        start \<leftarrow> op_Now N;
        (tunnel, err) \<leftarrow> dialProxyTunnel N X u d (rp_TLSSkipVerify rp)
          (fst (BasicAuthHeader (rp_Credentials rp))) (resolverFor (tc_DNSResolver t));
        stop \<leftarrow> op_Now N;
        let r = set_tunnel_result (pt_phases tunnel) (pt_connectResp tunnel) (zero_result\<lparr>pr_Duration := time_Sub stop start\<rparr>);
        let r' = proxy_verdict ?xs (pt_connectResp tunnel) err r;
        (case pt_conn tunnel of None \<Rightarrow> ret () | Some conn \<Rightarrow> conn_Close N conn);
        ret r' }"
      by (simp add: ProxyProber_Probe_def)
    show ?thesis unfolding m
      by (rule always_bindT, rule always_bind [OF dialProxyTunnel_always])
        (auto intro!: always_bindT always_ret fin simp: Let_def)
  qed
qed

interpretation proxy: partial_prober "ProxyProber_Probe U N X"
  for U :: url_ops and N :: "('w, 'c) net_ops" and X :: "('w, 'c) wire_ops"
  by unfold_locales (auto intro: always_mono [OF ProxyProber_verdict] simp: verdict_ok_def)


text \<open>
  C23: a proxy probe leaves no connection open, dials at most once, and writes nothing but CONNECT
  requests for its own destination, on a connection that was dialled to the address of its proxy: for an
  https proxy under TLS with the proxy's host as server name, verified as the proxy's own setting says. So
  the credentials are written to no other connection.
\<close>

theorem ProxyProber_connections:
  assumes "wire_laws N X mon" and "ProxyProber_Probe U N X t = Some m" and "tc_ResolvedProxy t = Some rp"
    and "mustProxyEndpoint U (rp_Endpoint rp) = Some u" and "M = mon w" and "M' = mon (snd (run_state m w))"
  shows "mo_open M' = mo_open M \<and> mo_dials M' \<le> Suc (mo_dials M)
    \<and> (\<exists>l. mo_log M' = mo_log M @ l \<and> list_all (\<lambda>(addr, c, req). addr = Some (hostPortForURL u)
         \<and> (\<exists>k. c = (if u_Scheme u = ''https'' then TLSClient \<lparr>tls_ServerName =
                (case SplitHostPort (hostPortForURL u) of Some (h, _) \<Rightarrow> h | None \<Rightarrow> []),
                tls_InsecureSkipVerify = rp_TLSSkipVerify rp\<rparr> (Raw k) else Raw k))
         \<and> req = connectReq (tc_Address t) (fst (BasicAuthHeader (rp_Credentials rp)))) l)"
proof -
  define A where "A = hostPortForURL u"
  let ?sk = "rp_TLSSkipVerify rp" and ?a = "fst (BasicAuthHeader (rp_Credentials rp))"
  define S :: "('b conn \<times> Request) set"
    where "S = {(c, req). (\<exists>k. c = proxy_layer u ?sk (Raw k)) \<and> req = connectReq (tc_Address t) ?a}"
  have fin: "triple (tracks mon A M S (Suc 0) (tunnel_open tn))
      (do { (case pt_conn tn of None \<Rightarrow> ret () | Some conn \<Rightarrow> conn_Close N conn); ret r })
      (\<lambda>_ w. \<exists>n \<le> 1. tracks mon A M S n {} w)" for tn and r :: ProbeResult
    by (cases "pt_conn tn")
      (auto simp: tunnel_open_def intro!: triple_ret triple_bind [OF tracks_close [OF assms(1)]] triple_bind [OF triple_ret])
  have "triple (tracks mon A M S 0 {}) m (\<lambda>_ w. \<exists>n \<le> 1. tracks mon A M S n {} w)"
  proof (cases "parseTunnelDestination (tc_Address t)")
    case (Inl e)
    with assms show ?thesis by (auto simp: ProxyProber_Probe_def intro!: triple_ret)
  next
    case (Inr d)
    then have d: "d = tc_Address t" by (auto simp: parseTunnelDestination_def split: if_splits option.splits)
    have "(proxy_layer u ?sk (Raw k), connectReq d ?a) \<in> S" for k by (auto simp: S_def d)
    note tun = dialProxyTunnel_tracks [OF assms(1) this A_def]
    note now = triple_bind [OF silent_tracks [OF wire_lawsD(1) [OF assms(1)]]]
    from assms(2-4) Inr have m: "m = do {
        start \<leftarrow> op_Now N;
        (tunnel, err) \<leftarrow> dialProxyTunnel N X u d ?sk ?a (resolverFor (tc_DNSResolver t));
        stop \<leftarrow> op_Now N;
        let r = set_tunnel_result (pt_phases tunnel) (pt_connectResp tunnel) (zero_result\<lparr>pr_Duration := time_Sub stop start\<rparr>);
        let r' = proxy_verdict (elems (po_ExpectedProxyConnectStatusCodes (tc_ProbeOpts t))) (pt_connectResp tunnel) err r;
        (case pt_conn tunnel of None \<Rightarrow> ret () | Some conn \<Rightarrow> conn_Close N conn);
        ret r' }"
      by (simp add: ProxyProber_Probe_def)
    show ?thesis unfolding m
    proof (rule now, rule triple_bind [OF tun], goal_cases)
      case (1 start x)
      obtain tn e where x: "x = (tn, e)" by (cases x)
      show ?case unfolding x prod.case by (rule triple_pure, rule now, intro triple_Let fin)
    qed
  qed
  from tracks_end [OF this assms(5) [symmetric]] assms(6) show ?thesis
    by (fastforce simp: S_def A_def list_all_iff proxy_layer_def)
qed

section \<open>Witnesses\<close>

definition proxied_target :: TargetConfig where
  "proxied_target = zero_target\<lparr>tc_Name := ''p'', tc_Address := ''h:443'', tc_ProxyName := ''p1'',
     tc_ResolvedProxy := Some \<lparr>rp_Endpoint = ''http://p:80'', rp_TLSSkipVerify = False, rp_Username = [], rp_UsernameEnv = [],
       rp_UsernameFile = [], rp_PasswordEnv = [], rp_PasswordFile = [],
       rp_Credentials = \<lparr>cr_username = ''u'', cr_password = ''p''\<rparr>\<rparr>,
     tc_ProbeOpts := zero_opts\<lparr>po_ExpectedProxyConnectStatusCodes := Some [403]\<rparr>\<rparr>"

definition proxy_url :: URL where
  "proxy_url = zero_URL\<lparr>u_Scheme := ''http'', u_Host := ''p:80''\<rparr>"

definition status_resp :: "int \<Rightarrow> Response" where
  "status_resp n = \<lparr>rs_StatusCode = n, rs_Header = None, rs_TLS = None\<rparr>"

lemma proxy_url_parses: "mustProxyEndpoint (one_url proxy_url) s = Some proxy_url"
  by (simp add: mustProxyEndpoint_def one_url_def proxy_url_def zero_URL_def go_eval)

lemma proxy_url_scheme [simp]: "u_Scheme proxy_url = ''http''"
  by (simp add: proxy_url_def)

lemma proxied_starts: "ProxyProber_Probe (one_url proxy_url) wire_net (small_wire r b) proxied_target \<noteq> None"
  by (simp add: ProxyProber_Probe_def proxied_target_def proxy_url_parses)

lemmas small_run = dialProxyTunnel_def tunnel_setup_def tunnel_tls_def set_tunnel_deadline_def tunnel_connect_def
  connectReq_def setProxyAuthorization_def wire_net_def small_wire_def conn_Close_def status_resp_def fresh_conn_def


theorem ProxyProber_connections_witness:
  "mo_open (small_mon (snd (run_state (the (ProxyProber_Probe (one_url proxy_url) wire_net (small_wire (status_resp 200) []) proxied_target))
     (world0 [7])))) = {7}"
proof -
  let ?p = "ProxyProber_Probe (one_url proxy_url) wire_net (small_wire (status_resp 200) []) proxied_target"
  have p: "?p = Some (the ?p)" using proxied_starts by auto
  have "tc_ResolvedProxy proxied_target = Some (the (tc_ResolvedProxy proxied_target))" by (simp add: proxied_target_def)
  from ProxyProber_connections [OF small_wire_laws p this proxy_url_parses refl refl, of "world0 [7]"]
  show ?thesis by (simp add: small_mon_def)
qed

end
