(* ===== verification/Probe_TLS.thy ===== *)
theory Probe_TLS
  imports Probe_Proxy
begin

text \<open>
  \<^verbatim>\<open>internal/probe/tls_cert.go\<close>: the TLS certificate prober, directly and through a proxy, and the
  certificate fields of a result.
\<close>

definition tlsCertHostPort :: "string \<Rightarrow> string \<times> string" where
  "tlsCertHostPort address =
     (case SplitHostPort address of
        None \<Rightarrow> (address, JoinHostPort address ''443'')
      | Some (host, _) \<Rightarrow> (host, address))"

definition earliest_expiry :: "gotime \<Rightarrow> Certificate list \<Rightarrow> gotime" where
  "earliest_expiry e certs = foldl (\<lambda>e c. if ce_NotAfter c < e then ce_NotAfter c else e) e certs"

definition setTLSCertificateResult :: "ProbeResult \<Rightarrow> Certificate list \<Rightarrow> ProbeResult" where
  "setTLSCertificateResult r certs =
     (let r1 = r\<lparr>pr_TLSCertificates := map Some certs\<rparr> in
      case certs of
        [] \<Rightarrow> r1\<lparr>pr_CertObserved := False, pr_CertExpiry := 0\<rparr>
      | c # cs \<Rightarrow> r1\<lparr>pr_CertObserved := True, pr_CertExpiry := earliest_expiry (ce_NotAfter c) cs\<rparr>)"

text \<open>The common end of both paths: the handshake on the TLS connection, the certificates, the close.\<close>

definition tls_observe ::
  "('w, 'c) net_ops \<Rightarrow> ('w, 'c) wire_ops \<Rightarrow> gotime \<Rightarrow> 'c conn \<Rightarrow> ProbeResult \<Rightarrow> ('w, ProbeResult) io" where
  "tls_observe N X start tlsConn r1 = do {
     tlsStart \<leftarrow> op_Now N;
     herr \<leftarrow> wo_Handshake X tlsConn;
     tlsEnd \<leftarrow> op_Now N;
     let ps = (if pr_Phases r1 = None then Some [] else pr_Phases r1);
     let r2 = r1\<lparr>pr_Phases := addObservedPhase ps PhaseTLSHandshake tlsEnd tlsStart\<rparr>;
     stop \<leftarrow> op_Now N;
     let r3 = r2\<lparr>pr_Duration := time_Sub stop start\<rparr>;
     r \<leftarrow> (case herr of
          Some e \<Rightarrow> ret (r3\<lparr>pr_Error := Some (Errorf ''tls handshake: %s'' [FErr e])\<rparr>)
        | None \<Rightarrow> do {
            certs \<leftarrow> wo_PeerCertificates X tlsConn;
            ret (if certs = [] then
                   r3\<lparr>pr_Error := Some (Errorf ''tls handshake: no peer certificates presented'' [])\<rparr>
                 else setTLSCertificateResult (r3\<lparr>pr_Success := True\<rparr>) certs)
          });
     conn_Close N tlsConn;
     ret r
   }"

definition TLS_probeDirect ::
  "('w, 'c) net_ops \<Rightarrow> ('w, 'c) wire_ops \<Rightarrow> string \<Rightarrow> TLSConfig \<Rightarrow> resolver \<Rightarrow> ('w, ProbeResult) io" where
  "TLS_probeDirect N X addr tlsCfg rv = do {
     start \<leftarrow> op_Now N;
     (d, err) \<leftarrow> dialTCPWithSplitPhases N rv addr;
     let phases = addObservedPhase (addObservedPhase (Some []) PhaseDNSResolve (sd_dnsEnd d) (sd_dnsStart d))
           PhaseTCPConnect (sd_tcpEnd d) (sd_tcpStart d);
     let r1 = set_phases phases zero_result;
     (case err of
        Some e \<Rightarrow> do {
          stop \<leftarrow> op_Now N;
          ret (r1\<lparr>pr_Duration := time_Sub stop start, pr_Error := Some (Errorf ''tcp dial: %s'' [FErr e])\<rparr>)
        }
      | None \<Rightarrow>
          (case sd_conn d of
             None \<Rightarrow> ret (r1\<lparr>pr_Error := Some (SysErr ''nil pointer dereference'')\<rparr>)
           | Some conn \<Rightarrow> tls_observe N X start (TLSClient tlsCfg (Raw conn)) r1))
   }"

definition TLS_probeViaProxy ::
  "url_ops \<Rightarrow> ('w, 'c) net_ops \<Rightarrow> ('w, 'c) wire_ops \<Rightarrow> ResolvedProxyConfig \<Rightarrow> string \<Rightarrow> TLSConfig \<Rightarrow> resolver
     \<Rightarrow> ('w, ProbeResult) io option" where
  "TLS_probeViaProxy U N X proxyCfg addr tlsCfg rv =
     (case mustProxyEndpoint U (rp_Endpoint proxyCfg) of
        None \<Rightarrow> None
      | Some proxyURL \<Rightarrow> Some (do {
          start \<leftarrow> op_Now N;
          (tunnel, err) \<leftarrow> dialProxyTunnel N X proxyURL addr (rp_TLSSkipVerify proxyCfg)
            (fst (BasicAuthHeader (rp_Credentials proxyCfg))) rv;
          let r1 = set_tunnel_result (pt_phases tunnel) (pt_connectResp tunnel) zero_result;
          (case err of
             Some e \<Rightarrow> do {
               stop \<leftarrow> op_Now N;
               ret (r1\<lparr>pr_Duration := time_Sub stop start, pr_Error := Some e\<rparr>)
             }
           | None \<Rightarrow>
               (case pt_conn tunnel of
                  None \<Rightarrow> ret (r1\<lparr>pr_Error := Some (SysErr ''nil pointer dereference'')\<rparr>)
                | Some conn \<Rightarrow> tls_observe N X start (TLSClient tlsCfg conn) r1))
        }))"

definition TLSCertProber_Probe ::
  "url_ops \<Rightarrow> ('w, 'c) net_ops \<Rightarrow> ('w, 'c) wire_ops \<Rightarrow> TargetConfig \<Rightarrow> ('w, ProbeResult) io option" where
  "TLSCertProber_Probe U N X target =
     (case tlsCertHostPort (tc_Address target) of (host, addr) \<Rightarrow>
        let tlsCfg = \<lparr>tls_ServerName = host, tls_InsecureSkipVerify = po_TLSSkipVerify (tc_ProbeOpts target)\<rparr>;
            rv = resolverFor (tc_DNSResolver target)
        in case tc_ResolvedProxy target of
             Some rp \<Rightarrow> TLS_probeViaProxy U N X rp addr tlsCfg rv
           | None \<Rightarrow> Some (TLS_probeDirect N X addr tlsCfg rv))"

section \<open>Properties\<close>

lemma earliest_expiry_Min:
  "earliest_expiry e certs = Min (insert e (ce_NotAfter ` set certs))"
proof (induction certs arbitrary: e)
  case (Cons c certs)
  have "earliest_expiry e (c # certs) = earliest_expiry (min e (ce_NotAfter c)) certs"
    by (simp add: earliest_expiry_def min_def)
  also have "\<dots> = Min (insert (min e (ce_NotAfter c)) (ce_NotAfter ` set certs))" by (rule Cons.IH)
  also have "\<dots> = Min (insert e (insert (ce_NotAfter c) (ce_NotAfter ` set certs)))"
    by (cases "certs = []") (simp_all add: min.assoc)
  finally show ?case by simp
qed (simp add: earliest_expiry_def)

text \<open>
  The certificate fields of a result follow the presented chain: a certificate is observed
  exactly if the chain is not empty, and the expiry is then the earliest one of the chain, whatever
  the order of its certificates.
\<close>

lemma setTLSCertificateResult_earliest:
  "pr_CertObserved (setTLSCertificateResult r certs) = (certs \<noteq> [])
   \<and> (certs \<noteq> [] \<longrightarrow> pr_CertExpiry (setTLSCertificateResult r certs) = Min (ce_NotAfter ` set certs))
   \<and> pr_TLSCertificates (setTLSCertificateResult r certs) = map Some certs
   \<and> pr_Success (setTLSCertificateResult r certs) = pr_Success r"
  by (cases certs) (simp_all add: setTLSCertificateResult_def Let_def earliest_expiry_Min)

lemma set_cert_fields [simp]:
  "pr_Success (setTLSCertificateResult r certs) = pr_Success r"
  "pr_Error (setTLSCertificateResult r certs) = pr_Error r"
  "pr_Phases (setTLSCertificateResult r certs) = pr_Phases r"
  by (cases certs; simp add: setTLSCertificateResult_def Let_def)+

text \<open>What a TLS probe reports: a success is a presented chain, with the earliest expiry of it.\<close>

definition cert_result_ok :: "ProbeResult \<Rightarrow> bool" where
  "cert_result_ok r \<longleftrightarrow> result_ok r \<and> pr_CertObserved r = pr_Success r \<and>
     (pr_Success r \<longrightarrow> pr_TLSCertificates r \<noteq> [] \<and> None \<notin> set (pr_TLSCertificates r) \<and>
        pr_CertExpiry r = Min ((ce_NotAfter \<circ> the) ` set (pr_TLSCertificates r)))"

lemma cert_result_failed:
  "\<not> pr_Success r \<Longrightarrow> \<not> pr_CertObserved r \<Longrightarrow> phases_ok (pr_Phases r) \<Longrightarrow> cert_result_ok (r\<lparr>pr_Error := Some e\<rparr>)"
  by (simp add: cert_result_ok_def result_ok_def)

lemma cert_result_succeeded:
  assumes "pr_Error r = None" "phases_ok (pr_Phases r)" "certs \<noteq> []"
  shows "cert_result_ok (setTLSCertificateResult (r\<lparr>pr_Success := True\<rparr>) certs)"
  using assms setTLSCertificateResult_earliest [of "r\<lparr>pr_Success := True\<rparr>" certs]
  by (auto simp: cert_result_ok_def result_ok_def image_comp comp_def)

lemma tls_observe_ok:
  assumes "\<not> pr_Success r" "pr_Error r = None" "phases_ok (pr_Phases r)" "\<not> pr_CertObserved r"
  shows "always (tls_observe N X start c r) cert_result_ok"
proof -
  have "always (case herr of
          Some e \<Rightarrow> ret (r3\<lparr>pr_Error := Some (Errorf ''tls handshake: %s'' [FErr e])\<rparr>)
        | None \<Rightarrow> do {
            certs \<leftarrow> wo_PeerCertificates X c;
            ret (if certs = [] then
                   r3\<lparr>pr_Error := Some (Errorf ''tls handshake: no peer certificates presented'' [])\<rparr>
                 else setTLSCertificateResult (r3\<lparr>pr_Success := True\<rparr>) certs)
          }) cert_result_ok"
    if "\<not> pr_Success r3" "pr_Error r3 = None" "phases_ok (pr_Phases r3)" "\<not> pr_CertObserved r3" for herr r3
    using that by (cases herr) (auto intro!: always_bindT always_ret cert_result_failed cert_result_succeeded)
  note fin = always_bind [OF this]
  show ?thesis unfolding tls_observe_def
    by (rule always_bindT, rule always_bindT, rule always_bindT, rule always_Let, rule always_Let,
        rule always_bindT, rule always_Let, rule fin)
      (use assms in \<open>auto intro!: always_bindT always_ret\<close>)
qed

lemma cert_observed_simps [simp]:
  "pr_CertObserved zero_result = False" "pr_CertObserved (set_phases ps r) = pr_CertObserved r"
  "pr_CertObserved (set_tunnel_result ps resp r) = pr_CertObserved r"
  by (simp_all add: zero_result_def set_phases_def set_tunnel_result_def Let_def)

lemma TLS_probeDirect_ok: "always (TLS_probeDirect N X addr cfg rv) cert_result_ok"
  unfolding TLS_probeDirect_def
  by (intro always_bindT always_case_prod always_Let always_case_option always_ret tls_observe_ok)
    (auto intro!: cert_result_failed)

lemma TLS_probeViaProxy_ok: "TLS_probeViaProxy U N X rp addr cfg rv = Some m \<Longrightarrow> always m cert_result_ok"
  unfolding TLS_probeViaProxy_def
  by (auto simp: Let_def split: option.splits intro!: always_bindT always_bind [OF dialProxyTunnel_always]
      always_case_option always_ret tls_observe_ok cert_result_failed)

lemma TLSCertProber_ok: "TLSCertProber_Probe U N X t = Some m \<Longrightarrow> always m cert_result_ok"
  by (auto simp: TLSCertProber_Probe_def Let_def TLS_probeDirect_ok dest: TLS_probeViaProxy_ok
      split: prod.splits option.splits)

interpretation tls: partial_prober "TLSCertProber_Probe U N X"
  for U :: url_ops and N :: "('w, 'c) net_ops" and X :: "('w, 'c) wire_ops"
  by unfold_locales (auto intro: always_mono [OF TLSCertProber_ok] simp: cert_result_ok_def)

section \<open>What the verdict rests on\<close>

text \<open>
  A result fits an observation: it is a success exactly if the last handshake succeeded, on a connection
  with the TLS settings of the probe, and a chain that is not empty was read after it, which is then reported.
\<close>

definition cert_observed :: "TLSConfig \<Rightarrow> 'c observation \<Rightarrow> Certificate list \<Rightarrow> bool" where
  "cert_observed cfg B certs \<longleftrightarrow>
     (\<exists>c. ob_handshake B = Some (TLSClient cfg c, None)) \<and> ob_certs B = Some certs \<and> certs \<noteq> []"

definition cert_fits :: "TLSConfig \<Rightarrow> ProbeResult \<Rightarrow> 'c observation \<Rightarrow> bool" where
  "cert_fits cfg r B \<longleftrightarrow> (pr_Success r \<longleftrightarrow> (\<exists>certs. cert_observed cfg B certs))
     \<and> (\<forall>certs. cert_observed cfg B certs \<longrightarrow> pr_TLSCertificates r = map Some certs \<and> pr_CertObserved r
          \<and> pr_CertExpiry r = Min (ce_NotAfter ` set certs))"

lemma uncertified_fits: "uncertified ob w \<Longrightarrow> \<not> pr_Success r \<Longrightarrow> cert_fits cfg r (ob w)"
  by (simp add: cert_fits_def cert_observed_def uncertified_def)

lemma silent_known: "silent ob m \<Longrightarrow> triple (\<lambda>w. ob w = B) m (\<lambda>_ w. ob w = B)"
  by (simp add: silent_def triple_def)

lemma tls_observe_fits:
  assumes "observes N X ob" "\<not> pr_Success r"
  shows "triple (uncertified ob) (tls_observe N X start (TLSClient cfg c) r) (\<lambda>r w. cert_fits cfg r (ob w))"
proof -
  let ?c = "TLSClient cfg c"
  note now = triple_bind [OF silent_known [OF observesD(1) [OF assms(1)]]]
  have judged: "triple (\<lambda>w. ob w = B\<lparr>ob_handshake := Some (?c, herr), ob_certs := None\<rparr>)
      (case herr of
          Some e \<Rightarrow> ret (r3\<lparr>pr_Error := Some (Errorf ''tls handshake: %s'' [FErr e])\<rparr>)
        | None \<Rightarrow> do {
            certs \<leftarrow> wo_PeerCertificates X ?c;
            ret (if certs = [] then
                   r3\<lparr>pr_Error := Some (Errorf ''tls handshake: no peer certificates presented'' [])\<rparr>
                 else setTLSCertificateResult (r3\<lparr>pr_Success := True\<rparr>) certs)
          })
      (\<lambda>r w. cert_fits cfg r (ob w))" if "\<not> pr_Success r3" for herr r3 B
  proof (cases herr)
    case None
    show ?thesis unfolding None option.case
      by (rule triple_bind [OF observesD(12) [OF assms(1)]], rule triple_ret)
        (use that in \<open>auto simp: cert_fits_def cert_observed_def setTLSCertificateResult_earliest\<close>)
  qed (use that in \<open>auto simp: cert_fits_def cert_observed_def intro!: triple_ret\<close>)
  have close: "triple (\<lambda>w. cert_fits cfg r (ob w)) (conn_Close N ?c) (\<lambda>_ w. cert_fits cfg r (ob w))" for r
    unfolding conn_Close_def by (rule triple_keeps [OF keeps_silent [OF observesD(3) [OF assms(1)]]])
  have "triple (\<lambda>w. ob w = B) (tls_observe N X start ?c r) (\<lambda>r w. cert_fits cfg r (ob w))" for B
    unfolding tls_observe_def Let_def
    by (rule now, rule triple_bind [OF observesD(11) [OF assms(1)]], rule now, rule now, rule triple_bind [OF judged],
        use assms(2) in simp, rule triple_bind [OF close], rule triple_ret)
  then show ?thesis by (simp add: triple_def)
qed

lemma work_silent: "observes N X ob \<Longrightarrow> silent ob (work N rv a)"
  by (induction N rv a rule: work.induct) (auto intro!: silent_intro observesD)

lemma await_first_silent: "observes N X ob \<Longrightarrow> silent ob (await_first N rv k a b outs)"
  by (induction k arbitrary: a b outs) (auto intro!: silent_intro observesD work_silent)

lemma bg_step_silent: "observes N X ob \<Longrightarrow> silent ob (bg_step N rv g)"
  by (cases g) (auto simp: close_loser_def intro!: silent_intro observesD work_silent split: list.splits)

lemma meanwhile_silent:
  assumes "observes N X ob"
  shows "silent ob (meanwhile N rv bg)"
proof -
  have "silent ob (bg_moves N rv n g)" for n g
    by (induction n arbitrary: g) (auto intro!: silent_intro observesD [OF assms] bg_step_silent [OF assms])
  then show ?thesis unfolding meanwhile_def by (intro silent_intro)
qed

lemma dial_silent:
  assumes "observes N X ob"
  shows "silent ob (dialTCPWithSplitPhases N rv addr)"
proof -
  have loop: "silent ob (dial_loop N rv e ts)" for e ts
    by (induction ts arbitrary: e) (auto intro!: silent_intro observesD [OF assms])
  have "silent ob (dialTCPHappyEyeballs N rv ts)" for ts
    unfolding dialTCPHappyEyeballs_def dialTCPAddresses_def
    by (intro silent_intro loop await_first_silent [OF assms] observesD [OF assms])
  then show ?thesis unfolding dialTCPWithSplitPhases_def dial_timed_def
    by (intro silent_intro meanwhile_silent [OF assms] observesD [OF assms])
qed

lemma tls_end_fits:
  assumes "observes N X ob" "\<not> pr_Success r1" "\<And>stop e. \<not> pr_Success (f stop e)" "\<not> pr_Success r0"
  shows "triple (uncertified ob)
    (case err of
       Some e \<Rightarrow> do { stop \<leftarrow> op_Now N; ret (f stop e) }
     | None \<Rightarrow> (case conn of None \<Rightarrow> ret r0 | Some c \<Rightarrow> tls_observe N X start (TLSClient cfg (lay c)) r1))
    (\<lambda>r w. cert_fits cfg r (ob w))"
  using assms(2-4)
  by (intro triple_case_option tls_observe_fits [OF assms(1)] triple_ret
      triple_bind [OF triple_keeps [OF uncertified_calls(1) [OF assms(1)]]])
    (simp_all add: uncertified_fits)

lemma TLSCertProber_fits:
  assumes "observes N X ob" "TLSCertProber_Probe U N X t = Some m"
    and "cfg = \<lparr>tls_ServerName = fst (tlsCertHostPort (tc_Address t)), tls_InsecureSkipVerify = po_TLSSkipVerify (tc_ProbeOpts t)\<rparr>"
  shows "triple (uncertified ob) m (\<lambda>r w. cert_fits cfg r (ob w))"
proof -
  note keep = triple_keeps [OF keeps_observed(1)]
  have direct: "triple (uncertified ob) (TLS_probeDirect N X addr cfg rv) (\<lambda>r w. cert_fits cfg r (ob w))" for addr rv
    unfolding TLS_probeDirect_def
    by (rule triple_bind [OF keep [OF observesD(1) [OF assms(1)]]], rule triple_bind [OF keep [OF dial_silent [OF assms(1)]]],
        rule triple_case_prod, intro triple_Let, rule tls_end_fits [OF assms(1), where lay = Raw]) simp_all
  have proxied: "triple (uncertified ob) m (\<lambda>r w. cert_fits cfg r (ob w))"
    if "TLS_probeViaProxy U N X rp addr cfg rv = Some m" for rp addr rv
  proof -
    from that obtain u where "mustProxyEndpoint U (rp_Endpoint rp) = Some u"
      by (auto simp: TLS_probeViaProxy_def split: option.splits)
    with that show ?thesis unfolding TLS_probeViaProxy_def option.inject
      by (auto intro!: triple_bind [OF keep [OF observesD(1) [OF assms(1)]]]
          triple_bind [OF triple_keeps [OF dialProxyTunnel_keeps(1) [OF assms(1)]]] triple_case_prod triple_Let
          tls_end_fits [OF assms(1), where lay = "\<lambda>c. c"])
  qed
  obtain host addr where h: "tlsCertHostPort (tc_Address t) = (host, addr)" by fastforce
  show ?thesis using assms(2,3) direct proxied
    by (auto simp: TLSCertProber_Probe_def Let_def h split: option.splits)
qed

text \<open>
  C24: a TLS certificate probe, directly or through a proxy, succeeds exactly if the handshake with the
  target, with the server name of its address and the verification the target asks for, succeeded and
  the target then presented certificates. The chain is reported as a whole, and the expiry is the
  earliest one in it, whatever the order of the certificates; no certificate is reported by a probe that fails.
\<close>

theorem TLSCertProber_certificates:
  assumes "observes N X ob" and "TLSCertProber_Probe U N X t = Some m"
    and "ob_certs (ob w) = None" and "r = fst (run_state m w)" and "B = ob (snd (run_state m w))"
  shows "pr_CertObserved r = pr_Success r
    \<and> (pr_Success r \<longleftrightarrow> (\<exists>c certs. ob_handshake B = Some (TLSClient \<lparr>tls_ServerName = fst (tlsCertHostPort (tc_Address t)),
           tls_InsecureSkipVerify = po_TLSSkipVerify (tc_ProbeOpts t)\<rparr> c, None) \<and> ob_certs B = Some certs \<and> certs \<noteq> []))
    \<and> (pr_Success r \<longrightarrow> (\<exists>certs. ob_certs B = Some certs \<and> pr_TLSCertificates r = map Some certs
         \<and> pr_CertExpiry r = Min (ce_NotAfter ` set certs)))"
proof -
  have "pr_CertObserved r = pr_Success r"
    using alwaysD [OF TLSCertProber_ok [OF assms(2)], of w] assms(4) by (simp add: cert_result_ok_def)
  moreover note tripleD [OF TLSCertProber_fits [OF assms(1,2) refl], of w, folded assms(4,5)]
  ultimately show ?thesis using assms(3) by (auto simp: cert_fits_def cert_observed_def uncertified_def)
qed

section \<open>Connections\<close>

lemma open_silent:
  "silent mon m \<Longrightarrow> triple (\<lambda>w. mo_open (mon w) = S) m (\<lambda>_ w. mo_open (mon w) = S)"
  by (simp add: silent_def triple_def)

lemma tls_observe_closes:
  assumes "wire_laws N X mon" "raw c \<notin> S"
  shows "triple (\<lambda>w. mo_open (mon w) = insert (raw c) S) (tls_observe N X start c r) (\<lambda>_ w. mo_open (mon w) = S)"
proof -
  have close: "triple (\<lambda>w. mo_open (mon w) = insert (raw c) S) (conn_Close N c) (\<lambda>_ w. mo_open (mon w) = S)"
    using conn_lawsD(6) [OF wire_conn_laws [OF assms(1)], of "insert (raw c) S" "raw c"] assms(2)
    by (simp add: conn_Close_def)
  note step = triple_bind [OF open_silent]
  show ?thesis unfolding tls_observe_def Let_def
    by (rule step, rule wire_lawsD(1) [OF assms(1)], rule step, rule wire_lawsD(4) [OF assms(1)],
        rule step, rule wire_lawsD(1) [OF assms(1)], rule step, rule wire_lawsD(1) [OF assms(1)],
        rule step, intro silent_intro wire_lawsD(5) [OF assms(1)], rule triple_bind [OF close], rule triple_ret)
qed

lemma tls_end_closes:
  assumes "wire_laws N X mon" "(err = None) = (conn \<noteq> None)"
  shows "triple (holds (\<lambda>w. mo_open (mon w)) S (map_option (raw \<circ> lay) conn))
    (case err of
       Some e \<Rightarrow> do { stop \<leftarrow> op_Now N; ret (f stop e) }
     | None \<Rightarrow> (case conn of None \<Rightarrow> ret r0 | Some c \<Rightarrow> tls_observe N X start (TLSClient cfg (lay c)) r1))
    (\<lambda>_ w. mo_open (mon w) = S)"
proof (cases conn)
  case None
  with assms(2) obtain e where e: "err = Some e" by auto
  show ?thesis unfolding None e option.case
    by (rule triple_conseq [OF triple_bind [OF open_silent [OF wire_lawsD(1) [OF assms(1)]] triple_ret]])
      (auto simp: holds_def)
next
  case (Some c)
  with assms(2) have e: "err = None" by simp
  have "holds (\<lambda>w. mo_open (mon w)) S (map_option (raw \<circ> lay) conn)
      = (\<lambda>w. raw (lay c) \<notin> S \<and> mo_open (mon w) = insert (raw (lay c)) S)"
    by (simp add: Some holds_def fun_eq_iff)
  then show ?thesis unfolding Some e option.case
    using tls_observe_closes [OF assms(1), of "TLSClient cfg (lay c)" S start r1] by (auto intro!: triple_pure)
qed

text \<open>
  Through a proxy a TLS certificate probe leaves exactly the connections open that were open before, whether
  dialling, CONNECT or the handshake fails or the certificates are read.
\<close>

lemma TLS_probeViaProxy_closes:
  assumes "wire_laws N X mon" "TLS_probeViaProxy U N X rp addr cfg rv = Some m"
  shows "mo_open (mon (snd (run_state m w))) = mo_open (mon w)"
proof -
  obtain u where u: "mustProxyEndpoint U (rp_Endpoint rp) = Some u"
    using assms(2) by (auto simp: TLS_probeViaProxy_def split: option.splits)
  let ?a = "fst (BasicAuthHeader (rp_Credentials rp))" and ?M = "mon w"
  define A where "A = hostPortForURL u"
  have tun: "triple (tracks mon A ?M UNIV 0 {}) (dialProxyTunnel N X u addr (rp_TLSSkipVerify rp) ?a rv)
      (\<lambda>(t, e) w. (e = None) = (pt_conn t \<noteq> None) \<and> holds (\<lambda>w. mo_open (mon w)) (mo_open ?M) (map_option (raw \<circ> (\<lambda>c. c)) (pt_conn t)) w)"
    by (rule triple_conseq [OF triple_always [OF dialProxyTunnel_tracks [OF assms(1) _ A_def] dialProxyTunnel_always]])
      (auto simp: tracks_def tunnel_open_def holds_def split: option.splits)
  have "triple (tracks mon A ?M UNIV 0 {}) m (\<lambda>_ w. mo_open (mon w) = mo_open ?M)"
  proof -
    from assms(2) u have m: "m = do {
          start \<leftarrow> op_Now N;
          (tunnel, err) \<leftarrow> dialProxyTunnel N X u addr (rp_TLSSkipVerify rp) ?a rv;
          let r1 = set_tunnel_result (pt_phases tunnel) (pt_connectResp tunnel) zero_result;
          (case err of
             Some e \<Rightarrow> do {
               stop \<leftarrow> op_Now N;
               ret (r1\<lparr>pr_Duration := time_Sub stop start, pr_Error := Some e\<rparr>)
             }
           | None \<Rightarrow>
               (case pt_conn tunnel of
                  None \<Rightarrow> ret (r1\<lparr>pr_Error := Some (SysErr ''nil pointer dereference'')\<rparr>)
                | Some conn \<Rightarrow> tls_observe N X start (TLSClient cfg conn) r1))
        }" by (simp add: TLS_probeViaProxy_def)
    show ?thesis unfolding m
    proof (rule triple_bind [OF silent_tracks [OF wire_lawsD(1) [OF assms(1)]]], rule triple_bind [OF tun], goal_cases)
      case (1 start x)
      obtain tn e where x: "x = (tn, e)" by (cases x)
      show ?case unfolding x prod.case by (rule triple_pure, rule triple_Let, rule tls_end_closes [OF assms(1), where lay = "\<lambda>c. c"])
    qed
  qed
  from tripleD [OF this, of w] show ?thesis by (simp add: tracks_start)
qed

section \<open>Witnesses\<close>

lemma tls_starts: "TLSCertProber_Probe (one_url proxy_url) wire_net (small_wire r b) proxied_target \<noteq> None"
  by (simp add: TLSCertProber_Probe_def TLS_probeViaProxy_def proxied_target_def proxy_url_parses split: prod.splits)

theorem TLSCertProber_certificates_witness:
  "pr_CertExpiry (fst (run_state (the (TLSCertProber_Probe (one_url proxy_url) wire_net (small_wire (status_resp 200) []) proxied_target))
     (world0 []))) = 9"
proof -
  let ?p = "TLSCertProber_Probe (one_url proxy_url) wire_net (small_wire (status_resp 200) []) proxied_target"
  let ?r = "fst (run_state (the ?p) (world0 []))" and ?w = "snd (run_state (the ?p) (world0 []))"
  have p: "?p = Some (the ?p)" using tls_starts by auto
  have "pr_Success ?r \<and> ob_certs (small_obs ?w) = Some small_certs"
    by (simp add: TLSCertProber_Probe_def TLS_probeViaProxy_def tls_observe_def proxied_target_def proxy_url_parses
        set_tunnel_result_def Let_def small_run errif_def addObservedPhase_def small_obs_def small_certs_def
        IsZero_def set_phases_def tlsCertHostPort_def go_eval)
  moreover have "ob_certs (small_obs (world0 [])) = None" by (simp add: small_obs_def no_obs_def)
  note TLSCertProber_certificates [OF small_wire_observes p this refl refl]
  ultimately show ?thesis by (simp add: small_certs_def)
qed

end
