(* ===== verification/Probe_HTTP.thy ===== *)
theory Probe_HTTP
  imports Probe_TLS
begin

text \<open>
  The HTTP prober: \<^verbatim>\<open>internal/probe/http.go\<close>, \<^verbatim>\<open>http_trace.go\<close> and \<^verbatim>\<open>http_proxy_path.go\<close>. On the direct path
  \<^verbatim>\<open>http.Client.Do\<close> is a parameter (\<open>client_ops\<close>), with the events its trace callbacks report; the path
  through a proxy, with its redirects, is the program's own code and is modelled down to the calls on
  the connection.
\<close>

section \<open>Request bodies and redirects\<close>

definition defaultResponseBodyLimit :: int where "defaultResponseBodyLimit = 2 ^ 20"

text \<open>The slice of the pattern panics (\<open>None\<close>) beyond its length.\<close>

definition requestBodyReader :: "int \<Rightarrow> string option" where
  "requestBodyReader n =
     (if 0 \<le> n \<and> n \<le> MaxHTTPRequestBodyBytes then Some (replicate (nat n) CHR ''n'') else None)"

definition proxyRedirectLimit :: nat where "proxyRedirectLimit = 10"

definition isRedirect :: "int \<Rightarrow> bool" where
  "isRedirect code \<longleftrightarrow> code \<in> {301, 302, 303, 307, 308}"

text \<open>\<open>None\<close> is the result \<^verbatim>\<open>shouldFollow == false\<close>.\<close>

definition resolveRedirect :: "url_ops \<Rightarrow> URL \<Rightarrow> Response \<Rightarrow> URL res option" where
  "resolveRedirect U base resp =
     (let loc = header_Get (rs_Header resp) ''Location'' in
      if loc = [] then None
      else Some (case uo_Resolve U base loc of
          Inl e \<Rightarrow> Inl (Errorf ''parse Location %q: %s'' [FStr loc, FErr e])
        | Inr parsed \<Rightarrow>
            if u_Scheme parsed \<noteq> ''http'' \<and> u_Scheme parsed \<noteq> ''https''
            then Inl (Errorf ''unsupported redirect scheme %q'' [FStr (u_Scheme parsed)])
            else Inr parsed))"

definition stripRequestBodyHeaders :: "string gomap \<Rightarrow> string gomap" where
  "stripRequestBodyHeaders headers =
     (if slen headers = 0 then headers
      else Some (filter (\<lambda>(k, v). CanonicalHeaderKey k \<notin> {''Content-Type'', ''Content-Length''}) (elems headers)))"

text \<open>
  The body is the one of \<^verbatim>\<open>requestBodyReader\<close>, which has not panicked on the same length when the first
  request was made.
\<close>

definition redirectedRequest ::
  "string \<Rightarrow> int \<Rightarrow> string gomap \<Rightarrow> int \<Rightarrow> string \<times> string option \<times> string gomap" where
  "redirectedRequest currentMethod statusCode initialHeaders requestBodyBytes =
     (if statusCode \<in> {301, 302, 303} then
        if currentMethod \<noteq> ''GET'' \<and> currentMethod \<noteq> ''HEAD''
        then (''GET'', None, stripRequestBodyHeaders initialHeaders)
        else (currentMethod, None, stripRequestBodyHeaders initialHeaders)
      else if statusCode \<in> {307, 308} then
        if currentMethod = ''POST'' \<and> requestBodyBytes > 0
        then (currentMethod, requestBodyReader requestBodyBytes, initialHeaders)
        else if currentMethod = ''GET'' \<or> currentMethod = ''HEAD''
        then (currentMethod, None, stripRequestBodyHeaders initialHeaders)
        else (currentMethod, None, initialHeaders)
      else (currentMethod, None, initialHeaders))"

section \<open>Phases of the direct path\<close>

record httpTraceTimings =
  ht_dnsStart :: gotime
  ht_dnsEnd :: gotime
  ht_connectStart :: gotime
  ht_connectEnd :: gotime
  ht_tlsStart :: gotime
  ht_tlsEnd :: gotime
  ht_wroteRequest :: gotime
  ht_gotFirstByte :: gotime

datatype trace_event = DNSStart | DNSDone | ConnectStart | ConnectDone | TLSHandshakeStart | TLSHandshakeDone
  | WroteRequest | GotFirstResponseByte

definition zero_timings :: httpTraceTimings where
  "zero_timings = \<lparr>ht_dnsStart = 0, ht_dnsEnd = 0, ht_connectStart = 0, ht_connectEnd = 0, ht_tlsStart = 0,
     ht_tlsEnd = 0, ht_wroteRequest = 0, ht_gotFirstByte = 0\<rparr>"

text \<open>The callbacks of \<^verbatim>\<open>trace\<close>: each sets its field to the time of the event, under the mutex.\<close>

fun trace_set :: "httpTraceTimings \<Rightarrow> trace_event \<times> gotime \<Rightarrow> httpTraceTimings" where
  "trace_set t (DNSStart, now) = t\<lparr>ht_dnsStart := now\<rparr>"
| "trace_set t (DNSDone, now) = t\<lparr>ht_dnsEnd := now\<rparr>"
| "trace_set t (ConnectStart, now) = t\<lparr>ht_connectStart := now\<rparr>"
| "trace_set t (ConnectDone, now) = t\<lparr>ht_connectEnd := now\<rparr>"
| "trace_set t (TLSHandshakeStart, now) = t\<lparr>ht_tlsStart := now\<rparr>"
| "trace_set t (TLSHandshakeDone, now) = t\<lparr>ht_tlsEnd := now\<rparr>"
| "trace_set t (WroteRequest, now) = t\<lparr>ht_wroteRequest := now\<rparr>"
| "trace_set t (GotFirstResponseByte, now) = t\<lparr>ht_gotFirstByte := now\<rparr>"

text \<open>The timings after the events so far.\<close>

definition snapshot :: "(trace_event \<times> gotime) list \<Rightarrow> httpTraceTimings" where
  "snapshot events = foldl trace_set zero_timings events"

definition laterOf :: "gotime \<Rightarrow> gotime \<Rightarrow> gotime" where
  "laterOf a b = (if a > b then a else b)"

definition buildPhases :: "gotime \<Rightarrow> gotime \<Rightarrow> gotime \<Rightarrow> gotime \<Rightarrow> gotime \<Rightarrow> gotime \<Rightarrow> gotime \<Rightarrow> gotime \<Rightarrow> gotime
    \<Rightarrow> duration gomap" where
  "buildPhases dnsStart dnsEnd connectStart connectEnd tlsStart tlsEnd wroteRequest gotFirstByte transferEnd =
     (let requestReady = laterOf tlsEnd connectEnd;
          ttfbStart = (if IsZero wroteRequest then requestReady else wroteRequest);
          p1 = addObservedPhase (Some []) PhaseDNSResolve dnsEnd dnsStart;
          p2 = addObservedPhase p1 PhaseTCPConnect connectEnd connectStart;
          p3 = addObservedPhase p2 PhaseTLSHandshake tlsEnd tlsStart;
          p4 = addObservedPhase p3 PhaseRequestWrite wroteRequest requestReady;
          p5 = addObservedPhase p4 PhaseTTFB gotFirstByte ttfbStart
      in addObservedPhase p5 PhaseTransfer transferEnd gotFirstByte)"

definition buildPhasesFromSnapshot :: "httpTraceTimings \<Rightarrow> gotime \<Rightarrow> duration gomap" where
  "buildPhasesFromSnapshot snap transferEnd =
     buildPhases (ht_dnsStart snap) (ht_dnsEnd snap) (ht_connectStart snap) (ht_connectEnd snap) (ht_tlsStart snap)
       (ht_tlsEnd snap) (ht_wroteRequest snap) (ht_gotFirstByte snap) transferEnd"

section \<open>The prober and its direct path\<close>

record HTTPProber =
  hp_tlsConfig :: TLSConfig
  hp_tlsSkipVerify :: bool
  hp_followRedirects :: bool
  hp_proxyURL :: "URL option"
  hp_proxyTLSSkipVerify :: bool
  hp_proxyAuthHeader :: string

text \<open>\<open>None\<close> is the panic of \<^verbatim>\<open>mustProxyEndpoint\<close>.\<close>

definition NewHTTPProber :: "url_ops \<Rightarrow> bool \<Rightarrow> bool \<Rightarrow> ResolvedProxyConfig option \<Rightarrow> HTTPProber option" where
  "NewHTTPProber U tlsSkipVerify followRedirects proxyCfg =
     (let tlsCfg = \<lparr>tls_ServerName = [], tls_InsecureSkipVerify = tlsSkipVerify\<rparr> in
      case proxyCfg of
        None \<Rightarrow> Some \<lparr>hp_tlsConfig = tlsCfg, hp_tlsSkipVerify = tlsSkipVerify, hp_followRedirects = followRedirects,
          hp_proxyURL = None, hp_proxyTLSSkipVerify = False, hp_proxyAuthHeader = []\<rparr>
      | Some rp \<Rightarrow>
          (case mustProxyEndpoint U (rp_Endpoint rp) of
             None \<Rightarrow> None
           | Some u \<Rightarrow> Some \<lparr>hp_tlsConfig = tlsCfg, hp_tlsSkipVerify = tlsSkipVerify, hp_followRedirects = followRedirects,
               hp_proxyURL = Some u, hp_proxyTLSSkipVerify = rp_TLSSkipVerify rp,
               hp_proxyAuthHeader = (case BasicAuthHeader (rp_Credentials rp) of (h, ok) \<Rightarrow> if ok then h else [])\<rparr>))"

text \<open>
  A client of \<^verbatim>\<open>net/http\<close> with the settings of \<^verbatim>\<open>newClient\<close> (keep-alives are disabled and there is no timeout),
  and its calls; \<open>co_Events\<close> are the trace events of the request so far, also those that come after
  \<^verbatim>\<open>Do\<close> has returned.
\<close>

record http_client =
  cl_TLSClientConfig :: TLSConfig
  cl_Resolver :: resolver
  cl_FollowRedirects :: bool

record ('w, 'b) client_ops =
  co_Do :: "http_client \<Rightarrow> Request \<Rightarrow> ('w, goerr + 'b \<times> Response) io"
  co_Events :: "('w, (trace_event \<times> gotime) list) io"
  co_ReadBody :: "'b \<Rightarrow> nat \<Rightarrow> ('w, string \<times> goerr option) io"
  co_CloseBody :: "'b \<Rightarrow> ('w, unit) io"

definition newClient :: "('a) HTTPProber_scheme \<Rightarrow> resolver \<Rightarrow> http_client" where
  "newClient p rv = \<lparr>cl_TLSClientConfig = hp_tlsConfig p, cl_Resolver = rv, cl_FollowRedirects = hp_followRedirects p\<rparr>"

definition default_method :: "ProbeOptions \<Rightarrow> string" where
  "default_method opts = (if po_Method opts = [] then ''GET'' else po_Method opts)"

text \<open>\<open>None\<close> is a panic; \<open>Some None\<close> is a request without a body.\<close>

definition request_body :: "ProbeOptions \<Rightarrow> string option option" where
  "request_body opts =
     (if po_RequestBodyBytes opts > 0 then map_option Some (requestBodyReader (po_RequestBodyBytes opts)) else Some None)"

definition response_fields :: "Response \<Rightarrow> ProbeResult \<Rightarrow> ProbeResult" where
  "response_fields resp r =
     (let r1 = r\<lparr>pr_HTTPResponseReceived := True, pr_StatusCode := rs_StatusCode resp\<rparr> in
      case rs_TLS resp of
        None \<Rightarrow> r1
      | Some certs \<Rightarrow> if certs = [] then r1 else setTLSCertificateResult r1 certs)"

definition effectiveLimit :: "ProbeOptions \<Rightarrow> int" where
  "effectiveLimit opts =
     (if po_ResponseBodyLimitBytes opts \<le> 0 then defaultResponseBodyLimit else po_ResponseBodyLimitBytes opts)"

definition status_verdict :: "int list \<Rightarrow> int \<Rightarrow> ProbeResult \<Rightarrow> ProbeResult" where
  "status_verdict expected status r =
     (if expected \<noteq> [] then
        if status \<in> set expected then r\<lparr>pr_Success := True\<rparr>
        else r\<lparr>pr_Error := Some (Errorf ''unexpected status code'' [])\<rparr>
      else r\<lparr>pr_Success := True\<rparr>)"

text \<open>
  The end of both paths: the body is read up to one byte more than the limit. \<^verbatim>\<open>effectiveLimit+1\<close> wraps,
  and \<open>phases\<close> builds the phases for the end of the transfer.
\<close>

definition read_and_judge ::
  "('w, 'c) net_ops \<Rightarrow> (nat \<Rightarrow> ('w, string \<times> goerr option) io) \<Rightarrow> (gotime \<Rightarrow> ('w, duration gomap) io) \<Rightarrow> gotime
     \<Rightarrow> ProbeOptions \<Rightarrow> Response \<Rightarrow> ProbeResult \<Rightarrow> ('w, ProbeResult) io" where
  "read_and_judge N read phases start opts resp r = do {
     (bs, err) \<leftarrow> read_limited read (nat (int64 (effectiveLimit opts + 1)));
     transferEnd \<leftarrow> op_Now N;
     ps \<leftarrow> phases transferEnd;
     let r1 = r\<lparr>pr_Duration := time_Sub transferEnd start, pr_Phases := ps\<rparr>;
     ret (case err of
            Some e \<Rightarrow> r1\<lparr>pr_Error := Some (Errorf ''reading response body: %s'' [FErr e])\<rparr>
          | None \<Rightarrow> status_verdict (elems (po_ExpectedStatusCodes opts)) (rs_StatusCode resp)
              (r1\<lparr>pr_HTTPTruncationEvaluated := True,
                  pr_HTTPResponseTruncated := (int (length bs) > effectiveLimit opts)\<rparr>))
   }"

definition direct_phases :: "('w, 'b) client_ops \<Rightarrow> gotime \<Rightarrow> ('w, duration gomap) io" where
  "direct_phases C transferEnd = do { ev \<leftarrow> co_Events C; ret (buildPhasesFromSnapshot (snapshot ev) transferEnd) }"

definition direct_request :: "ProbeOptions \<Rightarrow> Request \<Rightarrow> Request" where
  "direct_request opts req =
     (let h = set_headers (rq_Header req) (po_Headers opts) in
      req\<lparr>rq_Header :=
        (if po_RequestBodyBytes opts > 0 \<and> header_Get h ''Content-Type'' = []
         then header_Set h ''Content-Type'' ''application/octet-stream'' else h)\<rparr>)"

definition HTTP_probeDirect ::
  "url_ops \<Rightarrow> ('w, 'c) net_ops \<Rightarrow> ('w, 'b) client_ops \<Rightarrow> HTTPProber \<Rightarrow> TargetConfig \<Rightarrow> ('w, ProbeResult) io option" where
  "HTTP_probeDirect U N C p target =
     (let opts = tc_ProbeOpts target in
      case request_body opts of
        None \<Rightarrow> None
      | Some body \<Rightarrow> Some
          (case NewRequest U (default_method opts) (tc_Address target) body of
             Inl e \<Rightarrow> ret (zero_result\<lparr>pr_Error := Some e\<rparr>)
           | Inr req \<Rightarrow> do {
               start \<leftarrow> op_Now N;
               res \<leftarrow> co_Do C (newClient p (resolverFor (tc_DNSResolver target))) (direct_request opts req);
               (case res of
                  Inl e \<Rightarrow> do {
                    stop \<leftarrow> op_Now N;
                    ps \<leftarrow> direct_phases C 0;
                    ret (zero_result\<lparr>pr_Duration := time_Sub stop start, pr_Error := Some e, pr_Phases := ps\<rparr>)
                  }
                | Inr (rbody, resp) \<Rightarrow> do {
                    r \<leftarrow> read_and_judge N (co_ReadBody C rbody) (direct_phases C) start opts resp
                      (response_fields resp zero_result);
                    co_CloseBody C rbody;
                    ret r
                  })
             }))"

section \<open>One exchange through a proxy\<close>

record proxyPhaseTrace =
  tr_phases :: "duration gomap"
  tr_setupEnd :: gotime
  tr_connectResp :: proxyConnectResponse
  tr_targetTLS :: "Certificate list option"

definition hostPortForTargetURL :: "URL \<Rightarrow> string" where
  "hostPortForTargetURL u =
     JoinHostPort (Hostname u)
       (if Port u = [] then if u_Scheme u = ''https'' then ''443'' else ''80'' else Port u)"

definition target_tls :: "URL \<Rightarrow> bool \<Rightarrow> TLSConfig" where
  "target_tls targetURL skipVerify =
     \<lparr>tls_ServerName = (case SplitHostPort (hostPortForTargetURL targetURL) of Some (h, _) \<Rightarrow> h | None \<Rightarrow> Hostname targetURL),
      tls_InsecureSkipVerify = skipVerify\<rparr>"

definition setupProxyTLSConn ::
  "('w, 'c) net_ops \<Rightarrow> ('w, 'c) wire_ops \<Rightarrow> URL \<Rightarrow> URL \<Rightarrow> bool \<Rightarrow> bool \<Rightarrow> string \<Rightarrow> resolver
     \<Rightarrow> ('w, 'c conn option \<times> proxyPhaseTrace \<times> goerr option) io" where
  "setupProxyTLSConn N X proxyURL targetURL proxySkip targetSkip auth rv = do {
     (tunnel, err) \<leftarrow> dialProxyTunnel N X proxyURL (hostPortForTargetURL targetURL) proxySkip auth rv;
     let trace = \<lparr>tr_phases = pt_phases tunnel, tr_setupEnd = 0, tr_connectResp = pt_connectResp tunnel, tr_targetTLS = None\<rparr>;
     (case pt_conn tunnel of
        None \<Rightarrow> ret (None, trace, Some (case err of Some e \<Rightarrow> e | None \<Rightarrow> SysErr ''nil pointer dereference''))
      | Some conn \<Rightarrow> do {
          _ \<leftarrow> wo_SetDeadline X conn None;
          let tlsConn = TLSClient (target_tls targetURL targetSkip) conn;
          tlsStart \<leftarrow> op_Now N;
          herr \<leftarrow> wo_Handshake X tlsConn;
          tlsEnd \<leftarrow> op_Now N;
          let trace1 = trace\<lparr>tr_phases := addObservedPhase (tr_phases trace) PhaseTLSHandshake tlsEnd tlsStart\<rparr>;
          (case herr of
             Some e \<Rightarrow> do {
               conn_Close N conn;
               ret (None, trace1, Some (Errorf ''tls handshake: %s'' [FErr e]))
             }
           | None \<Rightarrow> do {
               certs \<leftarrow> wo_PeerCertificates X tlsConn;
               ret (Some tlsConn, trace1\<lparr>tr_setupEnd := tlsEnd, tr_targetTLS := Some certs\<rparr>, None)
             })
        })
   }"

definition setupProxyPlainConn ::
  "('w, 'c) net_ops \<Rightarrow> ('w, 'c) wire_ops \<Rightarrow> URL \<Rightarrow> bool \<Rightarrow> resolver
     \<Rightarrow> ('w, 'c conn option \<times> proxyPhaseTrace \<times> goerr option) io" where
  "setupProxyPlainConn N X proxyURL skipVerify rv = do {
     dialStart \<leftarrow> op_Now N;
     dialed \<leftarrow> op_Dial N rv (hostPortForURL proxyURL);
     dialEnd \<leftarrow> op_Now N;
     let trace = \<lparr>tr_phases = addObservedPhase (Some []) PhaseProxyDial dialEnd dialStart, tr_setupEnd = 0,
           tr_connectResp = zero_connectResp, tr_targetTLS = None\<rparr>;
     (case dialed of
        Inl e \<Rightarrow> ret (None, trace, Some (Errorf ''proxy dial: %s'' [FErr e]))
      | Inr c \<Rightarrow>
          if u_Scheme proxyURL = ''https'' then do {
            let host = (case SplitHostPort (hostPortForURL proxyURL) of Some (h, _) \<Rightarrow> h | None \<Rightarrow> Hostname proxyURL);
            let tlsConn = TLSClient \<lparr>tls_ServerName = host, tls_InsecureSkipVerify = skipVerify\<rparr> (Raw c);
            tlsStart \<leftarrow> op_Now N;
            herr \<leftarrow> wo_Handshake X tlsConn;
            tlsEnd \<leftarrow> op_Now N;
            let trace1 = trace\<lparr>tr_phases := addObservedPhase (tr_phases trace) PhaseProxyTLS tlsEnd tlsStart,
                  tr_setupEnd := dialEnd\<rparr>;
            (case herr of
               Some e \<Rightarrow> do {
                 conn_Close N (Raw c);
                 ret (None, trace1, Some (Errorf ''proxy tls handshake: %s'' [FErr e]))
               }
             | None \<Rightarrow> ret (Some tlsConn, trace1\<lparr>tr_setupEnd := tlsEnd\<rparr>, None))
          }
          else ret (Some (Raw c), trace\<lparr>tr_setupEnd := dialEnd\<rparr>, None))
   }"

definition setupProxyHTTPConn ::
  "('w, 'c) net_ops \<Rightarrow> ('w, 'c) wire_ops \<Rightarrow> URL \<Rightarrow> URL \<Rightarrow> bool \<Rightarrow> bool \<Rightarrow> string \<Rightarrow> resolver
     \<Rightarrow> ('w, 'c conn option \<times> proxyPhaseTrace \<times> goerr option) io" where
  "setupProxyHTTPConn N X proxyURL targetURL proxySkip targetSkip auth rv =
     (if u_Scheme targetURL = ''https'' then setupProxyTLSConn N X proxyURL targetURL proxySkip targetSkip auth rv
      else if u_Scheme targetURL = ''http'' then setupProxyPlainConn N X proxyURL proxySkip rv
      else ret (None, \<lparr>tr_phases = None, tr_setupEnd = 0, tr_connectResp = zero_connectResp, tr_targetTLS = None\<rparr>,
        Some (Errorf ''unsupported target URL scheme %q for proxy path'' [FStr (u_Scheme targetURL)])))"

text \<open>
  \<^verbatim>\<open>firstByteReader.Read\<close> on the reads that \<^verbatim>\<open>http.ReadResponse\<close> makes, each with its number of bytes and
  the instant after it.
\<close>

definition firstByteReader_Read :: "gotime \<Rightarrow> nat \<times> gotime \<Rightarrow> gotime" where
  "firstByteReader_Read firstByteTime rd =
     (case rd of (n, now) \<Rightarrow> if n > 0 \<and> IsZero firstByteTime then now else firstByteTime)"

definition buildProxyPhases :: "duration gomap \<Rightarrow> gotime \<Rightarrow> gotime \<Rightarrow> gotime \<Rightarrow> gotime \<Rightarrow> duration gomap" where
  "buildProxyPhases phases setupEnd wroteRequest gotFirstByte transferEnd =
     (let p0 = (if phases = None then Some [] else phases);
          p1 = addObservedPhase p0 PhaseRequestWrite wroteRequest setupEnd;
          p2 = addObservedPhase p1 PhaseTTFB gotFirstByte wroteRequest
      in addObservedPhase p2 PhaseTransfer transferEnd gotFirstByte)"

text \<open>A response of an exchange comes with the connection that closing its body closes (\<^verbatim>\<open>connBackedBody\<close>).\<close>

record 'c proxyHTTPExchangeResult =
  ex_resp :: "(Response \<times> 'c conn) option"
  ex_phases :: "duration gomap"
  ex_setupEnd :: gotime
  ex_wroteRequest :: gotime
  ex_gotFirstByte :: gotime
  ex_connectResp :: proxyConnectResponse
  ex_err :: "goerr option"

definition connBackedBody_Close :: "('w, 'c) net_ops \<Rightarrow> 'c conn \<Rightarrow> ('w, unit) io" where
  "connBackedBody_Close N conn = conn_Close N conn"

definition proxy_request :: "string gomap \<Rightarrow> URL \<Rightarrow> string \<Rightarrow> Request \<Rightarrow> Request" where
  "proxy_request headers targetURL auth req =
     (let req1 = req\<lparr>rq_Header := set_headers (rq_Header req) headers, rq_Close := True\<rparr> in
      if u_Scheme targetURL = ''http'' then setProxyAuthorization req1 auth else req1)"

text \<open>The part of \<^verbatim>\<open>executeProxyHTTPExchange\<close> under the deferred close.\<close>

definition exchange_on ::
  "url_ops \<Rightarrow> ('w, 'c) net_ops \<Rightarrow> ('w, 'c) wire_ops \<Rightarrow> URL \<Rightarrow> string \<Rightarrow> string gomap \<Rightarrow> string option \<Rightarrow> string
     \<Rightarrow> proxyPhaseTrace \<Rightarrow> 'c conn \<Rightarrow> 'c proxyHTTPExchangeResult \<Rightarrow> ('w, 'c proxyHTTPExchangeResult) io" where
  "exchange_on U N X targetURL method headers body auth trace conn r0 = do {
     deadline \<leftarrow> wo_Deadline X;
     _ \<leftarrow> (case deadline of None \<Rightarrow> ret None | Some d \<Rightarrow> wo_SetDeadline X conn (Some d));
     (case NewRequest U method (uo_String U targetURL) body of
        Inl e \<Rightarrow> ret (r0\<lparr>ex_err := Some (Errorf ''creating request: %s'' [FErr e])\<rparr>)
      | Inr req0 \<Rightarrow> do {
          let req = proxy_request headers targetURL auth req0;
          werr \<leftarrow> wo_Write X (u_Scheme targetURL = ''http'') req conn;
          wroteRequest \<leftarrow> op_Now N;
          let r1 = r0\<lparr>ex_wroteRequest := wroteRequest,
                ex_phases := addObservedPhase (ex_phases r0) PhaseRequestWrite wroteRequest (tr_setupEnd trace)\<rparr>;
          (case werr of
             Some e \<Rightarrow> ret (r1\<lparr>ex_err := Some (Errorf ''writing request: %s'' [FErr e])\<rparr>)
           | None \<Rightarrow> do {
               (resp, reads) \<leftarrow> wo_ReadResponse X req conn;
               let gotFirstByte = foldl firstByteReader_Read 0 reads;
               let r2 = r1\<lparr>ex_gotFirstByte := gotFirstByte,
                     ex_phases := addObservedPhase (ex_phases r1) PhaseTTFB gotFirstByte wroteRequest\<rparr>;
               ret (case resp of
                      Inl e \<Rightarrow> r2\<lparr>ex_err := Some (Errorf ''reading response: %s'' [FErr e])\<rparr>
                    | Inr rs \<Rightarrow> r2\<lparr>ex_resp := Some
                        (case tr_targetTLS trace of None \<Rightarrow> rs | Some certs \<Rightarrow> rs\<lparr>rs_TLS := Some certs\<rparr>, conn)\<rparr>)
             })
        })
   }"

definition executeProxyHTTPExchange ::
  "url_ops \<Rightarrow> ('w, 'c) net_ops \<Rightarrow> ('w, 'c) wire_ops \<Rightarrow> URL \<Rightarrow> URL \<Rightarrow> string \<Rightarrow> string gomap \<Rightarrow> string option \<Rightarrow> bool
     \<Rightarrow> bool \<Rightarrow> string \<Rightarrow> resolver \<Rightarrow> ('w, 'c proxyHTTPExchangeResult) io" where
  "executeProxyHTTPExchange U N X proxyURL targetURL method headers body proxySkip targetSkip auth rv = do {
     (oconn, trace, err) \<leftarrow> setupProxyHTTPConn N X proxyURL targetURL proxySkip targetSkip auth rv;
     let r0 = \<lparr>ex_resp = None, ex_phases = tr_phases trace, ex_setupEnd = tr_setupEnd trace, ex_wroteRequest = 0,
           ex_gotFirstByte = 0, ex_connectResp = tr_connectResp trace, ex_err = err\<rparr>;
     (case oconn of
        None \<Rightarrow> ret r0
      | Some conn \<Rightarrow> do {
          r \<leftarrow> exchange_on U N X targetURL method headers body auth trace conn r0;
          (if ex_resp r = None then conn_Close N conn else ret ());
          ret r
        })
   }"

section \<open>The path through a proxy\<close>

text \<open>
  The loop over redirects, which the HTTP and the HTTP body prober share; \<open>k\<close> is \<^verbatim>\<open>proxyRedirectLimit-1-hop\<close>
  and \<open>seen\<close> the first CONNECT response observed. The body of a response that is followed is closed
  before the redirect is judged.
\<close>

datatype 'c hop_end =
    Hop_failed "'c proxyHTTPExchangeResult" goerr
  | Hop_bad_redirect goerr
  | Hop_limit "'c proxyHTTPExchangeResult"
  | Hop_final "'c proxyHTTPExchangeResult" Response "'c conn"

definition first_connect :: "proxyConnectResponse \<Rightarrow> proxyConnectResponse \<Rightarrow> proxyConnectResponse" where
  "first_connect seen resp = (if pc_Observed resp \<and> \<not> pc_Observed seen then resp else seen)"

fun redirect_loop ::
  "url_ops \<Rightarrow> ('w, 'c) net_ops \<Rightarrow> ('w, 'c) wire_ops \<Rightarrow> ('a) HTTPProber_scheme \<Rightarrow> URL \<Rightarrow> resolver \<Rightarrow> string gomap \<Rightarrow> int
     \<Rightarrow> nat \<Rightarrow> URL \<Rightarrow> string \<Rightarrow> string gomap \<Rightarrow> string option \<Rightarrow> proxyConnectResponse
     \<Rightarrow> ('w, proxyConnectResponse \<times> 'c hop_end) io" where
  "redirect_loop U N X p proxyURL rv headers bodyBytes k currentURL method currentHeaders body seen = do {
     ex \<leftarrow> executeProxyHTTPExchange U N X proxyURL currentURL method currentHeaders body
       (hp_proxyTLSSkipVerify p) (hp_tlsSkipVerify p) (hp_proxyAuthHeader p) rv;
     let seen' = first_connect seen (ex_connectResp ex);
     (case ex_resp ex of
        None \<Rightarrow> ret (seen', Hop_failed ex (case ex_err ex of Some e \<Rightarrow> e | None \<Rightarrow> SysErr ''nil pointer dereference''))
      | Some (resp, conn) \<Rightarrow>
          if \<not> hp_followRedirects p \<or> \<not> isRedirect (rs_StatusCode resp) then ret (seen', Hop_final ex resp conn)
          else (case resolveRedirect U currentURL resp of
             None \<Rightarrow> ret (seen', Hop_final ex resp conn)
           | Some nxt \<Rightarrow> do {
               connBackedBody_Close N conn;
               (case nxt of
                  Inl e \<Rightarrow> ret (seen', Hop_bad_redirect e)
                | Inr u \<Rightarrow>
                    (case k of
                       0 \<Rightarrow> ret (seen', Hop_limit ex)
                     | Suc k' \<Rightarrow>
                         (case redirectedRequest method (rs_StatusCode resp) headers bodyBytes of (method', body', headers') \<Rightarrow>
                            redirect_loop U N X p proxyURL rv headers bodyBytes k' u method' headers' body' seen')))
             }))
   }"

declare redirect_loop.simps [simp del]

definition connect_fields :: "proxyConnectResponse \<Rightarrow> ProbeResult \<Rightarrow> ProbeResult" where
  "connect_fields seen r =
     (if pc_Observed seen
      then r\<lparr>pr_ProxyConnectResponseReceived := True, pr_ProxyConnectStatusCode := pc_StatusCode seen\<rparr> else r)"

definition exchange_phases :: "'c proxyHTTPExchangeResult \<Rightarrow> gotime \<Rightarrow> duration gomap" where
  "exchange_phases ex transferEnd =
     buildProxyPhases (ex_phases ex) (ex_setupEnd ex) (ex_wroteRequest ex) (ex_gotFirstByte ex) transferEnd"

text \<open>The headers of the first request: a content type is added for a body, unless that very key has a value.\<close>

definition proxy_headers :: "ProbeOptions \<Rightarrow> string gomap" where
  "proxy_headers opts =
     (if po_RequestBodyBytes opts > 0 \<and> (case mget (po_Headers opts) ''Content-Type'' of None \<Rightarrow> True | Some v \<Rightarrow> v = [])
      then mput (po_Headers opts) ''Content-Type'' ''application/octet-stream'' else po_Headers opts)"

definition proxy_result ::
  "('w, 'c) net_ops \<Rightarrow> ('w, 'c) wire_ops \<Rightarrow> gotime \<Rightarrow> ProbeOptions \<Rightarrow> 'c hop_end \<Rightarrow> ProbeResult \<Rightarrow> ('w, ProbeResult) io" where
  "proxy_result N X start opts h r =
     (case h of
        Hop_failed ex e \<Rightarrow> do {
          stop \<leftarrow> op_Now N;
          ret (r\<lparr>pr_Duration := time_Sub stop start, pr_Error := Some e, pr_Phases := exchange_phases ex 0\<rparr>)
        }
      | Hop_bad_redirect e \<Rightarrow> do {
          stop \<leftarrow> op_Now N;
          ret (r\<lparr>pr_Duration := time_Sub stop start, pr_Error := Some (Errorf ''following redirect: %s'' [FErr e])\<rparr>)
        }
      | Hop_limit ex \<Rightarrow> do {
          stop \<leftarrow> op_Now N;
          ret (r\<lparr>pr_Duration := time_Sub stop start, pr_Error := Some (Errorf ''stopped after 10 redirects'' []),
            pr_Phases := exchange_phases ex 0\<rparr>)
        }
      | Hop_final ex resp conn \<Rightarrow> do {
          r' \<leftarrow> read_and_judge N (wo_ReadBody X conn) (\<lambda>t. ret (exchange_phases ex t)) start opts resp
            (response_fields resp r);
          connBackedBody_Close N conn;
          ret r'
        })"

definition HTTP_probeViaProxy ::
  "url_ops \<Rightarrow> ('w, 'c) net_ops \<Rightarrow> ('w, 'c) wire_ops \<Rightarrow> HTTPProber \<Rightarrow> URL \<Rightarrow> TargetConfig \<Rightarrow> ('w, ProbeResult) io option" where
  "HTTP_probeViaProxy U N X p proxyURL target =
     (let opts = tc_ProbeOpts target in
      case uo_Parse U (tc_Address target) of
        Inl e \<Rightarrow> Some (do {
          start \<leftarrow> op_Now N;
          stop \<leftarrow> op_Now N;
          ret (zero_result\<lparr>pr_Duration := time_Sub stop start, pr_Error := Some (Errorf ''parse target URL: %s'' [FErr e])\<rparr>)
        })
      | Inr currentURL \<Rightarrow>
          (case request_body opts of
             None \<Rightarrow> None
           | Some body \<Rightarrow> Some (do {
               start \<leftarrow> op_Now N;
               (seen, h) \<leftarrow> redirect_loop U N X p proxyURL (resolverFor (tc_DNSResolver target)) (proxy_headers opts)
                 (po_RequestBodyBytes opts) (proxyRedirectLimit - 1) currentURL (default_method opts) (proxy_headers opts)
                 body zero_connectResp;
               proxy_result N X start opts h (connect_fields seen zero_result)
             })))"

definition HTTPProber_Probe ::
  "url_ops \<Rightarrow> ('w, 'c) net_ops \<Rightarrow> ('w, 'c) wire_ops \<Rightarrow> ('w, 'b) client_ops \<Rightarrow> HTTPProber \<Rightarrow> TargetConfig
     \<Rightarrow> ('w, ProbeResult) io option" where
  "HTTPProber_Probe U N X C p target =
     (case hp_proxyURL p of
        Some proxyURL \<Rightarrow> HTTP_probeViaProxy U N X p proxyURL target
      | None \<Rightarrow> HTTP_probeDirect U N C p target)"

section \<open>Phases\<close>

lemma known_http_phases [simp]:
  "PhaseRequestWrite \<in> set AllPhases" "PhaseTTFB \<in> set AllPhases" "PhaseTransfer \<in> set AllPhases"
  by (simp_all add: AllPhases_def)

lemma buildPhases_ok [simp]: "phases_ok (buildPhases a b c d e f g h i)"
  by (simp add: buildPhases_def Let_def)

lemma buildPhasesFromSnapshot_ok [simp]: "phases_ok (buildPhasesFromSnapshot s t)"
  by (simp add: buildPhasesFromSnapshot_def)

lemma buildProxyPhases_ok [simp]: "phases_ok ps \<Longrightarrow> phases_ok (buildProxyPhases ps a b c d)"
  by (simp add: buildProxyPhases_def Let_def)

lemma exchange_phases_ok [simp]: "phases_ok (ex_phases ex) \<Longrightarrow> phases_ok (exchange_phases ex t)"
  by (simp add: exchange_phases_def)

text \<open>The total of all phases.\<close>

definition phase_total :: "duration gomap \<Rightarrow> int" where
  "phase_total ps = sum_list (map snd (elems ps))"

lemma phase_total_Nil [simp]: "phase_total (Some []) = 0"
  by (simp add: phase_total_def)

lemma phase_total_add:
  assumes "p \<notin> set (mkeys ps)" "0 < start" "start \<le> end" "end - start < 2 ^ 63"
  shows "phase_total (addObservedPhase ps p end start) = phase_total ps + (end - start)"
proof -
  have u: "AList.update p v xs = xs @ [(p, v)]" if "p \<notin> set (map fst xs)" for v and xs :: "(string \<times> int) list"
    using that by (induction xs) auto
  from assms show ?thesis
    by (simp add: addObservedPhase_def IsZero_def safeSub_def time_Sub_def Let_def phase_total_def mput_def mkeys_def u)
qed

lemma phase_total_skip: "start = 0 \<or> end = 0 \<Longrightarrow> phase_total (addObservedPhase ps p end start) = phase_total ps"
  by (auto simp: addObservedPhase_def IsZero_def)

lemma mkeys_addObservedPhase: "set (mkeys (addObservedPhase ps p e s)) \<subseteq> insert p (set (mkeys ps))"
  by (auto simp: addObservedPhase_def mkeys_mput)

lemma phase_fresh:
  "p \<noteq> q \<Longrightarrow> p \<notin> set (mkeys ps) \<Longrightarrow> p \<notin> set (mkeys (addObservedPhase ps q e s))"
  using mkeys_addObservedPhase [of ps q e s] by blast

lemma mkeys_Nil [simp]: "mkeys (Some []) = []"
  by (simp add: mkeys_def)

lemma mget_addObservedPhase:
  "mget (addObservedPhase ps p end start) q = (if p = q \<and> start \<noteq> 0 \<and> end \<noteq> 0 then Some (safeSub end start) else mget ps q)"
  by (simp add: addObservedPhase_def IsZero_def)

lemma safeSub_ordered: "start \<le> end \<Longrightarrow> end - start < 2 ^ 62 \<Longrightarrow> safeSub end start = end - start"
  by (simp add: safeSub_def time_Sub_def Let_def)

lemma mget_empty_phases: "mget (Some []) p = None"
  by (simp add: mget_def)

lemma phase_distinct_list:
  "distinct [PhaseDNSResolve, PhaseTCPConnect, PhaseTLSHandshake, PhaseRequestWrite, PhaseTTFB, PhaseTransfer]"
  "distinct [PhaseTransfer, PhaseTTFB, PhaseRequestWrite, PhaseTLSHandshake, PhaseTCPConnect, PhaseDNSResolve]"
  by (simp_all add: phase_defs)

lemmas phase_distinct = phase_distinct_list [simplified distinct.simps list.set insert_iff empty_iff de_Morgan_disj simp_thms]

text \<open>The six phases between stamps that are in order, an absent pair of stamps being 0.\<close>

lemma phases_of_stamps:
  assumes dns: "ds = 0 \<and> de = 0 \<or> 0 < ds \<and> ds \<le> de \<and> de - ds < 2 ^ 62"
    and tls: "ts = 0 \<and> th = 0 \<or> 0 < ts \<and> ts \<le> th \<and> th - ts < 2 ^ 62"
    and "0 < rr" "rr \<le> wr" "0 < wr" "wr \<le> fb" "0 < fb" "fb \<le> te" "0 < te" "0 < cs" "cs \<le> ce"
    and bounds: "ce - cs < 2 ^ 62" "wr - rr < 2 ^ 62" "fb - wr < 2 ^ 62" "te - fb < 2 ^ 62"
  defines "ps \<equiv> addObservedPhase (addObservedPhase (addObservedPhase (addObservedPhase (addObservedPhase (addObservedPhase
      (Some []) PhaseDNSResolve de ds) PhaseTCPConnect ce cs) PhaseTLSHandshake th ts) PhaseRequestWrite wr rr) PhaseTTFB fb wr)
      PhaseTransfer te fb"
  shows "mget ps PhaseDNSResolve = (if ds = 0 then None else Some (de - ds))"
    and "mget ps PhaseTCPConnect = Some (ce - cs)"
    and "mget ps PhaseTLSHandshake = (if ts = 0 then None else Some (th - ts))"
    and "mget ps PhaseRequestWrite = Some (wr - rr)"
    and "mget ps PhaseTTFB = Some (fb - wr)"
    and "mget ps PhaseTransfer = Some (te - fb)"
    and "phase_total ps = (de - ds) + (ce - cs) + (th - ts) + (wr - rr) + (fb - wr) + (te - fb)"
proof -
  have nz: "cs \<noteq> 0" "ce \<noteq> 0" "wr \<noteq> 0" "rr \<noteq> 0" "fb \<noteq> 0" "te \<noteq> 0"
    using assms(3-11) by auto
  note sub = safeSub_ordered [OF \<open>cs \<le> ce\<close> bounds(1)] safeSub_ordered [OF \<open>rr \<le> wr\<close> bounds(2)]
    safeSub_ordered [OF \<open>wr \<le> fb\<close> bounds(3)] safeSub_ordered [OF \<open>fb \<le> te\<close> bounds(4)]
  note get = ps_def mget_addObservedPhase mget_empty_phases phase_distinct nz sub
  show "mget ps PhaseTCPConnect = Some (ce - cs)" by (simp add: get)
  show "mget ps PhaseRequestWrite = Some (wr - rr)" by (simp add: get)
  show "mget ps PhaseTTFB = Some (fb - wr)" by (simp add: get)
  show "mget ps PhaseTransfer = Some (te - fb)" by (simp add: get)
  show "mget ps PhaseDNSResolve = (if ds = 0 then None else Some (de - ds))"
    using dns by (elim disjE conjE) (simp_all add: get safeSub_ordered)
  show "mget ps PhaseTLSHandshake = (if ts = 0 then None else Some (th - ts))"
    using tls by (elim disjE conjE) (simp_all add: get safeSub_ordered)
  have d: "phase_total (addObservedPhase q p de ds) = phase_total q + (de - ds)" if "p \<notin> set (mkeys q)" for q p
    using dns that by (elim disjE conjE) (simp_all add: phase_total_add phase_total_skip)
  have t: "phase_total (addObservedPhase q p th ts) = phase_total q + (th - ts)" if "p \<notin> set (mkeys q)" for q p
    using tls that by (elim disjE conjE) (simp_all add: phase_total_add phase_total_skip)
  have a: "phase_total (addObservedPhase q p e s) = phase_total q + (e - s)"
    if "p \<notin> set (mkeys q)" "0 < s" "s \<le> e" "e - s < 2 ^ 62" for q p e s
    using that by (simp add: phase_total_add)
  show "phase_total ps = (de - ds) + (ce - cs) + (th - ts) + (wr - rr) + (fb - wr) + (te - fb)"
    unfolding ps_def using assms(3-11) bounds by (simp add: a t d phase_fresh phase_distinct)
qed

text \<open>
  C20: the phases of a direct request are the times between its stamps. For stamps in the order in which a
  request passes them, with or without a DNS lookup and with or without a TLS handshake (an absent pair is
  unset), each phase that took place is reported with the time between its two stamps and an absent one is
  not reported; the write starts at the end of the handshake, or of the connect without one, so no phase
  starts before the one before it has ended; and together they are the time from the first stamp to the end
  of the transfer, less the waits between lookup and connect and between connect and handshake.
\<close>

theorem buildPhases_total:
  assumes "0 < cs" and "cs \<le> ce" and "ds = 0 \<and> de = 0 \<or> 0 < ds \<and> ds \<le> de \<and> de \<le> cs"
    and "ts = 0 \<and> th = 0 \<or> ce \<le> ts \<and> ts \<le> th" and "ce \<le> wr" and "th \<le> wr" and "wr \<le> fb" and "fb \<le> te"
    and "te - cs < 2 ^ 61" and "0 < ds \<longrightarrow> cs - ds < 2 ^ 61"
    and "ps = buildPhases ds de cs ce ts th wr fb te"
  shows "mget ps PhaseDNSResolve = (if ds = 0 then None else Some (de - ds)) \<and> mget ps PhaseTCPConnect = Some (ce - cs)
    \<and> mget ps PhaseTLSHandshake = (if ts = 0 then None else Some (th - ts))
    \<and> mget ps PhaseRequestWrite = Some (wr - (if ts = 0 then ce else th))
    \<and> mget ps PhaseTTFB = Some (fb - wr) \<and> mget ps PhaseTransfer = Some (te - fb)
    \<and> phase_total ps = te - (if ds = 0 then cs else ds) - (if ds = 0 then 0 else cs - de) - (if ts = 0 then 0 else ts - ce)"
proof -
  define rr where "rr = (if ts = 0 then ce else th)"
  have ready: "laterOf th ce = rr" "0 < rr" "rr \<le> wr"
    using assms(1-6) by (auto simp: laterOf_def rr_def)
  have wr: "0 < wr" "0 < fb" "0 < te" using ready assms(7,8) by simp_all
  have "cs \<le> rr" using assms(2-4) by (auto simp: rr_def)
  then have bounds: "ce - cs < 2 ^ 62" "wr - rr < 2 ^ 62" "fb - wr < 2 ^ 62" "te - fb < 2 ^ 62"
    using assms(2,5,7-9) ready(3) by simp_all
  have dns: "ds = 0 \<and> de = 0 \<or> 0 < ds \<and> ds \<le> de \<and> de - ds < 2 ^ 62"
    using assms(3,10) by (elim disjE conjE) simp_all
  have tls: "ts = 0 \<and> th = 0 \<or> 0 < ts \<and> ts \<le> th \<and> th - ts < 2 ^ 62"
    using assms(4,1,2,6-9) by (elim disjE conjE) simp_all
  note phases = phases_of_stamps [OF dns tls ready(2,3) wr(1) assms(7) wr(2) assms(8) wr(3) assms(1,2) bounds]
  have ps: "ps = addObservedPhase (addObservedPhase (addObservedPhase (addObservedPhase (addObservedPhase (addObservedPhase
      (Some []) PhaseDNSResolve de ds) PhaseTCPConnect ce cs) PhaseTLSHandshake th ts) PhaseRequestWrite wr rr) PhaseTTFB fb wr)
      PhaseTransfer te fb"
    using wr(1) by (simp add: assms(11) buildPhases_def Let_def ready(1) IsZero_def)
  have absent: "ds = 0 \<Longrightarrow> de = 0" "ts = 0 \<Longrightarrow> th = 0" using dns tls by auto
  show ?thesis
    unfolding ps phases using absent by (simp add: rr_def)
qed

theorem buildPhases_total_witness:
  "phase_total (buildPhases 1 3 4 9 10 20 30 40 50) = 47 \<and> phase_total (buildPhases 0 0 4 9 0 0 30 40 50) = 46"
proof
  show "phase_total (buildPhases 1 3 4 9 10 20 30 40 50) = 47"
    using buildPhases_total [of 4 9 1 3 10 20 30 40 50, OF _ _ _ _ _ _ _ _ _ _ refl] by simp
  show "phase_total (buildPhases 0 0 4 9 0 0 30 40 50) = 46"
    using buildPhases_total [of 4 9 0 0 0 0 30 40 50, OF _ _ _ _ _ _ _ _ _ _ refl] by simp
qed

text \<open>
  The order matters: a server that answers before the request is written (a refused upload, say) makes
  \<^verbatim>\<open>request_write\<close> and \<^verbatim>\<open>transfer\<close> count the same time twice. Here a request of 11 nanoseconds has phases of 16.
\<close>

lemma early_response_counts_twice:
  "phase_total (buildPhases 0 0 1 2 0 0 10 5 12) = 16 \<and> (12 :: int) - 1 < 16"
  by (simp add: buildPhases_def Let_def laterOf_def addObservedPhase_def IsZero_def safeSub_def time_Sub_def
      phase_total_def mput_def phase_defs)

end
