(* ===== verification/Probe_HTTP_Facts.thy ===== *)
theory Probe_HTTP_Facts
  imports Probe_HTTP
begin

text \<open>
  What the path through a proxy promises: the results of an exchange and of the loop over redirects, the
  connections they open and close, the number of dials, and what is written to which connection. The
  lemmas are stated for the loop, so that both HTTP probers use them.
\<close>

section \<open>Results of an exchange and of the loop\<close>

lemma setupProxyTLSConn_ok:
  "always (setupProxyTLSConn N X pu tu ps ts a rv) (\<lambda>(_, tr, _). phases_ok (tr_phases tr))"
proof -
  have rest: "always (case x of (tunnel, err) \<Rightarrow> let trace = \<lparr>tr_phases = pt_phases tunnel, tr_setupEnd = 0,
        tr_connectResp = pt_connectResp tunnel, tr_targetTLS = None\<rparr> in f tunnel err trace) P"
    if "case x of (tunnel, err) \<Rightarrow> phases_ok (pt_phases tunnel)"
      "\<And>tunnel err trace. phases_ok (tr_phases trace) \<Longrightarrow> always (f tunnel err trace) P"
    for x :: "'x proxyTunnelResult \<times> goerr option" and f and P :: "'z \<Rightarrow> bool"
    using that by (auto split: prod.splits)
  show ?thesis unfolding setupProxyTLSConn_def
    by (rule always_bind [OF dialProxyTunnel_always], rule rest)
      (auto simp: Let_def intro!: always_bindT always_case_option always_ret)
qed

lemma setupProxyPlainConn_ok:
  "always (setupProxyPlainConn N X pu sk rv) (\<lambda>(_, tr, _). phases_ok (tr_phases tr))"
  unfolding setupProxyPlainConn_def by (intro always_intro) simp_all

lemma setupProxyHTTPConn_ok:
  "always (setupProxyHTTPConn N X pu tu ps ts a rv) (\<lambda>(_, tr, _). phases_ok (tr_phases tr))"
  unfolding setupProxyHTTPConn_def
  by (auto intro!: always_if always_ret setupProxyTLSConn_ok setupProxyPlainConn_ok)

lemma exchange_on_ok:
  "phases_ok (ex_phases r0) \<Longrightarrow> always (exchange_on U N X tu m hs b a tr c r0) (\<lambda>ex. phases_ok (ex_phases ex))"
  unfolding exchange_on_def by (intro always_intro) (auto split: sum.splits)

lemma executeProxyHTTPExchange_ok:
  "always (executeProxyHTTPExchange U N X pu tu m hs b ps ts a rv) (\<lambda>ex. phases_ok (ex_phases ex))"
proof -
  have rest: "always (do {
        r \<leftarrow> exchange_on U N X tu m hs b a tr c r0;
        (if ex_resp r = None then conn_Close N c else ret ());
        ret r }) (\<lambda>ex. phases_ok (ex_phases ex))" if "phases_ok (ex_phases r0)" for tr c r0
    by (rule always_bind [OF exchange_on_ok [OF that]]) (intro always_bindT always_ret)
  show ?thesis unfolding executeProxyHTTPExchange_def
    by (rule always_bind [OF setupProxyHTTPConn_ok])
      (auto simp: Let_def intro!: rest always_ret split: option.splits)
qed

fun hop_ok :: "'c hop_end \<Rightarrow> bool" where
  "hop_ok (Hop_failed ex e) = phases_ok (ex_phases ex)"
| "hop_ok (Hop_bad_redirect e) = True"
| "hop_ok (Hop_limit ex) = phases_ok (ex_phases ex)"
| "hop_ok (Hop_final ex resp conn) = phases_ok (ex_phases ex)"

lemma redirect_loop_ok:
  "always (redirect_loop U N X p pu rv headers n k u m hs b seen) (\<lambda>(_, h). hop_ok h)"
proof (induction k arbitrary: u m hs b seen)
  case 0
  show ?case unfolding redirect_loop.simps [of _ _ _ _ _ _ _ _ 0]
    by (rule always_bind [OF executeProxyHTTPExchange_ok])
      (intro always_intro; auto intro!: always_ret)
next
  case (Suc k)
  show ?case unfolding redirect_loop.simps [of _ _ _ _ _ _ _ _ "Suc k"]
    by (rule always_bind [OF executeProxyHTTPExchange_ok])
      (intro always_intro Suc.IH; simp add: Suc.IH split: prod.splits)
qed

section \<open>Verdicts\<close>

definition http_verdict :: "ProbeOptions \<Rightarrow> ProbeResult \<Rightarrow> bool" where
  "http_verdict opts r \<longleftrightarrow> result_ok r
     \<and> pr_Success r = (pr_HTTPResponseReceived r \<and> pr_HTTPTruncationEvaluated r \<and>
         (elems (po_ExpectedStatusCodes opts) = [] \<or> pr_StatusCode r \<in> set (elems (po_ExpectedStatusCodes opts))))
     \<and> (pr_HTTPResponseTruncated r \<longrightarrow> pr_HTTPTruncationEvaluated r)"

definition unjudged :: "ProbeResult \<Rightarrow> bool" where
  "unjudged r \<longleftrightarrow> \<not> pr_Success r \<and> pr_Error r = None \<and> phases_ok (pr_Phases r)
     \<and> \<not> pr_HTTPTruncationEvaluated r \<and> \<not> pr_HTTPResponseTruncated r"

lemma setTLSCertificateResult_http [simp]:
  "pr_HTTPTruncationEvaluated (setTLSCertificateResult r cs) = pr_HTTPTruncationEvaluated r"
  "pr_HTTPResponseTruncated (setTLSCertificateResult r cs) = pr_HTTPResponseTruncated r"
  "pr_HTTPResponseReceived (setTLSCertificateResult r cs) = pr_HTTPResponseReceived r"
  "pr_StatusCode (setTLSCertificateResult r cs) = pr_StatusCode r"
  by (cases cs; simp add: setTLSCertificateResult_def Let_def)+

lemma response_fields_simps [simp]:
  "unjudged (response_fields resp r) = unjudged r"
  "pr_HTTPResponseReceived (response_fields resp r)" "pr_StatusCode (response_fields resp r) = rs_StatusCode resp"
  by (auto simp: response_fields_def unjudged_def Let_def split: option.splits)

lemma connect_fields_unjudged [simp]: "unjudged (connect_fields seen r) = unjudged r"
  by (simp add: connect_fields_def unjudged_def)

lemma unjudged_zero [simp]: "unjudged zero_result"
  by (simp add: unjudged_def zero_result_def)

lemma unjudged_Duration [simp]: "unjudged (r\<lparr>pr_Duration := d\<rparr>) = unjudged r"
  by (simp add: unjudged_def)

lemma failed_verdict:
  "unjudged r \<Longrightarrow> phases_ok ps \<Longrightarrow> http_verdict opts (r\<lparr>pr_Duration := d, pr_Error := Some e, pr_Phases := ps\<rparr>)"
  "unjudged r \<Longrightarrow> http_verdict opts (r\<lparr>pr_Duration := d, pr_Error := Some e\<rparr>)"
  "unjudged r \<Longrightarrow> http_verdict opts (r\<lparr>pr_Error := Some e\<rparr>)"
  by (auto simp: http_verdict_def unjudged_def result_ok_def)

lemma read_and_judge_ok:
  assumes "unjudged r" "pr_HTTPResponseReceived r" "pr_StatusCode r = rs_StatusCode resp" "\<And>t. always (phases t) phases_ok"
  shows "always (read_and_judge N rd phases start opts resp r) (http_verdict opts)"
proof -
  have "http_verdict opts (case err of
        Some e \<Rightarrow> r1\<lparr>pr_Error := Some (Errorf ''reading response body: %s'' [FErr e])\<rparr>
      | None \<Rightarrow> status_verdict (elems (po_ExpectedStatusCodes opts)) (rs_StatusCode resp)
          (r1\<lparr>pr_HTTPTruncationEvaluated := True, pr_HTTPResponseTruncated := b\<rparr>))"
    if "r1 = r\<lparr>pr_Duration := d, pr_Phases := ps\<rparr>" "phases_ok ps" for r1 d ps err b
    using assms that by (auto simp: http_verdict_def unjudged_def result_ok_def status_verdict_def split: option.splits)
  then show ?thesis unfolding read_and_judge_def
    by (intro always_bindT always_case_prod always_bind [OF assms(4)] always_Let always_ret)
qed

lemma proxy_result_ok:
  assumes "unjudged r" "hop_ok h"
  shows "always (proxy_result N X start opts h r) (http_verdict opts)"
proof (cases h)
  case (Hop_final ex resp conn)
  have "always (read_and_judge N (wo_ReadBody X conn) (\<lambda>t. ret (exchange_phases ex t)) start opts resp (response_fields resp r))
      (http_verdict opts)"
    using assms Hop_final by (intro read_and_judge_ok) (simp_all add: always_ret)
  then show ?thesis unfolding Hop_final proxy_result_def hop_end.case
    by (rule always_bind) (intro always_bindT always_ret)
qed (use assms in \<open>auto simp: proxy_result_def intro!: always_bindT always_ret failed_verdict\<close>)

lemma direct_phases_ok: "always (direct_phases C t) phases_ok"
  unfolding direct_phases_def by (intro always_intro) simp

lemma HTTPProber_verdict:
  assumes "HTTPProber_Probe U N X C p t = Some m"
  shows "always m (http_verdict (tc_ProbeOpts t))"
proof (cases "hp_proxyURL p")
  case None
  with assms have d: "HTTP_probeDirect U N C p t = Some m" by (simp add: HTTPProber_Probe_def)
  then obtain body where b: "request_body (tc_ProbeOpts t) = Some body"
    by (auto simp: HTTP_probeDirect_def Let_def split: option.splits)
  have "always (read_and_judge N (co_ReadBody C rb) (direct_phases C) start (tc_ProbeOpts t) resp (response_fields resp zero_result))
      (http_verdict (tc_ProbeOpts t))" for rb start resp
    by (intro read_and_judge_ok direct_phases_ok) simp_all
  note judge = always_bind [OF this]
  from d show ?thesis unfolding HTTP_probeDirect_def Let_def b option.case option.inject
    by (auto intro!: always_case_sum always_bindT always_ret judge failed_verdict always_bind [OF direct_phases_ok])
next
  case (Some u)
  with assms have v: "HTTP_probeViaProxy U N X p u t = Some m" by (simp add: HTTPProber_Probe_def)
  show ?thesis
  proof (cases "uo_Parse U (tc_Address t)")
    case (Inl e)
    with v show ?thesis by (auto simp: HTTP_probeViaProxy_def intro!: always_bindT always_ret failed_verdict)
  next
    case (Inr cu)
    with v obtain body where b: "request_body (tc_ProbeOpts t) = Some body"
      by (auto simp: HTTP_probeViaProxy_def Let_def split: option.splits)
    from v show ?thesis unfolding HTTP_probeViaProxy_def Let_def Inr b option.case sum.case option.inject
      by (auto intro!: always_bindT always_bind [OF redirect_loop_ok] proxy_result_ok)
  qed
qed

interpretation http: partial_prober "HTTPProber_Probe U N X C p"
  for U :: url_ops and N :: "('w, 'c) net_ops" and X :: "('w, 'c) wire_ops" and C :: "('w, 'b) client_ops" and p
  by unfold_locales (auto intro: always_mono [OF HTTPProber_verdict] simp: http_verdict_def)

section \<open>What the verdict rests on\<close>

text \<open>The calls of \<^verbatim>\<open>http.Client\<close> as an observation: \<^verbatim>\<open>Do\<close> yields the last response, and reading its body is recorded.\<close>

definition client_observes :: "('w, 'b) client_ops \<Rightarrow> ('w \<Rightarrow> 'c observation) \<Rightarrow> bool" where
  "client_observes C ob \<longleftrightarrow> silent ob (co_Events C) \<and> (\<forall>rb. silent ob (co_CloseBody C rb))
   \<and> (\<forall>cl req B. triple (\<lambda>w. ob w = B) (co_Do C cl req)
        (\<lambda>r w. ob w = B\<lparr>ob_resp := response_of (map_sum (\<lambda>e. e) snd r), ob_body := None\<rparr>))
   \<and> (\<forall>rb n B. triple (\<lambda>w. ob w = B) (co_ReadBody C rb n) (\<lambda>r w. ob w = B\<lparr>ob_body := Some (n, r)\<rparr>))"

text \<open>
  A response was read, with the status that is judged, and no body since; and a result fits an observation:
  it is a success exactly if the body of a response with an expected status was read without an error, or
  beyond the limit before one.
\<close>

definition resp_seen :: "('w \<Rightarrow> 'c observation) \<Rightarrow> Response \<Rightarrow> 'w \<Rightarrow> bool" where
  "resp_seen ob resp w \<longleftrightarrow> bodyless ob w \<and> (\<exists>rs. ob_resp (ob w) = Some rs \<and> rs_StatusCode rs = rs_StatusCode resp)"

definition http_fits :: "ProbeOptions \<Rightarrow> ProbeResult \<Rightarrow> 'c observation \<Rightarrow> bool" where
  "http_fits opts r B \<longleftrightarrow> (pr_Success r \<longleftrightarrow> (\<exists>resp bs err. ob_resp B = Some resp
     \<and> ob_body B = Some (nat (effectiveLimit opts + 1), bs, err) \<and> (err = None \<or> effectiveLimit opts < int (length bs))
     \<and> (elems (po_ExpectedStatusCodes opts) = [] \<or> rs_StatusCode resp \<in> set (elems (po_ExpectedStatusCodes opts)))))"

lemma bodyless_fits: "bodyless ob w \<Longrightarrow> \<not> pr_Success r \<Longrightarrow> http_fits opts r (ob w)"
  by (simp add: http_fits_def bodyless_def)

lemma resp_seen_bodyless: "resp_seen ob resp w \<Longrightarrow> bodyless ob w"
  by (simp add: resp_seen_def)

lemma limit_bounds:
  assumes "po_ResponseBodyLimitBytes opts < 2 ^ 63 - 1"
  shows "0 < effectiveLimit opts" "int64 (effectiveLimit opts + 1) = effectiveLimit opts + 1"
proof -
  have "0 < effectiveLimit opts" "effectiveLimit opts < 2 ^ 63 - 1"
    using assms by (auto simp: effectiveLimit_def defaultResponseBodyLimit_def)
  then show "0 < effectiveLimit opts" "int64 (effectiveLimit opts + 1) = effectiveLimit opts + 1"
    by (simp, intro int64_id, simp add: in_int64_def)
qed

lemma fits_silent: "silent ob m \<Longrightarrow> triple (\<lambda>w. Q (ob w)) m (\<lambda>_ w. Q (ob w))"
  by (rule triple_keeps [OF keeps_silent])

lemma read_and_judge_fits:
  assumes now: "silent ob (op_Now N)" and ph: "\<And>t. silent ob (phases t)"
    and rd: "\<And>n B. triple (\<lambda>w. ob w = B) (rd n) (\<lambda>x w. ob w = B\<lparr>ob_body := Some (n, x)\<rparr>)"
    and lim: "po_ResponseBodyLimitBytes opts < 2 ^ 63 - 1" and r: "\<not> pr_Success r"
  shows "triple (resp_seen ob resp) (read_and_judge N rd phases start opts resp r) (\<lambda>r w. http_fits opts r (ob w))"
proof -
  define n where "n = nat (effectiveLimit opts + 1)"
  have n: "n \<noteq> 0" "n \<le> length bs \<longleftrightarrow> effectiveLimit opts < int (length bs)" for bs :: string
    using limit_bounds(1) [OF lim] by (auto simp: n_def)
  define seen where "seen = (\<lambda>(err :: goerr option) w. \<exists>rs bs' err'. ob_resp (ob w) = Some rs \<and> rs_StatusCode rs = rs_StatusCode resp
    \<and> ob_body (ob w) = Some (n, bs', err') \<and> (err = None \<longleftrightarrow> err' = None \<or> effectiveLimit opts < int (length bs')))"
  have rdn: "triple (resp_seen ob resp) (rd n)
      (\<lambda>x w. \<exists>rs. ob_resp (ob w) = Some rs \<and> rs_StatusCode rs = rs_StatusCode resp \<and> ob_body (ob w) = Some (n, x))"
    unfolding triple_def
  proof (intro allI impI)
    fix w assume "resp_seen ob resp w"
    with tripleD [OF rd [of "ob w" n] refl]
    show "\<exists>rs. ob_resp (ob (snd (run_state (rd n) w))) = Some rs \<and> rs_StatusCode rs = rs_StatusCode resp
        \<and> ob_body (ob (snd (run_state (rd n) w))) = Some (n, fst (run_state (rd n) w))"
      by (simp add: resp_seen_def)
  qed
  have "triple (resp_seen ob resp) (read_limited rd n) (\<lambda>(bs, err). seen err)"
    unfolding read_limited_def if_not_P [OF n(1)]
    by (rule triple_bind [OF rdn], rule triple_case_prod, rule triple_ret) (auto simp: seen_def n(2))
  note read = triple_bind [OF this]
  have silent_seen: "silent ob m \<Longrightarrow> triple (seen err) m (\<lambda>_. seen err)" for m :: "('a, 'x) io" and err
    unfolding seen_def by (rule fits_silent)
  show ?thesis unfolding read_and_judge_def limit_bounds(2) [OF lim] n_def [symmetric] Let_def
  proof (rule read, goal_cases)
    case (1 x)
    obtain bs err where x: "x = (bs, err)" by (cases x)
    show ?case unfolding x prod.case
      by (rule triple_bind [OF silent_seen [OF now]], rule triple_bind [OF silent_seen [OF ph]], rule triple_ret)
        (use r in \<open>auto simp: http_fits_def seen_def status_verdict_def n_def split: option.splits\<close>)
  qed
qed

lemma exchange_on_seen:
  assumes "observes N X ob" "ex_resp r0 = None"
  shows "triple (bodyless ob) (exchange_on U N X tu m hs b a tr c r0)
    (\<lambda>ex w. bodyless ob w \<and> (\<forall>resp c. ex_resp ex = Some (resp, c) \<longrightarrow> resp_seen ob resp w))"
proof -
  note keep = triple_bind [OF triple_keeps [OF bodyless_calls(1) [OF assms(1)]]]
    triple_bind [OF triple_keeps [OF bodyless_calls(4) [OF assms(1)]]]
    triple_bind [OF triple_keeps [OF bodyless_calls(5) [OF assms(1)]]]
  have dl: "keeps (bodyless ob) (case d of None \<Rightarrow> ret None | Some d \<Rightarrow> wo_SetDeadline X c (Some d))" for d
    by (intro keeps_intro bodyless_calls [OF assms(1)])
  have "triple (bodyless ob) (wo_ReadResponse X req c)
      (\<lambda>x w. bodyless ob w \<and> ob_resp (ob w) = response_of (fst x))" for req
    using observesD(13) [OF assms(1), of _ req c] by (simp add: triple_def bodyless_def)
  note read = triple_bind [OF this]
  show ?thesis unfolding exchange_on_def Let_def
    by (rule keep(3), rule triple_bind [OF triple_keeps [OF dl]], rule triple_case_sum, rule triple_ret, simp add: assms(2),
        rule keep(2), rule keep(1), rule triple_case_option, rule read)
      (auto intro!: triple_ret simp: assms(2) resp_seen_def response_of_def split: sum.splits option.splits)
qed

lemma executeProxyHTTPExchange_seen:
  assumes "observes N X ob"
  shows "triple (bodyless ob) (executeProxyHTTPExchange U N X pu tu m hs b ps ts a rv)
    (\<lambda>ex w. bodyless ob w \<and> (\<forall>resp c. ex_resp ex = Some (resp, c) \<longrightarrow> resp_seen ob resp w))"
proof -
  have conn: "keeps (bodyless ob) (setupProxyHTTPConn N X pu tu ps ts a rv)"
    unfolding setupProxyHTTPConn_def setupProxyTLSConn_def setupProxyPlainConn_def
    by (intro keeps_intro bodyless_calls [OF assms] dialProxyTunnel_keeps(2) [OF assms])
  have fin: "triple (\<lambda>w. bodyless ob w \<and> (\<forall>resp c. ex_resp ex = Some (resp, c) \<longrightarrow> resp_seen ob resp w))
      (do { (if ex_resp ex = None then conn_Close N c else ret ()); ret ex })
      (\<lambda>ex w. bodyless ob w \<and> (\<forall>resp c. ex_resp ex = Some (resp, c) \<longrightarrow> resp_seen ob resp w))" for ex c
  proof (cases "ex_resp ex")
    case None
    then show ?thesis by (auto intro!: triple_bind [OF triple_keeps [OF bodyless_calls(3) [OF assms]]] triple_ret)
  qed (auto intro!: triple_ret)
  show ?thesis unfolding executeProxyHTTPExchange_def
    by (rule triple_bind [OF triple_keeps [OF conn]], intro triple_case_prod triple_Let triple_case_option triple_ret)
      (simp, rule triple_bind [OF exchange_on_seen [OF assms]], simp, rule fin)
qed

definition hop_seen :: "('w \<Rightarrow> 'c observation) \<Rightarrow> 'c hop_end \<Rightarrow> 'w \<Rightarrow> bool" where
  "hop_seen ob h w \<longleftrightarrow> (case h of Hop_final ex resp conn \<Rightarrow> resp_seen ob resp w | _ \<Rightarrow> bodyless ob w)"

lemma hop_seen_simps [simp]:
  "hop_seen ob (Hop_final ex resp conn) = resp_seen ob resp" "hop_seen ob (Hop_failed ex e) = bodyless ob"
  "hop_seen ob (Hop_bad_redirect e) = bodyless ob" "hop_seen ob (Hop_limit ex) = bodyless ob"
  by (simp_all add: hop_seen_def fun_eq_iff)

lemma redirect_loop_seen:
  assumes "observes N X ob"
  shows "triple (bodyless ob) (redirect_loop U N X p pu rv headers nb k u m hs b seen) (\<lambda>x. hop_seen ob (snd x))"
proof (induction k arbitrary: u m hs b seen)
  case 0
  note close = triple_bind [OF triple_keeps [OF bodyless_calls(3) [OF assms]]]
  show ?case unfolding redirect_loop.simps [of _ _ _ _ _ _ _ _ 0] connBackedBody_Close_def
    by (rule triple_bind [OF executeProxyHTTPExchange_seen [OF assms]], rule triple_Let, intro triple_case_option triple_case_prod
        triple_if triple_ret triple_conseq [OF close [OF triple_case_sum]]) (auto intro!: triple_ret)
next
  case (Suc k)
  note close = triple_bind [OF triple_keeps [OF bodyless_calls(3) [OF assms]]]
  have IH: "triple (bodyless ob)
      (case redirectedRequest m st headers nb of (m', b', hs') \<Rightarrow> redirect_loop U N X p pu rv headers nb k u' m' hs' b' seen')
      (\<lambda>x. hop_seen ob (snd x))" for u' m st seen'
    by (intro triple_case_prod Suc.IH)
  show ?case unfolding redirect_loop.simps [of _ _ _ _ _ _ _ _ "Suc k"] connBackedBody_Close_def nat.case
    by (rule triple_bind [OF executeProxyHTTPExchange_seen [OF assms]], rule triple_Let, intro triple_case_option triple_case_prod
        triple_if triple_ret triple_conseq [OF close [OF triple_case_sum]] IH) (auto intro!: triple_ret Suc.IH)
qed

lemma proxy_result_fits:
  assumes "observes N X ob" "po_ResponseBodyLimitBytes opts < 2 ^ 63 - 1" "\<not> pr_Success r"
  shows "triple (hop_seen ob h) (proxy_result N X start opts h r) (\<lambda>r w. http_fits opts r (ob w))"
proof (cases h)
  case (Hop_final ex resp conn)
  have s: "\<not> pr_Success (response_fields resp r)"
    using assms(3) by (auto simp: response_fields_def Let_def split: option.splits)
  have c: "silent ob (conn_Close N conn)" unfolding conn_Close_def by (rule observesD [OF assms(1)])
  show ?thesis unfolding Hop_final proxy_result_def hop_end.case connBackedBody_Close_def hop_seen_simps
    by (rule triple_bind [OF read_and_judge_fits [OF observesD(1) [OF assms(1)] silent_ret observesD(14) [OF assms(1)] assms(2) s]],
        rule triple_bind [OF fits_silent [OF c]], rule triple_ret)
qed (use assms(3) in \<open>auto simp: proxy_result_def bodyless_fits
      intro!: triple_ret triple_bind [OF triple_keeps [OF bodyless_calls(1) [OF assms(1)]]]\<close>)

lemma HTTPProber_fits:
  assumes "observes N X ob" "client_observes C ob" "HTTPProber_Probe U N X C p t = Some m"
    "po_ResponseBodyLimitBytes (tc_ProbeOpts t) < 2 ^ 63 - 1"
  shows "triple (bodyless ob) m (\<lambda>r w. http_fits (tc_ProbeOpts t) r (ob w))"
proof -
  note now = triple_bind [OF triple_keeps [OF bodyless_calls(1) [OF assms(1)]]]
  show ?thesis
  proof (cases "hp_proxyURL p")
    case None
    with assms(3) have d: "HTTP_probeDirect U N C p t = Some m" by (simp add: HTTPProber_Probe_def)
    then obtain body where b: "request_body (tc_ProbeOpts t) = Some body"
      by (auto simp: HTTP_probeDirect_def Let_def split: option.splits)
    have ph: "silent ob (direct_phases C tm)" for tm
      unfolding direct_phases_def using assms(2) by (auto simp: client_observes_def intro!: silent_intro)
    have keep: "triple (bodyless ob) (direct_phases C tm) (\<lambda>_. bodyless ob)" for tm
      by (rule triple_keeps [OF keeps_observed(2) [OF ph]])
    have close: "silent ob (co_CloseBody C rb)" for rb using assms(2) by (simp add: client_observes_def)
    have do_: "triple (bodyless ob) (co_Do C cl req)
        (\<lambda>x. case x of Inl _ \<Rightarrow> bodyless ob | Inr (_, rs) \<Rightarrow> resp_seen ob rs)" for cl req
      using assms(2) by (fastforce simp: client_observes_def triple_def bodyless_def resp_seen_def response_of_def split: sum.splits)
    have rd: "triple (\<lambda>w. ob w = B) (co_ReadBody C rb n) (\<lambda>x w. ob w = B\<lparr>ob_body := Some (n, x)\<rparr>)" for rb n B
      using assms(2) by (simp add: client_observes_def)
    have s: "\<not> pr_Success (response_fields resp zero_result)" for resp
      by (auto simp: response_fields_def Let_def split: option.splits)
    note judge = triple_bind [OF read_and_judge_fits [OF observesD(1) [OF assms(1)] ph rd assms(4) s]]
    have res: "triple (case x of Inl _ \<Rightarrow> bodyless ob | Inr (_, rs) \<Rightarrow> resp_seen ob rs) (case x of
          Inl e \<Rightarrow> do { stop \<leftarrow> op_Now N; ps \<leftarrow> direct_phases C 0;
            ret (zero_result\<lparr>pr_Duration := time_Sub stop start, pr_Error := Some e, pr_Phases := ps\<rparr>) }
        | Inr (rbody, resp) \<Rightarrow> do {
            r \<leftarrow> read_and_judge N (co_ReadBody C rbody) (direct_phases C) start (tc_ProbeOpts t) resp (response_fields resp zero_result);
            co_CloseBody C rbody; ret r })
        (\<lambda>r w. http_fits (tc_ProbeOpts t) r (ob w))" for x start
      by (cases x) (auto simp: bodyless_fits intro!: now triple_bind [OF keep] triple_ret judge triple_bind [OF fits_silent [OF close]])
    from d show ?thesis unfolding HTTP_probeDirect_def Let_def b option.case option.inject
      by (auto simp: bodyless_fits intro!: triple_case_sum triple_ret now triple_bind [OF do_] res)
  next
    case (Some pu)
    with assms(3) have v: "HTTP_probeViaProxy U N X p pu t = Some m" by (simp add: HTTPProber_Probe_def)
    show ?thesis
    proof (cases "uo_Parse U (tc_Address t)")
      case (Inl e)
      with v show ?thesis by (auto simp: HTTP_probeViaProxy_def bodyless_fits intro!: now triple_ret)
    next
      case (Inr cu)
      with v obtain body where b: "request_body (tc_ProbeOpts t) = Some body"
        by (auto simp: HTTP_probeViaProxy_def Let_def split: option.splits)
      have s: "\<not> pr_Success (connect_fields seen zero_result)" for seen by (simp add: connect_fields_def)
      from v show ?thesis unfolding HTTP_probeViaProxy_def Let_def Inr b option.case sum.case option.inject
        by (auto intro!: now triple_bind [OF redirect_loop_seen [OF assms(1)]] proxy_result_fits [OF assms(1,4) s])
    qed
  qed
qed

text \<open>
  C18: an HTTP probe, directly or through a proxy and its redirects, succeeds exactly if the last response
  that was read has an expected status (any, if none is configured) and its body was read up to one byte
  beyond the limit without an error, or the error came only after more bytes than the limit; the result then
  says that a response was received. (The limit is below the largest integer.)
\<close>

theorem HTTPProber_success_iff:
  assumes "observes N X ob" and "client_observes C ob" and "HTTPProber_Probe U N X C p t = Some m"
    and "ob_body (ob w) = None" and "po_ResponseBodyLimitBytes (tc_ProbeOpts t) < 2 ^ 63 - 1"
    and "r = fst (run_state m w)" and "B = ob (snd (run_state m w))"
    and "expected = elems (po_ExpectedStatusCodes (tc_ProbeOpts t))" and "limit = effectiveLimit (tc_ProbeOpts t)"
  shows "(pr_Success r \<longleftrightarrow> (\<exists>resp bs err. ob_resp B = Some resp \<and> ob_body B = Some (nat (limit + 1), bs, err)
      \<and> (err = None \<or> limit < int (length bs)) \<and> (expected = [] \<or> rs_StatusCode resp \<in> set expected)))
    \<and> (pr_Success r \<longleftrightarrow> pr_HTTPResponseReceived r \<and> pr_HTTPTruncationEvaluated r \<and>
        (expected = [] \<or> pr_StatusCode r \<in> set expected))"
proof -
  have "bodyless ob w" using assms(4) by (simp add: bodyless_def)
  from tripleD [OF HTTPProber_fits [OF assms(1-3,5)] this] alwaysD [OF HTTPProber_verdict [OF assms(3)], of w]
  show ?thesis unfolding assms(6-9) by (simp add: http_verdict_def http_fits_def)
qed

section \<open>Connections and what is written to them\<close>

text \<open>
  The layers of the connections of a probe through proxy \<open>u\<close>: those that end at the proxy, under TLS with the
  proxy's host as server name and its own verification setting if it is an https proxy, and the TLS
  connections with a target through one of them, verified as the target says. To which address they were
  dialled is in the log of the monitor.
\<close>

definition to_proxy :: "URL \<Rightarrow> bool \<Rightarrow> 'c conn \<Rightarrow> bool" where
  "to_proxy u skipVerify c \<longleftrightarrow>
     (if u_Scheme u = ''https''
      then (\<exists>k h. c = TLSClient \<lparr>tls_ServerName = h, tls_InsecureSkipVerify = skipVerify\<rparr> (Raw k)
        \<and> (case SplitHostPort (hostPortForURL u) of Some (host, _) \<Rightarrow> h = host | None \<Rightarrow> h \<in> {[], Hostname u}))
      else (\<exists>k. c = Raw k))"

definition to_target :: "URL \<Rightarrow> bool \<Rightarrow> bool \<Rightarrow> 'c conn \<Rightarrow> bool" where
  "to_target u proxySkip targetSkip c \<longleftrightarrow>
     (\<exists>h c'. c = TLSClient \<lparr>tls_ServerName = h, tls_InsecureSkipVerify = targetSkip\<rparr> c' \<and> to_proxy u proxySkip c')"

definition auth_confined :: "URL \<Rightarrow> bool \<Rightarrow> bool \<Rightarrow> ('c conn \<times> Request) set" where
  "auth_confined u proxySkip targetSkip =
     {(c, req). to_proxy u proxySkip c \<or>
        (to_target u proxySkip targetSkip c \<and> mget (rq_Header req) ''Proxy-Authorization'' = None)}"

definition no_auth_key :: "string gomap \<Rightarrow> bool" where
  "no_auth_key headers \<longleftrightarrow> ''Proxy-Authorization'' \<notin> CanonicalHeaderKey ` set (mkeys headers)"

lemma proxy_layer_to_proxy [simp]: "to_proxy u sk (proxy_layer u sk (Raw k))"
  by (auto simp: to_proxy_def proxy_layer_def split: option.splits)

lemma mget_set_headers:
  "k \<notin> CanonicalHeaderKey ` set (mkeys hs) \<Longrightarrow> mget (set_headers h hs) k = mget h k"
proof -
  have "k \<notin> CanonicalHeaderKey ` set (map fst xs) \<Longrightarrow> mget (foldl (\<lambda>h (k, v). header_Set h k v) h xs) k = mget h k" for xs
    by (induction xs arbitrary: h) (auto simp: header_Set_def)
  then show "k \<notin> CanonicalHeaderKey ` set (mkeys hs) \<Longrightarrow> mget (set_headers h hs) k = mget h k"
    by (simp add: set_headers_def mkeys_def)
qed

lemma no_auth_strip: "no_auth_key hs \<Longrightarrow> no_auth_key (stripRequestBodyHeaders hs)"
  by (force simp: no_auth_key_def stripRequestBodyHeaders_def mkeys_def)

lemma no_auth_redirected:
  "no_auth_key hs \<Longrightarrow> redirectedRequest m st hs n = (m', b', hs') \<Longrightarrow> no_auth_key hs'"
  by (auto simp: redirectedRequest_def no_auth_strip split: if_splits)

lemma NewRequest_header: "NewRequest U m url b = Inr req \<Longrightarrow> rq_Header req = Some []"
  by (auto simp: NewRequest_def Let_def split: if_splits sum.splits)

text \<open>What an exchange leaves open: the connection of its response.\<close>

definition resp_open :: "'c proxyHTTPExchangeResult \<Rightarrow> 'c set" where
  "resp_open ex = (case ex_resp ex of None \<Rightarrow> {} | Some (_, c) \<Rightarrow> {raw c})"

definition opt_open :: "'c conn option \<Rightarrow> 'c set" where
  "opt_open c = (case c of None \<Rightarrow> {} | Some c \<Rightarrow> {raw c})"

lemma setupProxyPlainConn_tracks:
  assumes "wire_laws N X mon" and A: "A = hostPortForURL pu"
  shows "triple (tracks mon A M S n {}) (setupProxyPlainConn N X pu sk rv)
    (\<lambda>(oc, tr, e) w. (\<forall>c. oc = Some c \<longrightarrow> to_proxy pu sk c) \<and> tracks mon A M S (Suc n) (opt_open oc) w)"
proof -
  note now = triple_bind [OF silent_tracks [OF wire_lawsD(1) [OF assms(1)]]]
  note hs = triple_bind [OF silent_tracks [OF wire_lawsD(4) [OF assms(1)]]]
  have close: "triple (tracks mon A M S (Suc n) {c}) (conn_Close N (Raw c)) (\<lambda>_. tracks mon A M S (Suc n) {})" for c
    using tracks_close [OF assms(1), where c = "Raw c"] by simp
  show ?thesis unfolding setupProxyPlainConn_def Let_def A [symmetric]
    by (rule now, rule triple_bind [OF tracks_dial [OF assms(1)]], rule now, rule triple_case_sum)
      (auto simp: opt_open_def to_proxy_def A [symmetric] intro!: triple_ret triple_if now hs triple_case_option triple_bind [OF close] split: option.splits)
qed

lemma setupProxyTLSConn_tracks:
  assumes "wire_laws N X mon" "\<And>k. (proxy_layer pu ps (Raw k), connectReq (hostPortForTargetURL tu) a) \<in> S" "A = hostPortForURL pu"
  shows "triple (tracks mon A M S n {}) (setupProxyTLSConn N X pu tu ps ts a rv)
    (\<lambda>(oc, tr, e) w. (\<forall>c. oc = Some c \<longrightarrow> to_target pu ps ts c) \<and> tracks mon A M S (Suc n) (opt_open oc) w)"
  unfolding setupProxyTLSConn_def
proof (rule triple_bind [OF dialProxyTunnel_tracks [OF assms]], goal_cases)
  case (1 x)
  note now = triple_bind [OF silent_tracks [OF wire_lawsD(1) [OF assms(1)]]]
  note hs = triple_bind [OF silent_tracks [OF wire_lawsD(4) [OF assms(1)]]]
  note dl = triple_bind [OF silent_tracks [OF wire_lawsD(3) [OF assms(1)]]]
  note certs = triple_bind [OF silent_tracks [OF wire_lawsD(5) [OF assms(1)]]]
  obtain t e where x: "x = (t, e)" by (cases x)
  show ?case unfolding x prod.case Let_def
  proof (rule triple_pure, rule triple_case_option, goal_cases)
    case 1
    then show ?case by (auto simp: opt_open_def tunnel_open_def intro!: triple_ret)
  next
    case (2 conn)
    then obtain k where c: "conn = proxy_layer pu ps (Raw k)" by blast
    from 2 have o2: "tunnel_open t = {raw conn}" by (simp add: tunnel_open_def)
    have t: "to_target pu ps ts (TLSClient (target_tls tu ts) conn)"
      by (auto simp: to_target_def target_tls_def c)
    show ?case unfolding o2
      by (rule dl, rule now, rule hs, rule now, rule triple_case_option, rule certs)
        (auto simp: opt_open_def t intro!: triple_ret triple_bind [OF tracks_close [OF assms(1)]])
  qed
qed

text \<open>\<open>tracks_upto\<close>: as \<open>tracks\<close>, with at most the given number of dials.\<close>

definition tracks_upto ::
  "('w \<Rightarrow> 'c monitor) \<Rightarrow> string \<Rightarrow> 'c monitor \<Rightarrow> ('c conn \<times> Request) set \<Rightarrow> nat \<Rightarrow> 'c set \<Rightarrow> 'w \<Rightarrow> bool" where
  "tracks_upto mon A M S n C w \<longleftrightarrow> (\<exists>k \<le> n. tracks mon A M S k C w)"

lemma upto_tracks: "tracks mon A M S n C w \<Longrightarrow> n \<le> k \<Longrightarrow> tracks_upto mon A M S k C w"
  by (auto simp: tracks_upto_def)

lemma upto_mono: "tracks_upto mon A M S n C w \<Longrightarrow> n \<le> k \<Longrightarrow> tracks_upto mon A M S k C w"
  by (auto simp: tracks_upto_def intro: le_trans)

lemma triple_upto:
  assumes "\<And>k. k \<le> n \<Longrightarrow> triple (tracks mon A M S k C) m (\<lambda>x w. Q x \<and> tracks_upto mon A M S (k + d) (C' x) w)"
  shows "triple (tracks_upto mon A M S n C) m (\<lambda>x w. Q x \<and> tracks_upto mon A M S (n + d) (C' x) w)"
  unfolding triple_def
proof (intro allI impI)
  fix w
  assume "tracks_upto mon A M S n C w"
  then obtain k where k: "k \<le> n" "tracks mon A M S k C w" by (auto simp: tracks_upto_def)
  from tripleD [OF assms [OF k(1)] k(2)] k(1)
  show "Q (fst (run_state m w)) \<and> tracks_upto mon A M S (n + d) (C' (fst (run_state m w))) (snd (run_state m w))"
    by (auto intro: upto_mono)
qed

lemma silent_upto: "silent mon m \<Longrightarrow> triple (tracks_upto mon A M S n C) m (\<lambda>_. tracks_upto mon A M S n C)"
  by (auto simp: silent_def triple_def tracks_upto_def tracks_def)

lemma upto_close:
  assumes "wire_laws N X mon"
  shows "triple (tracks_upto mon A M S n {raw c}) (conn_Close N c) (\<lambda>_. tracks_upto mon A M S n {})"
  using tracks_close [OF assms] by (fastforce simp: tracks_upto_def triple_def)

lemma upto_write:
  assumes "wire_laws N X mon" "(c, req) \<in> S"
  shows "triple (tracks_upto mon A M S n {raw c}) (wo_Write X p req c) (\<lambda>_. tracks_upto mon A M S n {raw c})"
  using tracks_write [OF assms] by (fastforce simp: tracks_upto_def triple_def)

lemma setupProxyHTTPConn_upto:
  assumes "wire_laws N X mon" "\<And>k. (proxy_layer pu ps (Raw k), connectReq (hostPortForTargetURL tu) a) \<in> S" "A = hostPortForURL pu"
  shows "triple (tracks_upto mon A M S n {}) (setupProxyHTTPConn N X pu tu ps ts a rv)
    (\<lambda>x w. (case x of (oc, tr, e) \<Rightarrow> \<forall>c. oc = Some c \<longrightarrow>
         u_Scheme tu \<noteq> ''http'' \<and> to_target pu ps ts c \<or> u_Scheme tu = ''http'' \<and> to_proxy pu ps c)
       \<and> tracks_upto mon A M S (n + 1) (opt_open (fst x)) w)"
proof (rule triple_upto)
  fix k
  show "triple (tracks mon A M S k {}) (setupProxyHTTPConn N X pu tu ps ts a rv)
    (\<lambda>x w. (case x of (oc, tr, e) \<Rightarrow> \<forall>c. oc = Some c \<longrightarrow>
         u_Scheme tu \<noteq> ''http'' \<and> to_target pu ps ts c \<or> u_Scheme tu = ''http'' \<and> to_proxy pu ps c)
       \<and> tracks_upto mon A M S (k + 1) (opt_open (fst x)) w)"
    unfolding setupProxyHTTPConn_def
    by (intro triple_if triple_conseq [OF setupProxyTLSConn_tracks [OF assms]]
        triple_conseq [OF setupProxyPlainConn_tracks [OF assms(1,3)]] triple_ret)
      (auto simp: opt_open_def intro: upto_tracks)
qed

lemma exchange_on_upto:
  assumes "wire_laws N X mon" "ex_resp r0 = None"
    and "\<And>req0. rq_Header req0 = Some [] \<Longrightarrow> (c, proxy_request hs tu a req0) \<in> S"
  shows "triple (tracks_upto mon A M S n {raw c}) (exchange_on U N X tu m hs b a tr c r0)
    (\<lambda>ex w. (ex_resp ex = None \<or> (\<exists>rs. ex_resp ex = Some (rs, c))) \<and> tracks_upto mon A M S n {raw c} w)"
proof -
  note step = triple_bind [OF silent_upto]
  have dl: "silent mon (case d of None \<Rightarrow> ret None | Some d \<Rightarrow> wo_SetDeadline X c (Some d))" for d
    by (intro silent_intro wire_lawsD [OF assms(1)])
  show ?thesis unfolding exchange_on_def Let_def
  proof (rule step, rule wire_lawsD(2) [OF assms(1)], rule step, rule dl, rule triple_case_sum, goal_cases)
    case (1 _ _ e)
    then show ?case using assms(2) by (auto intro!: triple_ret)
  next
    case (2 _ _ req0)
    then have w: "(c, proxy_request hs tu a req0) \<in> S" using assms(3) NewRequest_header by blast
    show ?case
    proof (rule triple_bind [OF upto_write [OF assms(1) w]], rule step, rule wire_lawsD(1) [OF assms(1)],
        rule triple_case_option, goal_cases)
      case (1 werr t)
      show ?case
        by (rule step, rule wire_lawsD(6) [OF assms(1)], rule triple_case_prod, rule triple_ret)
          (use assms(2) in \<open>auto split: sum.splits\<close>)
    next
      case (2 werr t e)
      then show ?case using assms(2) by (auto intro!: triple_ret)
    qed
  qed
qed

lemma executeProxyHTTPExchange_upto:
  assumes "wire_laws N X mon" "no_auth_key hs" "A = hostPortForURL pu"
  shows "triple (tracks_upto mon A M (auth_confined pu ps ts) n {}) (executeProxyHTTPExchange U N X pu tu m hs b ps ts a rv)
    (\<lambda>ex. tracks_upto mon A M (auth_confined pu ps ts) (n + 1) (resp_open ex))"
  unfolding executeProxyHTTPExchange_def
proof (rule triple_bind [OF setupProxyHTTPConn_upto [OF assms(1) _ assms(3)]], goal_cases)
  case (1 k)
  show ?case by (simp add: auth_confined_def)
next
  case (2 x)
  obtain oc tr e where x: "x = (oc, tr, e)" by (cases x)
  let ?S = "auth_confined pu ps ts"
  show ?case unfolding x prod.case Let_def fst_conv
  proof (rule triple_pure, rule triple_case_option, goal_cases)
    case 1
    then show ?case by (auto simp: opt_open_def resp_open_def intro!: triple_ret)
  next
    case (2 c)
    from 2 have oc: "opt_open oc = {raw c}" by (simp add: opt_open_def)
    from 2 have c: "u_Scheme tu \<noteq> ''http'' \<and> to_target pu ps ts c \<or> u_Scheme tu = ''http'' \<and> to_proxy pu ps c" by blast
    have w: "(c, proxy_request hs tu a req0) \<in> ?S" if "rq_Header req0 = Some []" for req0
      using c assms(2) that
      by (auto simp: auth_confined_def proxy_request_def Let_def no_auth_key_def mget_set_headers) (auto simp: mget_def)
    let ?r0 = "\<lparr>ex_resp = None, ex_phases = tr_phases tr, ex_setupEnd = tr_setupEnd tr, ex_wroteRequest = 0,
        ex_gotFirstByte = 0, ex_connectResp = tr_connectResp tr, ex_err = e\<rparr>"
    have r0: "ex_resp ?r0 = None" by simp
    show ?case unfolding oc
    proof (rule triple_bind [OF exchange_on_upto [OF assms(1) r0 w]], assumption, rule triple_pure, goal_cases)
      case (1 ex)
      show ?case
      proof (cases "ex_resp ex")
        case None
        show ?thesis unfolding None
          by (simp add: resp_open_def None) (rule triple_bind [OF upto_close [OF assms(1)]], rule triple_ret,
              simp add: None)
      next
        case (Some y)
        with 1 have "resp_open ex = {raw c}" by (auto simp: resp_open_def)
        with Some show ?thesis by (auto intro!: triple_bind [OF triple_ret] triple_ret)
      qed
    qed
  qed
qed

fun hop_open :: "'c hop_end \<Rightarrow> 'c set" where
  "hop_open (Hop_final ex resp conn) = {raw conn}"
| "hop_open _ = {}"

text \<open>The loop makes at most one exchange per remaining hop and one more, and leaves only the last response open.\<close>

lemma redirect_loop_upto:
  assumes "wire_laws N X mon" "no_auth_key headers" "no_auth_key hs"
    and "S = auth_confined pu (hp_proxyTLSSkipVerify p) (hp_tlsSkipVerify p)" and A: "A = hostPortForURL pu"
  shows "triple (tracks_upto mon A M S n {}) (redirect_loop U N X p pu rv headers nb k u m hs b seen)
    (\<lambda>x. tracks_upto mon A M S (n + Suc k) (hop_open (snd x)))"
  using assms(3)
proof (induction k arbitrary: n u m hs b seen)
  case 0
  show ?case unfolding redirect_loop.simps [of _ _ _ _ _ _ _ _ 0] assms(4)
  proof (rule triple_bind [OF executeProxyHTTPExchange_upto [OF assms(1) 0 A]], rule triple_Let, rule triple_case_option, goal_cases)
    case (1 ex)
    then show ?case by (auto simp: resp_open_def intro!: triple_ret)
  next
    case (2 ex x rc)
    obtain resp conn where rc: "rc = (resp, conn)" by (cases rc)
    with 2 have o2: "resp_open ex = {raw conn}" by (simp add: resp_open_def)
    show ?case unfolding o2 rc prod.case connBackedBody_Close_def
      by (intro triple_if triple_case_option triple_bind [OF upto_close [OF assms(1)]] triple_case_sum triple_ret)
        (auto intro!: triple_ret)
  qed
next
  case (Suc k)
  have IH: "triple (tracks_upto mon A M S (n + 1) {})
      (case redirectedRequest m st headers nb of (m', b', hs') \<Rightarrow> redirect_loop U N X p pu rv headers nb k u' m' hs' b' seen')
      (\<lambda>x. tracks_upto mon A M S (n + Suc (Suc k)) (hop_open (snd x)))" for u' m st seen'
  proof (cases "redirectedRequest m st headers nb")
    case (fields m' b' hs')
    from Suc.IH [OF no_auth_redirected [OF assms(2) fields], of "n + 1"] show ?thesis
      unfolding fields prod.case by (simp add: add.assoc)
  qed
  show ?case unfolding redirect_loop.simps [of _ _ _ _ _ _ _ _ "Suc k"] assms(4)
  proof (rule triple_bind [OF executeProxyHTTPExchange_upto [OF assms(1) Suc.prems A]], rule triple_Let, rule triple_case_option, goal_cases)
    case (1 ex)
    then show ?case by (auto simp: resp_open_def intro!: triple_ret intro: upto_mono)
  next
    case (2 ex x rc)
    obtain resp conn where rc: "rc = (resp, conn)" by (cases rc)
    with 2 have o2: "resp_open ex = {raw conn}" by (simp add: resp_open_def)
    show ?case unfolding o2 rc prod.case connBackedBody_Close_def nat.case
      by (intro triple_if triple_case_option triple_bind [OF upto_close [OF assms(1)]] triple_case_sum IH [unfolded assms(4)] triple_ret)
        (auto intro: upto_mono)
  qed
qed

lemma proxy_result_upto:
  assumes "wire_laws N X mon"
  shows "triple (tracks_upto mon A M S n (hop_open h)) (proxy_result N X start opts h r) (\<lambda>_. tracks_upto mon A M S n {})"
proof (cases h)
  case (Hop_final ex resp conn)
  have "silent mon (read_and_judge N (wo_ReadBody X conn) (\<lambda>t. ret (exchange_phases ex t)) start opts resp r')" for r'
    unfolding read_and_judge_def by (intro silent_intro wire_lawsD [OF assms])
  then show ?thesis unfolding Hop_final proxy_result_def hop_end.case hop_open.simps connBackedBody_Close_def
    by (intro triple_bind [OF silent_upto] triple_bind [OF upto_close [OF assms]] triple_ret)
qed (auto simp: proxy_result_def intro!: triple_ret triple_bind [OF silent_upto [OF wire_lawsD(1) [OF assms]]])

lemma no_auth_proxy_headers: "no_auth_key (po_Headers opts) \<Longrightarrow> no_auth_key (proxy_headers opts)"
proof -
  have "CanonicalHeaderKey ''Content-Type'' = ''Content-Type''"
    by (simp add: CanonicalHeaderKey_def token_char_def upper_char_def lower_char_def Let_def char_of_def)
  then show "no_auth_key (po_Headers opts) \<Longrightarrow> no_auth_key (proxy_headers opts)"
    by (auto simp: no_auth_key_def proxy_headers_def mkeys_mput)
qed

lemma upto_end:
  assumes "triple (tracks_upto mon A (mon w) S 0 {}) m (\<lambda>_. tracks_upto mon A (mon w) S k {})"
  shows "mo_open (mon (snd (run_state m w))) = mo_open (mon w)
    \<and> mo_dials (mon (snd (run_state m w))) \<le> mo_dials (mon w) + k
    \<and> (\<exists>l. mo_log (mon (snd (run_state m w))) = mo_log (mon w) @ l \<and> set l \<subseteq> {Some A} \<times> S)"
proof -
  have "tracks_upto mon A (mon w) S 0 {} w" by (auto simp: tracks_upto_def intro: tracks_start)
  from tripleD [OF assms this] show ?thesis by (auto simp: tracks_upto_def tracks_def)
qed

text \<open>
  C17: an HTTP probe through a proxy leaves no connection open and dials at most ten times, however often it
  is redirected, since the redirects are bounded. Every request is written to a connection that was dialled
  to the address of the proxy: either to the proxy itself, for an https proxy under TLS with its host as
  server name and verified as the proxy's setting says, or to a TLS connection with a target inside it, verified
  as the target's setting says; and no request to a target carries the credentials of the proxy (if the
  configured headers do not set \<^verbatim>\<open>Proxy-Authorization\<close> themselves).
\<close>

theorem HTTPProber_proxy_connections:
  assumes "wire_laws N X mon" and "HTTP_probeViaProxy U N X p u t = Some m"
    and "''Proxy-Authorization'' \<notin> CanonicalHeaderKey ` set (mkeys (po_Headers (tc_ProbeOpts t)))"
    and "M = mon w" and "M' = mon (snd (run_state m w))"
  shows "mo_open M' = mo_open M \<and> mo_dials M' \<le> mo_dials M + 10
    \<and> (\<exists>l. mo_log M' = mo_log M @ l \<and> list_all (\<lambda>(addr, c, req). addr = Some (hostPortForURL u) \<and>
         (to_proxy u (hp_proxyTLSSkipVerify p) c \<or> to_target u (hp_proxyTLSSkipVerify p) (hp_tlsSkipVerify p) c
          \<and> mget (rq_Header req) ''Proxy-Authorization'' = None)) l)"
proof -
  define A where "A = hostPortForURL u"
  let ?S = "auth_confined u (hp_proxyTLSSkipVerify p) (hp_tlsSkipVerify p)" and ?hs = "proxy_headers (tc_ProbeOpts t)"
  note now = triple_bind [OF silent_upto [OF wire_lawsD(1) [OF assms(1)]]]
  have hs: "no_auth_key ?hs" using assms(3) no_auth_proxy_headers by (simp add: no_auth_key_def)
  have loop: "triple (tracks_upto mon A M ?S 0 {}) (redirect_loop U N X p u rv ?hs nb (proxyRedirectLimit - 1) cu mth ?hs b seen)
      (\<lambda>x. tracks_upto mon A M ?S 10 (hop_open (snd x)))" for rv nb cu mth b seen
    using redirect_loop_upto [OF assms(1) hs hs refl A_def, where n = 0 and k = 9] by (simp add: proxyRedirectLimit_def)
  have "triple (tracks_upto mon A M ?S 0 {}) m (\<lambda>_. tracks_upto mon A M ?S 10 {})"
  proof (cases "uo_Parse U (tc_Address t)")
    case (Inl e)
    with assms(2) show ?thesis by (auto simp: HTTP_probeViaProxy_def intro!: now triple_ret intro: upto_mono)
  next
    case (Inr cu)
    with assms(2) obtain body where b: "request_body (tc_ProbeOpts t) = Some body"
      by (auto simp: HTTP_probeViaProxy_def Let_def split: option.splits)
    from assms(2) Inr b have m: "m = do {
        start \<leftarrow> op_Now N;
        x \<leftarrow> redirect_loop U N X p u (resolverFor (tc_DNSResolver t)) ?hs (po_RequestBodyBytes (tc_ProbeOpts t))
          (proxyRedirectLimit - 1) cu (default_method (tc_ProbeOpts t)) ?hs body zero_connectResp;
        (case x of (seen, h) \<Rightarrow> proxy_result N X start (tc_ProbeOpts t) h (connect_fields seen zero_result)) }"
      by (simp add: HTTP_probeViaProxy_def Let_def)
    show ?thesis unfolding m
    proof (rule now, rule triple_bind [OF loop], goal_cases)
      case (1 start x)
      show ?case by (cases x) (auto intro: proxy_result_upto [OF assms(1)])
    qed
  qed
  from upto_end [OF this [unfolded assms(4)]] assms(4,5) show ?thesis
    by (fastforce simp: auth_confined_def list_all_iff A_def)
qed

section \<open>Redirected requests and truncation\<close>

text \<open>
  A redirected request is safe to send: it carries a body only if a POST is redirected with 307 or 308,
  and then the same one; after 301, 302 and 303 the method is GET or HEAD and no header of the old body
  is left; and it has no header that was not configured.
\<close>

lemma redirectedRequest_safe:
  assumes "redirectedRequest method status headers n = (method', body', headers')"
  shows "(body' \<noteq> None \<longrightarrow> method = ''POST'' \<and> method' = ''POST'' \<and> status \<in> {307, 308} \<and> body' = requestBodyReader n)
    \<and> (status \<in> {301, 302, 303} \<longrightarrow> method' \<in> {''GET'', ''HEAD''}
         \<and> CanonicalHeaderKey ` set (mkeys headers') \<inter> {''Content-Type'', ''Content-Length''} = {})
    \<and> set (elems headers') \<subseteq> set (elems headers)"
proof -
  have strip: "CanonicalHeaderKey ` set (mkeys (stripRequestBodyHeaders hs)) \<inter> {''Content-Type'', ''Content-Length''} = {}"
    "set (elems (stripRequestBodyHeaders hs)) \<subseteq> set (elems hs)" for hs
    by (auto simp: stripRequestBodyHeaders_def mkeys_def)
  show ?thesis using assms strip [of headers] by (auto simp: redirectedRequest_def split: if_splits)
qed

text \<open>
  C19: the truncation flag is exact. For a body that can be read without an error and any limit below the
  largest integer, the response is reported as truncated exactly if the body is longer than the limit
  (1 MiB if none is configured).
\<close>

theorem HTTP_truncation_exact:
  assumes "\<And>n. rd n = ret (take n body, None)" and "po_ResponseBodyLimitBytes opts < 2 ^ 63 - 1"
    and "r = fst (run_state (read_and_judge N rd phases start opts resp r0) w)"
  shows "pr_HTTPTruncationEvaluated r \<and> (pr_HTTPResponseTruncated r \<longleftrightarrow> int (length body) > effectiveLimit opts)"
proof -
  have l: "0 < effectiveLimit opts" "effectiveLimit opts < 2 ^ 63 - 1"
    using assms(2) by (auto simp: effectiveLimit_def defaultResponseBodyLimit_def)
  then have i: "int64 (effectiveLimit opts + 1) = effectiveLimit opts + 1" by (intro int64_id) (simp add: in_int64_def)
  have rd: "read_limited rd n = ret (take n body, None)" for n
    by (simp add: read_limited_def assms(1))
  have v: "pr_HTTPTruncationEvaluated (status_verdict xs st q) = pr_HTTPTruncationEvaluated q"
    "pr_HTTPResponseTruncated (status_verdict xs st q) = pr_HTTPResponseTruncated q" for xs st q
    by (auto simp: status_verdict_def)
  have "int (length (take (nat (effectiveLimit opts + 1)) body)) > effectiveLimit opts \<longleftrightarrow> int (length body) > effectiveLimit opts"
    using l by (simp add: min_def) linarith
  then show ?thesis using assms(3) by (simp add: read_and_judge_def rd i v Let_def split: prod.splits)
qed

text \<open>
  At the largest integer \<^verbatim>\<open>effectiveLimit+1\<close> wraps to a negative number: nothing of the body is read, and a
  body of any length counts as not truncated.
\<close>

lemma limit_overflow_reads_nothing:
  assumes "po_ResponseBodyLimitBytes opts = 2 ^ 63 - 1"
  shows "read_limited rd (nat (int64 (effectiveLimit opts + 1))) = ret ([], None)"
  using assms by (simp add: effectiveLimit_def int64_def read_limited_def)

section \<open>Witnesses\<close>

definition redirecting :: Response where
  "redirecting = \<lparr>rs_StatusCode = 302, rs_Header = Some [(''Location'', ''/'')], rs_TLS = None\<rparr>"

definition follower :: HTTPProber where
  "follower = \<lparr>hp_tlsConfig = \<lparr>tls_ServerName = [], tls_InsecureSkipVerify = False\<rparr>, hp_tlsSkipVerify = False, hp_followRedirects = True, hp_proxyURL = Some proxy_url, hp_proxyTLSSkipVerify = False,
     hp_proxyAuthHeader = ''Basic dTpw''\<rparr>"

definition target_url :: URL where
  "target_url = zero_URL\<lparr>u_Scheme := ''https'', u_Host := ''h''\<rparr>"

lemma follower_starts: "HTTP_probeViaProxy (one_url target_url) wire_net (small_wire r b) follower proxy_url zero_target \<noteq> None"
  by (simp add: HTTP_probeViaProxy_def one_url_def request_body_def zero_target_def zero_opts_def Let_def)

text \<open>A target that redirects for ever.\<close>

theorem HTTPProber_proxy_connections_witness:
  "mo_dials (small_mon (snd (run_state (the (HTTP_probeViaProxy (one_url target_url) wire_net (small_wire redirecting [])
     follower proxy_url zero_target)) (world0 [7])))) \<le> 10"
proof -
  let ?p = "HTTP_probeViaProxy (one_url target_url) wire_net (small_wire redirecting []) follower proxy_url zero_target"
  have p: "?p = Some (the ?p)" using follower_starts by auto
  have "''Proxy-Authorization'' \<notin> CanonicalHeaderKey ` set (mkeys (po_Headers (tc_ProbeOpts zero_target)))"
    by (simp add: zero_target_def zero_opts_def mkeys_def)
  from HTTPProber_proxy_connections [OF small_wire_laws p this refl refl, of "world0 [7]"] show ?thesis
    by (simp add: small_mon_def)
qed

theorem HTTP_truncation_exact_witness:
  "pr_HTTPResponseTruncated (fst (run_state (read_and_judge wire_net (\<lambda>n. ret (take n ''abcd'', None)) (\<lambda>_. ret None) 1
     (zero_opts\<lparr>po_ResponseBodyLimitBytes := 3\<rparr>) (status_resp 200) zero_result) (world0 [])))"
  using HTTP_truncation_exact [of "\<lambda>n. ret (take n ''abcd'', None)" "''abcd''" "zero_opts\<lparr>po_ResponseBodyLimitBytes := 3\<rparr>" _
      wire_net "\<lambda>_. ret None" 1 "status_resp 200" zero_result "world0 []", OF refl _ refl]
  by (simp add: effectiveLimit_def)

definition small_client :: "Response \<Rightarrow> string \<Rightarrow> (small_world, nat) client_ops" where
  "small_client resp body =
     \<lparr>co_Do = (\<lambda>_ _. State (\<lambda>(t, cs, l, ds, b). (Inr (1, resp), (t, cs, l, ds, b\<lparr>ob_resp := Some resp, ob_body := None\<rparr>)))),
      co_Events = ret [(ConnectStart, 1), (ConnectDone, 2)],
      co_ReadBody = (\<lambda>_ n. State (\<lambda>(t, cs, l, ds, b).
        ((take n body, None), (t, cs, l, ds, b\<lparr>ob_body := Some (n, take n body, None)\<rparr>)))),
      co_CloseBody = (\<lambda>_. ret ())\<rparr>"

lemma small_client_observes: "client_observes (small_client resp body) small_obs"
  by (auto simp: client_observes_def small_client_def small_obs_def triple_def silent_def response_of_def)

theorem HTTPProber_success_iff_witness:
  "pr_Success (fst (run_state (the (HTTPProber_Probe (one_url target_url) wire_net (small_wire (status_resp 200) [])
     (small_client (status_resp 200) ''ok'') (follower\<lparr>hp_proxyURL := None\<rparr>) zero_target)) (world0 [])))"
proof -
  let ?p = "HTTPProber_Probe (one_url target_url) wire_net (small_wire (status_resp 200) [])
     (small_client (status_resp 200) ''ok'') (follower\<lparr>hp_proxyURL := None\<rparr>) zero_target"
  let ?B = "small_obs (snd (run_state (the ?p) (world0 [])))"
  have d: "HTTPProber_Probe U N X C (follower\<lparr>hp_proxyURL := None\<rparr>) t = HTTP_probeDirect U N C (follower\<lparr>hp_proxyURL := None\<rparr>) t"
    for U :: url_ops and N :: "('w, 'c) net_ops" and X and C :: "('w, 'b) client_ops" and t
    by (simp add: HTTPProber_Probe_def)
  have p: "?p = Some (the ?p)"
    by (simp add: d HTTP_probeDirect_def request_body_def zero_target_def zero_opts_def Let_def)
  have tc: "token_char CHR ''G'' \<and> token_char CHR ''E'' \<and> token_char CHR ''T''" by (simp add: token_char_def)
  have "ob_resp ?B = Some (status_resp 200) \<and> ob_body ?B = Some (1048577, ''ok'', None)"
    by (simp add: d HTTP_probeDirect_def request_body_def zero_target_def zero_opts_def Let_def NewRequest_def default_method_def
        one_url_def small_client_def wire_net_def read_and_judge_def read_limited_def direct_phases_def status_verdict_def
        response_fields_def status_resp_def effectiveLimit_def defaultResponseBodyLimit_def int64_def tc small_obs_def)
  moreover have "ob_body (small_obs (world0 [])) = None" by (simp add: small_obs_def no_obs_def)
  moreover have "po_ResponseBodyLimitBytes (tc_ProbeOpts zero_target) < 2 ^ 63 - 1" by (simp add: zero_target_def zero_opts_def)
  ultimately show ?thesis
    using HTTPProber_success_iff [OF small_wire_observes small_client_observes p _ _ refl refl refl refl]
    by (simp add: zero_target_def zero_opts_def effectiveLimit_def defaultResponseBodyLimit_def)
qed

end
