(* ===== verification/Probe_HTTP_Body.thy ===== *)
theory Probe_HTTP_Body
  imports Probe_HTTP_Facts
begin

text \<open>
  \<^verbatim>\<open>internal/probe/http_body.go\<close>: the prober that matches the body of a response. It shares the client, the
  exchange and the loop over redirects with the HTTP prober. \<^verbatim>\<open>regexp.Compile\<close> is a parameter; a compiled
  expression is the predicate \<^verbatim>\<open>MatchString\<close>.
\<close>

type_synonym regexp = "string \<Rightarrow> bool"

record HTTPBodyProber = HTTPProber +
  hb_compiledBodyMatchRegex :: "regexp option"
  hb_regexCompileErr :: "goerr option"

definition maxHTTPBodyBytes :: int where "maxHTTPBodyBytes = 2 ^ 20"

definition NewHTTPBodyProber ::
  "url_ops \<Rightarrow> (string \<Rightarrow> regexp res) \<Rightarrow> bool \<Rightarrow> bool \<Rightarrow> ResolvedProxyConfig option \<Rightarrow> string \<Rightarrow> HTTPBodyProber option" where
  "NewHTTPBodyProber U Compile tlsSkipVerify followRedirects proxyCfg bodyMatchRegex =
     (let compiled = (if bodyMatchRegex \<noteq> [] then Some (Compile bodyMatchRegex) else None);
          regex = (case compiled of Some (Inr re) \<Rightarrow> Some re | _ \<Rightarrow> None);
          err = (case compiled of Some (Inl e) \<Rightarrow> Some e | _ \<Rightarrow> None)
      in map_option (\<lambda>p. HTTPProber.extend p \<lparr>hb_compiledBodyMatchRegex = regex, hb_regexCompileErr = err\<rparr>)
           (NewHTTPProber U tlsSkipVerify followRedirects proxyCfg))"

definition matchBody :: "string \<Rightarrow> ProbeOptions \<Rightarrow> regexp option \<Rightarrow> bool" where
  "matchBody body opts compiledRegex =
     (case compiledRegex of
        Some re \<Rightarrow> re body
      | None \<Rightarrow>
          if po_BodyMatchRegex opts \<noteq> [] then False
          else if po_BodyMatchString opts \<noteq> [] then Contains body (po_BodyMatchString opts)
          else False)"

section \<open>Judging a response\<close>

text \<open>The end of both paths: the body is read and closed, and its size, the match and the status judged.\<close>

definition body_verdict :: "ProbeOptions \<Rightarrow> regexp option \<Rightarrow> int \<Rightarrow> string \<Rightarrow> ProbeResult \<Rightarrow> ProbeResult" where
  "body_verdict opts re status body r =
     (let matched = matchBody body opts re;
          expected = elems (po_ExpectedStatusCodes opts);
          statusMatch = (expected = [] \<or> status \<in> set expected);
          r1 = r\<lparr>pr_HTTPBodyEvaluated := True, pr_BodyMatch := matched, pr_Success := (matched \<and> statusMatch)\<rparr>
      in if matched \<and> statusMatch then r1
         else r1\<lparr>pr_Error := Some
           (if \<not> matched \<and> \<not> statusMatch
            then Errorf ''body match failed and unexpected status code %d (body length %d)'' [FInt status, FInt (int (length body))]
            else if \<not> matched
            then Errorf ''body match failed (status %d, body length %d)'' [FInt status, FInt (int (length body))]
            else Errorf ''unexpected status code %d'' [FInt status])\<rparr>)"

definition read_body_and_judge ::
  "('w, 'c) net_ops \<Rightarrow> (nat \<Rightarrow> ('w, string \<times> goerr option) io) \<Rightarrow> ('w, unit) io \<Rightarrow> (gotime \<Rightarrow> ('w, duration gomap) io)
     \<Rightarrow> ProbeOptions \<Rightarrow> regexp option \<Rightarrow> Response \<Rightarrow> ProbeResult \<Rightarrow> ('w, ProbeResult) io" where
  "read_body_and_judge N read close phases opts re resp r = do {
     (body, err) \<leftarrow> read_limited read (nat (maxHTTPBodyBytes + 1));
     close;
     transferEnd \<leftarrow> op_Now N;
     ps \<leftarrow> phases transferEnd;
     let r1 = r\<lparr>pr_HTTPResponseReceived := True, pr_StatusCode := rs_StatusCode resp, pr_Phases := ps\<rparr>;
     ret (case err of
            Some e \<Rightarrow> r1\<lparr>pr_Error := Some (Errorf ''reading response body: %s'' [FErr e])\<rparr>
          | None \<Rightarrow>
              if int (length body) > maxHTTPBodyBytes
              then r1\<lparr>pr_Error := Some (Errorf ''response body exceeds %d byte limit'' [FInt maxHTTPBodyBytes])\<rparr>
              else body_verdict opts re (rs_StatusCode resp) body r1)
   }"

section \<open>The prober\<close>

definition HTTPBody_probeDirect ::
  "url_ops \<Rightarrow> ('w, 'c) net_ops \<Rightarrow> ('w, 'b) client_ops \<Rightarrow> HTTPBodyProber \<Rightarrow> TargetConfig \<Rightarrow> ('w, ProbeResult) io" where
  "HTTPBody_probeDirect U N C p target =
     (let opts = tc_ProbeOpts target in
      case NewRequest U (default_method opts) (tc_Address target) None of
        Inl e \<Rightarrow> ret (zero_result\<lparr>pr_Error := Some (Errorf ''creating request: %s'' [FErr e])\<rparr>)
      | Inr req \<Rightarrow> do {
          res \<leftarrow> co_Do C (newClient p (resolverFor (tc_DNSResolver target)))
            (req\<lparr>rq_Header := set_headers (rq_Header req) (po_Headers opts)\<rparr>);
          (case res of
             Inl e \<Rightarrow> do {
               ps \<leftarrow> direct_phases C 0;
               ret (zero_result\<lparr>pr_Error := Some (Errorf ''http request: %s'' [FErr e]), pr_Phases := ps\<rparr>)
             }
           | Inr (rbody, resp) \<Rightarrow>
               read_body_and_judge N (co_ReadBody C rbody) (co_CloseBody C rbody) (direct_phases C) opts
                 (hb_compiledBodyMatchRegex p) resp zero_result)
        })"

definition body_proxy_result ::
  "('w, 'c) net_ops \<Rightarrow> ('w, 'c) wire_ops \<Rightarrow> ProbeOptions \<Rightarrow> regexp option \<Rightarrow> 'c hop_end \<Rightarrow> ProbeResult \<Rightarrow> ('w, ProbeResult) io" where
  "body_proxy_result N X opts re h r =
     (case h of
        Hop_failed ex e \<Rightarrow>
          ret (r\<lparr>pr_Error := Some (Errorf ''http request: %s'' [FErr e]), pr_Phases := exchange_phases ex 0\<rparr>)
      | Hop_bad_redirect e \<Rightarrow> ret (r\<lparr>pr_Error := Some (Errorf ''following redirect: %s'' [FErr e])\<rparr>)
      | Hop_limit ex \<Rightarrow>
          ret (r\<lparr>pr_Error := Some (Errorf ''stopped after 10 redirects'' []), pr_Phases := exchange_phases ex 0\<rparr>)
      | Hop_final ex resp conn \<Rightarrow>
          read_body_and_judge N (wo_ReadBody X conn) (connBackedBody_Close N conn) (\<lambda>t. ret (exchange_phases ex t)) opts re resp r)"

definition HTTPBody_probeViaProxy ::
  "url_ops \<Rightarrow> ('w, 'c) net_ops \<Rightarrow> ('w, 'c) wire_ops \<Rightarrow> HTTPBodyProber \<Rightarrow> URL \<Rightarrow> TargetConfig \<Rightarrow> ('w, ProbeResult) io" where
  "HTTPBody_probeViaProxy U N X p proxyURL target =
     (let opts = tc_ProbeOpts target in
      case uo_Parse U (tc_Address target) of
        Inl e \<Rightarrow> ret (zero_result\<lparr>pr_Error := Some (Errorf ''parse target URL: %s'' [FErr e])\<rparr>)
      | Inr currentURL \<Rightarrow> do {
          (seen, h) \<leftarrow> redirect_loop U N X p proxyURL (resolverFor (tc_DNSResolver target)) (po_Headers opts) 0
            (proxyRedirectLimit - 1) currentURL (default_method opts) (po_Headers opts) None zero_connectResp;
          body_proxy_result N X opts (hb_compiledBodyMatchRegex p) h (connect_fields seen zero_result)
        })"

definition HTTPBodyProber_Probe ::
  "url_ops \<Rightarrow> ('w, 'c) net_ops \<Rightarrow> ('w, 'c) wire_ops \<Rightarrow> ('w, 'b) client_ops \<Rightarrow> HTTPBodyProber \<Rightarrow> TargetConfig
     \<Rightarrow> ('w, ProbeResult) io" where
  "HTTPBodyProber_Probe U N X C p target = do {
     start \<leftarrow> op_Now N;
     r \<leftarrow> (case hb_regexCompileErr p of
          Some e \<Rightarrow> ret (zero_result\<lparr>pr_Error := Some (Errorf ''invalid body_match_regex: %s'' [FErr e])\<rparr>)
        | None \<Rightarrow>
            (case hp_proxyURL p of
               Some proxyURL \<Rightarrow> HTTPBody_probeViaProxy U N X p proxyURL target
             | None \<Rightarrow> HTTPBody_probeDirect U N C p target));
     stop \<leftarrow> op_Now N;
     ret (r\<lparr>pr_Duration := time_Sub stop start\<rparr>)
   }"

section \<open>Verdicts\<close>

text \<open>A result that says what the probe found: success is an evaluated body that matches and an expected status.\<close>

definition body_result_ok :: "ProbeOptions \<Rightarrow> ProbeResult \<Rightarrow> bool" where
  "body_result_ok opts r \<longleftrightarrow> result_ok r \<and> (pr_BodyMatch r \<longrightarrow> pr_HTTPBodyEvaluated r) \<and>
     pr_Success r = (pr_HTTPBodyEvaluated r \<and> pr_BodyMatch r \<and> pr_HTTPResponseReceived r \<and>
       (elems (po_ExpectedStatusCodes opts) = [] \<or> pr_StatusCode r \<in> set (elems (po_ExpectedStatusCodes opts))))"

definition body_unjudged :: "ProbeResult \<Rightarrow> bool" where
  "body_unjudged r \<longleftrightarrow> \<not> pr_Success r \<and> pr_Error r = None \<and> phases_ok (pr_Phases r) \<and> \<not> pr_HTTPBodyEvaluated r \<and> \<not> pr_BodyMatch r"

lemma body_unjudged_zero [simp]: "body_unjudged (connect_fields seen zero_result)" "body_unjudged zero_result"
  by (simp_all add: body_unjudged_def connect_fields_def zero_result_def)

lemma body_failed:
  "body_unjudged r \<Longrightarrow> body_result_ok opts (r\<lparr>pr_Error := Some e\<rparr>)"
  "body_unjudged r \<Longrightarrow> phases_ok ps \<Longrightarrow> body_result_ok opts (r\<lparr>pr_Error := Some e, pr_Phases := ps\<rparr>)"
  by (auto simp: body_result_ok_def body_unjudged_def result_ok_def)

lemma body_Duration [simp]: "body_result_ok opts (r\<lparr>pr_Duration := d\<rparr>) = body_result_ok opts r"
  by (simp add: body_result_ok_def result_ok_def)

lemma read_body_ok:
  assumes "body_unjudged r" "\<And>t. always (phases t) phases_ok"
  shows "always (read_body_and_judge N rd cl phases opts re resp r) (body_result_ok opts)"
proof -
  have "body_result_ok opts (case err of
        Some e \<Rightarrow> r1\<lparr>pr_Error := Some (Errorf ''reading response body: %s'' [FErr e])\<rparr>
      | None \<Rightarrow>
          if int (length body) > maxHTTPBodyBytes
          then r1\<lparr>pr_Error := Some (Errorf ''response body exceeds %d byte limit'' [FInt maxHTTPBodyBytes])\<rparr>
          else body_verdict opts re (rs_StatusCode resp) body r1)"
    if "r1 = r\<lparr>pr_HTTPResponseReceived := True, pr_StatusCode := rs_StatusCode resp, pr_Phases := ps\<rparr>" "phases_ok ps"
    for r1 ps err body
    using assms(1) that
    by (auto simp: body_result_ok_def body_unjudged_def result_ok_def body_verdict_def Let_def split: option.splits)
  then show ?thesis unfolding read_body_and_judge_def
    by (intro always_bindT always_case_prod always_bind [OF assms(2)] always_Let always_ret)
qed

lemma body_proxy_result_ok:
  "body_unjudged r \<Longrightarrow> hop_ok h \<Longrightarrow> always (body_proxy_result N X opts re h r) (body_result_ok opts)"
  by (cases h) (auto simp: body_proxy_result_def always_ret intro!: always_ret body_failed read_body_ok)

lemma HTTPBodyProber_ok: "always (HTTPBodyProber_Probe U N X C p t) (body_result_ok (tc_ProbeOpts t))"
proof -
  have direct: "always (HTTPBody_probeDirect U N C p t) (body_result_ok (tc_ProbeOpts t))"
    unfolding HTTPBody_probeDirect_def Let_def
    by (auto intro!: always_case_sum always_bindT always_ret body_failed read_body_ok direct_phases_ok
        always_bind [OF direct_phases_ok])
  have proxy: "always (HTTPBody_probeViaProxy U N X p u t) (body_result_ok (tc_ProbeOpts t))" for u
    unfolding HTTPBody_probeViaProxy_def Let_def
    by (auto intro!: always_case_sum always_ret body_failed always_bind [OF redirect_loop_ok] body_proxy_result_ok)
  have "always (case hb_regexCompileErr p of
          Some e \<Rightarrow> ret (zero_result\<lparr>pr_Error := Some (Errorf ''invalid body_match_regex: %s'' [FErr e])\<rparr>)
        | None \<Rightarrow> (case hp_proxyURL p of
               Some proxyURL \<Rightarrow> HTTPBody_probeViaProxy U N X p proxyURL t
             | None \<Rightarrow> HTTPBody_probeDirect U N C p t)) (body_result_ok (tc_ProbeOpts t))"
    by (intro always_case_option direct proxy always_ret body_failed) simp
  then show ?thesis unfolding HTTPBodyProber_Probe_def
    by (intro always_bindT always_bind [where Q = "body_result_ok (tc_ProbeOpts t)"]) (auto intro!: always_bindT always_ret)
qed

interpretation http_body: prober "HTTPBodyProber_Probe U N X C p"
  for U :: url_ops and N :: "('w, 'c) net_ops" and X :: "('w, 'c) wire_ops" and C :: "('w, 'b) client_ops" and p
  by unfold_locales (auto intro: always_mono [OF HTTPBodyProber_ok] simp: body_result_ok_def)

text \<open>
  An HTTP body probe succeeds exactly if a response was received, its body was evaluated and matches,
  and its status is an expected one (any, if none is configured); a match is only ever reported for an
  evaluated body.
\<close>

lemma HTTPBodyProber_success_iff:
  fixes U :: url_ops and N :: "('w, 'c) net_ops" and X :: "('w, 'c) wire_ops" and C :: "('w, 'b) client_ops"
  assumes "r = fst (run_state (HTTPBodyProber_Probe U N X C p t) w)"
    and "expected = elems (po_ExpectedStatusCodes (tc_ProbeOpts t))"
  shows "(pr_Success r \<longleftrightarrow> pr_HTTPBodyEvaluated r \<and> pr_BodyMatch r \<and> pr_HTTPResponseReceived r
      \<and> (expected = [] \<or> pr_StatusCode r \<in> set expected))
    \<and> (pr_BodyMatch r \<longrightarrow> pr_HTTPBodyEvaluated r)"
  using alwaysD [OF HTTPBodyProber_ok [of U N X C p t], of w] assms by (simp add: body_result_ok_def)


section \<open>Connections\<close>

lemma body_proxy_result_upto:
  assumes "wire_laws N X mon"
  shows "triple (tracks_upto mon A M S n (hop_open h)) (body_proxy_result N X opts re h r) (\<lambda>_. tracks_upto mon A M S n {})"
proof (cases h)
  case (Hop_final ex resp conn)
  have rd: "silent mon (read_limited (wo_ReadBody X conn) k)" for k
    by (intro silent_intro wire_lawsD [OF assms])
  note now = triple_bind [OF silent_upto [OF wire_lawsD(1) [OF assms]]]
  show ?thesis
    unfolding Hop_final body_proxy_result_def hop_end.case hop_open.simps read_body_and_judge_def connBackedBody_Close_def
  proof (rule triple_bind [OF silent_upto [OF rd]], goal_cases)
    case (1 x)
    show ?case by (cases x)
        (auto simp: Let_def intro!: triple_bind [OF upto_close [OF assms]] now triple_bind [OF silent_upto [OF silent_ret]] triple_ret)
  qed
qed (auto simp: body_proxy_result_def intro!: triple_ret)

text \<open>Through a proxy an HTTP body probe keeps the same discipline as an HTTP probe.\<close>

lemma HTTPBody_proxy_connections:
  assumes "wire_laws N X mon" and "no_auth_key (po_Headers (tc_ProbeOpts t))"
    and "M' = mon (snd (run_state (HTTPBody_probeViaProxy U N X p u t) w))"
  shows "mo_open M' = mo_open (mon w) \<and> mo_dials M' \<le> mo_dials (mon w) + 10
    \<and> (\<exists>l. mo_log M' = mo_log (mon w) @ l
         \<and> set l \<subseteq> {Some (hostPortForURL u)} \<times> auth_confined u (hp_proxyTLSSkipVerify p) (hp_tlsSkipVerify p))"
proof -
  define A where "A = hostPortForURL u"
  let ?S = "auth_confined u (hp_proxyTLSSkipVerify p) (hp_tlsSkipVerify p)" and ?hs = "po_Headers (tc_ProbeOpts t)"
  have loop: "triple (tracks_upto mon A (mon w) ?S 0 {}) (redirect_loop U N X p u rv ?hs nb (proxyRedirectLimit - 1) cu mth ?hs b seen)
      (\<lambda>x. tracks_upto mon A (mon w) ?S 10 (hop_open (snd x)))" for rv nb cu mth b seen
    using redirect_loop_upto [OF assms(1,2,2) refl A_def, where n = 0 and k = 9] by (simp add: proxyRedirectLimit_def)
  have "triple (tracks_upto mon A (mon w) ?S 0 {}) (HTTPBody_probeViaProxy U N X p u t) (\<lambda>_. tracks_upto mon A (mon w) ?S 10 {})"
  proof (cases "uo_Parse U (tc_Address t)")
    case (Inl e)
    then show ?thesis by (auto simp: HTTPBody_probeViaProxy_def intro!: triple_ret intro: upto_mono)
  next
    case (Inr cu)
    show ?thesis unfolding HTTPBody_probeViaProxy_def Let_def Inr sum.case
    proof (rule triple_bind [OF loop], goal_cases)
      case (1 x)
      show ?case by (cases x) (auto intro: body_proxy_result_upto [OF assms(1)])
    qed
  qed
  from upto_end [OF this] assms(3) show ?thesis by (simp add: A_def)
qed

section \<open>Witnesses\<close>

definition plain_body_prober :: HTTPBodyProber where
  "plain_body_prober = \<lparr>hp_tlsConfig = \<lparr>tls_ServerName = [], tls_InsecureSkipVerify = False\<rparr>, hp_tlsSkipVerify = False, hp_followRedirects = False, hp_proxyURL = None, hp_proxyTLSSkipVerify = False,
     hp_proxyAuthHeader = [], hb_compiledBodyMatchRegex = None, hb_regexCompileErr = None\<rparr>"


definition ok_target :: TargetConfig where
  "ok_target = zero_target\<lparr>tc_ProbeOpts := zero_opts\<lparr>po_BodyMatchString := ''ok''\<rparr>\<rparr>"

end
