(* ===== verification/Probers.thy ===== *)
theory Probers
  imports Probe_DNS Probe_ICMP Probe_MTU Probe_HTTP_Body Config_Facts
begin

text \<open>
  The choice of a prober for a target (\<^verbatim>\<open>newProber\<close> of \<^verbatim>\<open>cmd/agent/main.go\<close>) and the interface \<^verbatim>\<open>Prober\<close> of
  \<^verbatim>\<open>internal/probe/prober.go\<close> over all implementations. The outside world of all probers is one record.
\<close>

record ('w, 'c, 'b, 's) probe_env =
  pe_url :: url_ops
  pe_net :: "('w, 'c) net_ops"
  pe_wire :: "('w, 'c) wire_ops"
  pe_client :: "('w, 'b) client_ops"
  pe_icmp :: "('w, 's) icmp_ops"
  pe_mtu :: "'w mtuProbeBackend"
  pe_Compile :: "string \<Rightarrow> regexp res"

datatype prober_kind = TCPProber | HTTPProber_with HTTPProber | ICMPProber | MTUProber | DNSProber | TLSCertProber
  | HTTPBodyProber_with HTTPBodyProber | ProxyProber

text \<open>\<open>None\<close> is a panic: of the default case, or of a constructor over the endpoint of the proxy.\<close>

definition newProber :: "('w, 'c, 'b, 's) probe_env \<Rightarrow> TargetConfig \<Rightarrow> prober_kind option" where
  "newProber P target =
     (let ty = tc_ProbeType target; opts = tc_ProbeOpts target in
      if ty = ProbeTypeTCP then Some TCPProber
      else if ty = ProbeTypeHTTP then
        map_option HTTPProber_with
          (NewHTTPProber (pe_url P) (po_TLSSkipVerify opts) (po_FollowRedirects opts) (tc_ResolvedProxy target))
      else if ty = ProbeTypeICMP then Some ICMPProber
      else if ty = ProbeTypeMTU then Some MTUProber
      else if ty = ProbeTypeDNS then Some DNSProber
      else if ty = ProbeTypeTLSCert then Some TLSCertProber
      else if ty = ProbeTypeHTTPBody then
        map_option HTTPBodyProber_with
          (NewHTTPBodyProber (pe_url P) (pe_Compile P) (po_TLSSkipVerify opts) (po_FollowRedirects opts)
            (tc_ResolvedProxy target) (po_BodyMatchRegex opts))
      else if ty = ProbeTypeProxyConnect then Some ProxyProber
      else None)"

text \<open>The call \<^verbatim>\<open>prober.Probe(ctx, target)\<close>; \<open>None\<close> is a panic before the first call to the outside.\<close>

fun Prober_Probe :: "('w, 'c, 'b, 's) probe_env \<Rightarrow> prober_kind \<Rightarrow> TargetConfig \<Rightarrow> ('w, ProbeResult) io option" where
  "Prober_Probe P TCPProber t = Some (TCP_Probe (pe_net P) t)"
| "Prober_Probe P (HTTPProber_with p) t = HTTPProber_Probe (pe_url P) (pe_net P) (pe_wire P) (pe_client P) p t"
| "Prober_Probe P ICMPProber t = Some (ICMP_Probe (pe_net P) (pe_icmp P) t)"
| "Prober_Probe P MTUProber t = Some (MTU_Probe (pe_net P) (pe_mtu P) t)"
| "Prober_Probe P DNSProber t = Some (DNS_Probe (pe_net P) t)"
| "Prober_Probe P TLSCertProber t = TLSCertProber_Probe (pe_url P) (pe_net P) (pe_wire P) t"
| "Prober_Probe P (HTTPBodyProber_with p) t =
     Some (HTTPBodyProber_Probe (pe_url P) (pe_net P) (pe_wire P) (pe_client P) p t)"
| "Prober_Probe P ProxyProber t = ProxyProber_Probe (pe_url P) (pe_net P) (pe_wire P) t"

text \<open>Every implementation of the interface keeps its contract.\<close>

lemma Prober_Probe_ok: "Prober_Probe P p t = Some m \<Longrightarrow> always m result_ok"
  by (cases p)
    (auto intro: tcp.probe_ok http.probe_ok icmp.probe_ok mtu.probe_ok dns.probe_ok tls.probe_ok http_body.probe_ok
      proxy.probe_ok)

interpretation any_prober: partial_prober "Prober_Probe P p" for P :: "('w, 'c, 'b, 's) probe_env" and p
  by unfold_locales (rule Prober_Probe_ok)

section \<open>Panics\<close>

text \<open>
  What is documented of \<^verbatim>\<open>url.ParseRequestURI\<close> and \<^verbatim>\<open>URL.String\<close> on URLs that name a host only: the printed
  form of a parsed URL, with its scheme and host in lower case, parses again to that URL.
\<close>

definition lowered :: "URL \<Rightarrow> URL" where
  "lowered v = v\<lparr>u_Scheme := ToLower (u_Scheme v), u_Host := ToLower (u_Host v), u_RawPath := []\<rparr>"

definition host_only :: "URL \<Rightarrow> bool" where
  "host_only v \<longleftrightarrow> u_Opaque v = [] \<and> u_Host v \<noteq> [] \<and> u_User v = None \<and> u_Path v = [] \<and> u_RawQuery v = [] \<and> u_Fragment v = []"

definition uri_reparses :: "uri_parser \<Rightarrow> bool" where
  "uri_reparses parse \<longleftrightarrow>
     (\<forall>raw v. parse raw = Some v \<and> host_only v \<longrightarrow> parse (bare_String (lowered v)) = Some (lowered v))"

lemma lower_char_fixed:
  "c \<in> {CHR '':'', CHR ''['', CHR '']''} \<Longrightarrow> (lower_char d = c) = (d = c)"
proof -
  have up: "65 \<le> (of_char d :: nat) \<and> (of_char d :: nat) \<le> 90 \<Longrightarrow> lower_char d = char_of ((of_char d :: nat) + 32)"
    and same: "\<not> (65 \<le> (of_char d :: nat) \<and> (of_char d :: nat) \<le> 90) \<Longrightarrow> lower_char d = d"
    by (auto simp: lower_char_def Let_def)
  assume c: "c \<in> {CHR '':'', CHR ''['', CHR '']''}"
  show "(lower_char d = c) = (d = c)"
  proof (cases "65 \<le> (of_char d :: nat) \<and> (of_char d :: nat) \<le> 90")
    case True
    then have "(of_char (lower_char d) :: nat) = of_char d + 32" by (simp add: up)
    with True c show ?thesis by auto
  qed (simp add: same)
qed

lemma lower_char_digit: "digit_val (lower_char d) = digit_val d"
proof (cases "65 \<le> (of_char d :: nat) \<and> (of_char d :: nat) \<le> 90")
  case True
  then have "(of_char (lower_char d) :: nat) = of_char d + 32" by (simp add: lower_char_def Let_def)
  with True show ?thesis by (simp add: digit_val_def Let_def)
qed (auto simp: lower_char_def Let_def)

lemma digit_lower: "digit_val d \<noteq> None \<Longrightarrow> lower_char d = d"
  by (auto simp: digit_val_def lower_char_def Let_def split: if_splits)

lemma before_first_ToLower:
  assumes "c \<in> {CHR '':'', CHR ''['', CHR '']''}"
  shows "before_first c (ToLower s) = map_option (map_prod ToLower ToLower) (before_first c s)"
proof -
  have "(\<lambda>d. d \<noteq> c) \<circ> lower_char = (\<lambda>d. d \<noteq> c)" using lower_char_fixed [OF assms] by auto
  moreover have "c \<in> lower_char ` set s \<longleftrightarrow> c \<in> set s" using lower_char_fixed [OF assms] by (metis image_iff)
  ultimately show ?thesis
    by (simp add: before_first_def ToLower_def takeWhile_map dropWhile_map map_tl)
qed

lemma before_last_ToLower:
  assumes "c \<in> {CHR '':'', CHR ''['', CHR '']''}"
  shows "before_last c (ToLower s) = map_option (map_prod ToLower ToLower) (before_last c s)"
  using before_first_ToLower [OF assms, of "rev s"]
  by (auto simp: before_last_def ToLower_def rev_map split: option.splits)

lemma all_digits_ToLower: "all_digits (ToLower s) = all_digits s"
  by (simp add: all_digits_def ToLower_def list_all_iff lower_char_digit)

lemma ToLower_digits: "all_digits s \<Longrightarrow> ToLower s = s"
  unfolding all_digits_def ToLower_def list_all_iff by (rule map_idI) (simp add: digit_lower)

lemma bracketed_ToLower:
  "HasPrefix (ToLower h) ''['' = HasPrefix h ''['' \<and> HasSuffix (ToLower h) '']'' = HasSuffix h '']''"
proof -
  have p: "HasPrefix (ToLower s) [c] = HasPrefix s [c]" if "c \<in> {CHR ''['', CHR '']''}" for s c
    using lower_char_fixed [of c] that by (cases s) (auto simp: ToLower_def)
  have "rev (ToLower h) = ToLower (rev h)" by (simp add: ToLower_def rev_map)
  then show ?thesis by (simp add: HasSuffix_def p)
qed

lemma url_split_ToLower: "url_split (ToLower s) = map_prod ToLower id (url_split s)"
  by (auto simp: url_split_def Let_def before_last_ToLower all_digits_ToLower ToLower_digits bracketed_ToLower
      split: option.splits) (simp_all add: ToLower_def map_butlast map_tl)

lemma lowered_parts: "Hostname (lowered v) = ToLower (Hostname v)" "Port (lowered v) = Port v"
  by (simp_all add: Hostname_def Port_def lowered_def url_split_ToLower)

lemma endpoint_reparses:
  assumes "uri_reparses parse" "ProxyURL_Parse parse url = Inr u"
  shows "ProxyURL_Parse parse (ProxyURL_Endpoint u) = Inr (u\<lparr>u_RawPath := []\<rparr>)"
proof -
  from ProxyURL_ParseD [OF assms(2)] obtain v where v: "parse url = Some v"
      "u = v\<lparr>u_Scheme := ToLower (u_Scheme v), u_Host := ToLower (u_Host v), u_User := None\<rparr>"
    and ok: "u_Opaque v = []" "ToLower (u_Scheme v) \<in> {''http'', ''https''}" "Hostname v \<noteq> []" "u_User v = None"
      "u_Path v = []" "u_RawQuery v = []" "u_Fragment v = []"
      "Port v = [] \<or> (\<exists>n. ParseUint16 (Port v) = Some n \<and> 0 < n \<and> n \<le> 65535)" by auto
  have "u_Host v \<noteq> []" using ok(3) by (auto simp: Hostname_def url_split_def before_last_def before_first_def)
  with ok have h: "host_only v" by (simp add: host_only_def)
  have l: "lowered v = u\<lparr>u_RawPath := []\<rparr>" using ok(4) by (simp add: lowered_def v(2))
  have "ProxyURL_Endpoint u = bare_String (lowered v)"
    using ok by (simp add: ProxyURL_Endpoint_def bare_String_def lowered_def v(2))
  with assms(1) v(1) h have p: "parse (ProxyURL_Endpoint u) = Some (lowered v)"
    unfolding uri_reparses_def by metis
  have port: "\<not> (Port v \<noteq> [] \<and> (case ParseUint16 (Port v) of None \<Rightarrow> True | Some n \<Rightarrow> n = 0))"
    using ok(8) by (auto split: option.splits)
  have f: "u_Opaque (lowered v) = []" "u_Scheme (lowered v) = ToLower (u_Scheme v)" "u_User (lowered v) = None"
    "u_Path (lowered v) = []" "u_RawQuery (lowered v) = []" "u_Fragment (lowered v) = []"
    "u_Host (lowered v) = ToLower (u_Host v)"
    using ok by (simp_all add: lowered_def)
  have i: "(lowered v)\<lparr>u_Scheme := ToLower (u_Scheme v), u_Host := ToLower (u_Host v), u_User := None\<rparr> = lowered v"
    using ok(4) by (simp add: lowered_def)
  have "ProxyURL_Parse parse (ProxyURL_Endpoint u) = Inr (lowered v)"
    using ok(2,3) port unfolding ProxyURL_Parse_def p option.case f lowered_parts ToLower_idem i
    by (simp add: list.pred_inject)
  with l show ?thesis by simp
qed

text \<open>The endpoint of a resolved proxy, if a target has one, is that of a parsed URL.\<close>

definition endpoint_parsed :: "uri_parser \<Rightarrow> TargetConfig \<Rightarrow> bool" where
  "endpoint_parsed parse t \<longleftrightarrow>
     (\<forall>rp. tc_ResolvedProxy t = Some rp \<longrightarrow> (\<exists>raw u. ProxyURL_Parse parse raw = Inr u \<and> rp_Endpoint rp = ProxyURL_Endpoint u))"

lemma endpoint_parsed_must:
  assumes "uri_reparses (uo_ParseRequestURI U)" "endpoint_parsed (uo_ParseRequestURI U) t" "tc_ResolvedProxy t = Some rp"
  shows "mustProxyEndpoint U (rp_Endpoint rp) \<noteq> None"
  using assms endpoint_reparses [OF assms(1)] by (force simp: endpoint_parsed_def mustProxyEndpoint_def)

lemma NewHTTPProber_starts:
  assumes "uri_reparses (uo_ParseRequestURI U)" "endpoint_parsed (uo_ParseRequestURI U) t"
  shows "NewHTTPProber U a b (tc_ResolvedProxy t) \<noteq> None" "NewHTTPBodyProber U C a b (tc_ResolvedProxy t) x \<noteq> None"
  using endpoint_parsed_must [OF assms]
  by (auto simp: NewHTTPProber_def NewHTTPBodyProber_def Let_def split: option.splits)

lemma request_body_starts: "opts_ok t \<Longrightarrow> request_body (tc_ProbeOpts t) \<noteq> None"
  by (auto simp: opts_ok_def request_body_def requestBodyReader_def Let_def)

lemma prober_starts:
  assumes "uri_reparses (uo_ParseRequestURI (pe_url P))" "endpoint_parsed (uo_ParseRequestURI (pe_url P)) t" "target_ok t"
  shows "\<exists>p m. newProber P t = Some p \<and> Prober_Probe P p t = Some m"
proof -
  have "newProber P t \<noteq> None"
    using assms(3) NewHTTPProber_starts [OF assms(1,2)]
    by (auto simp: target_ok_def newProber_def ValidProbeTypes_def Let_def)
  then obtain p where p: "newProber P t = Some p" by auto
  have o2: "opts_ok t" using assms(3) by (simp add: target_ok_def)
  have "Prober_Probe P p t \<noteq> None"
    using endpoint_parsed_must [OF assms(1,2)] request_body_starts [OF o2]
    by (cases p) (auto simp: HTTPProber_Probe_def HTTP_probeViaProxy_def HTTP_probeDirect_def TLSCertProber_Probe_def
        TLS_probeViaProxy_def ProxyProber_Probe_def Let_def split: option.splits sum.splits prod.splits)
  with p show ?thesis by auto
qed

end
