(* ===== verification/Agent.thy ===== *)
theory Agent
  imports Scheduler_Facts Probers
begin

text \<open>
  \<^verbatim>\<open>cmd/agent/main.go\<close>: start-up, the reload on SIGHUP, the metrics of the agent itself, the log level
  and the HTTP endpoints (the choice of a prober is in \<open>Probers\<close>). The agent drives the running scheduler: \<open>agent_step\<close>
  lets the goroutines and the main goroutine of the scheduler move, and adds what \<^verbatim>\<open>run\<close> and
  \<^verbatim>\<open>handleReload\<close> do before and after them. The configuration file may change at any time, so every
  reload reads its own environment.
\<close>

section \<open>Logging and metrics of the agent\<close>

datatype LogLevel = LevelDebug | LevelInfo | LevelWarn | LevelError

definition parseLogLevel :: "string \<Rightarrow> LogLevel" where
  "parseLogLevel level =
     (if level = ''debug'' then LevelDebug
      else if level = ''warn'' then LevelWarn
      else if level = ''error'' then LevelError
      else LevelInfo)"

definition mustConfigHash :: "digest \<Rightarrow> Config \<Rightarrow> string" where
  "mustConfigHash digest cfg = (case ComputeHash digest cfg of Inl _ \<Rightarrow> ''unknown'' | Inr h \<Rightarrow> h)"

text \<open>The variables \<^verbatim>\<open>version\<close>, \<^verbatim>\<open>revision\<close> and \<^verbatim>\<open>buildDate\<close> that the linker sets.\<close>

record build_info =
  b_version :: string
  b_revision :: string
  b_buildDate :: string

definition updateAgentMetrics ::
  "'v vec_ops \<Rightarrow> digest \<Rightarrow> build_info \<Rightarrow> gotime \<Rightarrow> Config \<Rightarrow> 'v MetricsExporter \<Rightarrow> 'v MetricsExporter" where
  "updateAgentMetrics V digest B now cfg e =
     SetConfigReloadTimestamp V now
       (SetTargetsTotal V (slen (cf_Targets cfg))
         (SetConfigInfo V (mustConfigHash digest cfg)
           (SetBuildInfo V (b_version B) (b_revision B) (b_buildDate B) e)))"

section \<open>The HTTP endpoints\<close>

text \<open>
  The handlers of the multiplexer by pattern; registering a pattern twice panics. A request is
  served by the pattern equal to its path, or else by the longest pattern that ends in a slash and
  is a prefix of it. Redirections to a cleaned path are not modelled.
\<close>

datatype handler = MetricsHandler | PlainText int string

type_synonym mux = "(string \<times> handler) list"

definition mux_Handle :: "string \<Rightarrow> handler \<Rightarrow> mux option \<Rightarrow> mux option" where
  "mux_Handle pattern h mux =
     (case mux of None \<Rightarrow> None | Some m \<Rightarrow> if map_of m pattern = None then Some ((pattern, h) # m) else None)"

definition newHTTPMux :: "string \<Rightarrow> mux option" where
  "newHTTPMux metricsPath =
     mux_Handle ''/readyz'' (PlainText 200 (''ok'' @ [CHR 10]))
       (mux_Handle ''/healthz'' (PlainText 200 (''ok'' @ [CHR 10]))
         (mux_Handle metricsPath MetricsHandler (Some [])))"

fun longest_prefix :: "string \<Rightarrow> mux \<Rightarrow> (string \<times> handler) option" where
  "longest_prefix path [] = None"
| "longest_prefix path ((p, h) # m) =
     (let r = longest_prefix path m in
      if HasSuffix p ''/'' \<and> HasPrefix path p \<and> (case r of None \<Rightarrow> True | Some (q, _) \<Rightarrow> length q < length p)
      then Some (p, h) else r)"

definition mux_ServeHTTP :: "mux \<Rightarrow> string \<Rightarrow> handler option" where
  "mux_ServeHTTP m path =
     (case map_of m path of Some h \<Rightarrow> Some h | None \<Rightarrow> map_option snd (longest_prefix path m))"

section \<open>Start-up and reload\<close>

text \<open>The values that \<^verbatim>\<open>run\<close> passes to every \<^verbatim>\<open>handleReload\<close>: those of the configuration at start-up.\<close>

record startup =
  st_tagKeys :: "string list"
  st_logFormat :: string
  st_listenAddr :: string
  st_metricsPath :: string
  st_enableRuntimeMetrics :: bool

definition startup_of :: "Config \<Rightarrow> startup" where
  "startup_of cfg = \<lparr>st_tagKeys = CollectTagKeys cfg, st_logFormat = ac_LogFormat (cf_Agent cfg),
     st_listenAddr = ac_ListenAddr (cf_Agent cfg), st_metricsPath = ac_MetricsPath (cf_Agent cfg),
     st_enableRuntimeMetrics = ac_EnableRuntimeMetrics (cf_Agent cfg)\<rparr>"

text \<open>The checks of \<^verbatim>\<open>handleReload\<close>: the reason of a rejection, or the configuration to apply.\<close>

datatype reject = LoadFailed goerr | TagKeysChanged | LogFormatChanged | ListenAddrChanged
  | MetricsPathChanged | EnableRuntimeMetricsChanged

definition checkReload :: "cfg_env \<Rightarrow> string \<Rightarrow> startup \<Rightarrow> reject + Config" where
  "checkReload E configPath st =
     (case LoadConfig E configPath of
        Inl e \<Rightarrow> Inl (LoadFailed e)
      | Inr newCfg \<Rightarrow>
          if st_tagKeys st \<noteq> CollectTagKeys newCfg then Inl TagKeysChanged
          else if ac_LogFormat (cf_Agent newCfg) \<noteq> st_logFormat st then Inl LogFormatChanged
          else if ac_ListenAddr (cf_Agent newCfg) \<noteq> st_listenAddr st then Inl ListenAddrChanged
          else if ac_MetricsPath (cf_Agent newCfg) \<noteq> st_metricsPath st then Inl MetricsPathChanged
          else if ac_EnableRuntimeMetrics (cf_Agent newCfg) \<noteq> st_enableRuntimeMetrics st
          then Inl EnableRuntimeMetricsChanged
          else Inr newCfg)"

text \<open>
  \<open>a_cfg\<close> is the configuration in force: the one of the start-up or of the last accepted reload.
  The program counter tells whether \<^verbatim>\<open>sched.Start\<close>, \<^verbatim>\<open>sched.Reload\<close> or the shutdown is under way.
\<close>

datatype apc = AStart | AIdle | AReload | AShutdown

record 'v agent =
  a_sys :: "'v sys"
  a_startup :: startup
  a_level :: LogLevel
  a_cfg :: Config
  a_pc :: apc

datatype 'v start_result = StartExit goerr | StartPanic | StartOk "'v agent"

definition override_listen :: "string \<Rightarrow> Config \<Rightarrow> Config" where
  "override_listen listenAddr cfg =
     (if listenAddr \<noteq> [] then cfg\<lparr>cf_Agent := (cf_Agent cfg)\<lparr>ac_ListenAddr := listenAddr\<rparr>\<rparr> else cfg)"

text \<open>\<^verbatim>\<open>run\<close> up to the call of \<^verbatim>\<open>sched.Start\<close>.\<close>

definition run_start :: "'v vec_ops \<Rightarrow> cfg_env \<Rightarrow> string \<Rightarrow> string \<Rightarrow> 'v start_result" where
  "run_start V E configPath listenAddr =
     (case LoadConfig E configPath of
        Inl e \<Rightarrow> StartExit e
      | Inr cfg0 \<Rightarrow>
          let cfg = override_listen listenAddr cfg0 in
          case NewMetricsExporter V (CollectTagKeys cfg) of
            None \<Rightarrow> StartPanic
          | Some exporter \<Rightarrow> StartOk
              \<lparr>a_sys = init_sys (elems (cf_Targets cfg)) (ac_InitialProbeJitter (cf_Agent cfg)) exporter,
               a_startup = startup_of cfg, a_level = parseLogLevel (ac_LogLevel (cf_Agent cfg)),
               a_cfg = cfg, a_pc = AStart\<rparr>)"

text \<open>
  What the program relies on of the YAML decoder: a decoded map has no key twice, and a duration
  fits into 64 bits.
\<close>

definition yaml_ok :: "cfg_env \<Rightarrow> bool" where
  "yaml_ok E \<longleftrightarrow> (\<forall>data cfg0. env_LoadYAML E data = Inr cfg0 \<longrightarrow>
     mok (cf_Proxies cfg0) \<and> in_int64 (ac_InitialProbeJitter (cf_Agent cfg0))
     \<and> list_all (\<lambda>t. tc_ResolvedProxy t = None) (elems (cf_Targets cfg0)))"

inductive agent_step ::
  "'v vec_ops \<Rightarrow> digest \<Rightarrow> build_info \<Rightarrow> string \<Rightarrow> 'v agent \<Rightarrow> 'v agent \<Rightarrow> bool" for V digest B path where
  Agent_go: "go_step V i (a_sys a) s' \<Longrightarrow> agent_step V digest B path a (a\<lparr>a_sys := s'\<rparr>)"
| Agent_main: "s_main (a_sys a) \<noteq> MIdle \<Longrightarrow> main_step V digest (a_sys a) s' \<Longrightarrow>
    agent_step V digest B path a (a\<lparr>a_sys := s'\<rparr>)"
| Agent_started: "a_pc a = AStart \<Longrightarrow> s_main (a_sys a) = MIdle \<Longrightarrow>
    agent_step V digest B path a (a\<lparr>a_pc := AIdle,
      a_sys := (a_sys a)\<lparr>s_exp := updateAgentMetrics V digest B now (a_cfg a) (s_exp (a_sys a))\<rparr>\<rparr>)"
| Agent_rejected: "a_pc a = AIdle \<Longrightarrow> checkReload E path (a_startup a) = Inl reason \<Longrightarrow>
    agent_step V digest B path a a"
| Agent_reload: "a_pc a = AIdle \<Longrightarrow> s_main (a_sys a) = MIdle \<Longrightarrow> yaml_ok E \<Longrightarrow>
    checkReload E path (a_startup a) = Inr newCfg \<Longrightarrow> main_step V digest (a_sys a) s' \<Longrightarrow>
    s_main s' = MStopping toStop [] toStart \<Longrightarrow> s_goal s' = elems (cf_Targets newCfg) \<Longrightarrow>
    s_jitter s' = ac_InitialProbeJitter (cf_Agent newCfg) \<Longrightarrow>
    agent_step V digest B path a (a\<lparr>a_pc := AReload, a_sys := s', a_cfg := newCfg\<rparr>)"
| Agent_reloaded: "a_pc a = AReload \<Longrightarrow> s_main (a_sys a) = MIdle \<Longrightarrow>
    agent_step V digest B path a (a\<lparr>a_pc := AIdle, a_level := parseLogLevel (ac_LogLevel (cf_Agent (a_cfg a))),
      a_sys := (a_sys a)\<lparr>s_exp := updateAgentMetrics V digest B now (a_cfg a) (s_exp (a_sys a))\<rparr>\<rparr>)"
| Agent_shutdown: "a_pc a = AIdle \<Longrightarrow> s_main (a_sys a) = MIdle \<Longrightarrow> main_step V digest (a_sys a) s' \<Longrightarrow>
    s_main s' = MCancelling ns \<Longrightarrow> agent_step V digest B path a (a\<lparr>a_pc := AShutdown, a_sys := s'\<rparr>)"

inductive agent_reachable ::
  "'v vec_ops \<Rightarrow> digest \<Rightarrow> build_info \<Rightarrow> string \<Rightarrow> string \<Rightarrow> 'v agent \<Rightarrow> bool" for V digest B path listenAddr where
  agent_init: "yaml_ok E \<Longrightarrow> run_start V E path listenAddr = StartOk a \<Longrightarrow> agent_reachable V digest B path listenAddr a"
| agent_next: "agent_reachable V digest B path listenAddr a \<Longrightarrow> agent_step V digest B path a a' \<Longrightarrow>
    agent_reachable V digest B path listenAddr a'"

section \<open>The configuration in force\<close>

lemma checkReload_accepts:
  "checkReload E path st = Inr cfg \<longleftrightarrow> LoadConfig E path = Inr cfg \<and> startup_of cfg = st"
  by (cases st) (auto simp: checkReload_def startup_of_def split: sum.splits if_splits)

lemma loaded_config:
  assumes "yaml_ok E" and "LoadConfig E path = Inr cfg"
  shows "distinct (map tc_Name (elems (cf_Targets cfg)))" "in_int64 (ac_InitialProbeJitter (cf_Agent cfg))"
    "\<forall>t \<in> set (elems (cf_Targets cfg)). target_ok t"
proof -
  from assms(2) obtain data cfg0 where cfg0: "env_LoadYAML E data = Inr cfg0" "validate E (applyDefaults cfg0) = Inr cfg"
    by (rule LoadConfigE)
  have m: "mok (cf_Proxies (applyDefaults cfg0))" and j: "in_int64 (ac_InitialProbeJitter (cf_Agent cfg0))"
    using assms(1) cfg0(1) by (simp_all add: yaml_ok_def)
  note v = validate_result [OF cfg0(2) m]
  show "distinct (map tc_Name (elems (cf_Targets cfg)))" "\<forall>t \<in> set (elems (cf_Targets cfg)). target_ok t"
    using attached_list(1,6) [OF v(2)] v(5,6) by simp_all
  show "in_int64 (ac_InitialProbeJitter (cf_Agent cfg))"
    using j v(1) by (simp add: applyDefaults_def apply_agent_defaults_def Let_def)
qed

lemma override_listen_simps [simp]:
  "cf_Targets (override_listen l cfg) = cf_Targets cfg"
  "ac_InitialProbeJitter (cf_Agent (override_listen l cfg)) = ac_InitialProbeJitter (cf_Agent cfg)"
  "ac_LogLevel (cf_Agent (override_listen l cfg)) = ac_LogLevel (cf_Agent cfg)"
  by (simp_all add: override_listen_def)

lemma sched_inv_exp [simp]: "sched_inv digest (s\<lparr>s_exp := e\<rparr>) = sched_inv digest s"
  by (simp add: sched_inv_def flight_inv_def plan_inv_def stop_inv_def wait_inv_def wg_inv_def counted_def live_def)

lemma main_step_goal:
  assumes "main_step V digest s s'" "s_main s \<noteq> MIdle"
  shows "s_goal s' = s_goal s \<and> (stopping (s_main s') \<longleftrightarrow> stopping (s_main s))"
  using assms(1)
proof cases
  case (Reload_stop t ts w st)
  with stop_one_main [of V t ts w st s] show ?thesis by (auto simp: stopping_def)
qed (use assms(2) in \<open>auto simp: stopping_def startTarget_def cancel_def\<close>)

lemma go_step_main: "go_step V i s s' \<Longrightarrow> s_main s' = s_main s \<and> s_goal s' = s_goal s"
  using local_same [OF go_step_local] by metis

lemma obs_Record_config:
  assumes "vec_laws V"
  shows "obs V (Record V t r e) configInfo l = obs V e configInfo l"
  unfolding Record_def obs_run_ops [OF assms]
  by (intro obs_run_other_metric) (auto simp: record_defs Let_def dest: cert_ops_metric split: if_splits)

lemma go_step_config:
  assumes "vec_laws V" and "go_step V i s s'"
  shows "obs V (s_exp s') configInfo = obs V (s_exp s) configInfo"
  using assms(2)
  by (induction rule: go_step.induct)
    (auto simp: set_pc_def obs_Record_config [OF assms(1)] IncrSkippedOverlap_def obs_run_ops [OF assms(1)])

lemma obs_updateAgentMetrics:
  assumes "vec_laws V"
  shows "obs V (updateAgentMetrics V digest B now cfg e) configInfo = [[''hash'' \<mapsto> mustConfigHash digest cfg] \<mapsto> 1]"
  by (simp add: updateAgentMetrics_def SetConfigReloadTimestamp_def SetTargetsTotal_def SetConfigInfo_def
      SetBuildInfo_def obs_run_ops [OF assms])

definition agent_inv :: "'v vec_ops \<Rightarrow> digest \<Rightarrow> 'v agent \<Rightarrow> bool" where
  "agent_inv V digest a \<longleftrightarrow>
     sched_inv digest (a_sys a) \<and> startup_of (a_cfg a) = a_startup a
   \<and> (a_pc a = AIdle \<longrightarrow> s_main (a_sys a) = MIdle
        \<and> a_level a = parseLogLevel (ac_LogLevel (cf_Agent (a_cfg a)))
        \<and> obs V (s_exp (a_sys a)) configInfo = [[''hash'' \<mapsto> mustConfigHash digest (a_cfg a)] \<mapsto> 1])
   \<and> (a_pc a = AStart \<longrightarrow> a_level a = parseLogLevel (ac_LogLevel (cf_Agent (a_cfg a))))
   \<and> (a_pc a \<noteq> AShutdown \<longrightarrow> \<not> stopping (s_main (a_sys a)) \<and> s_goal (a_sys a) = elems (cf_Targets (a_cfg a)))"

lemma agent_inv_init:
  assumes "yaml_ok E" and "run_start V E path l = StartOk a"
  shows "agent_inv V digest a"
proof -
  from assms(2) obtain cfg0 e where c: "LoadConfig E path = Inr cfg0"
    and a: "a = \<lparr>a_sys = init_sys (elems (cf_Targets cfg0)) (ac_InitialProbeJitter (cf_Agent cfg0)) e,
       a_startup = startup_of (override_listen l cfg0), a_level = parseLogLevel (ac_LogLevel (cf_Agent cfg0)),
       a_cfg = override_listen l cfg0, a_pc = AStart\<rparr>"
    by (auto simp: run_start_def Let_def split: sum.splits option.splits)
  note L = loaded_config [OF assms(1) c]
  have "sched_inv digest (a_sys a)"
    unfolding a agent.simps by (rule reachable_inv [OF reach_init [OF L(1,2)]])
  then show ?thesis unfolding agent_inv_def by (simp add: a init_sys_def stopping_def)
qed

lemma agent_inv_step:
  assumes "vec_laws V" and "agent_step V digest B path a a'" and "agent_inv V digest a"
  shows "agent_inv V digest a'"
  using assms(2)
proof cases
  case (Agent_go i s')
  note m = go_step_main [OF Agent_go(2)] and c = go_step_config [OF assms(1) Agent_go(2)]
  have "sched_inv digest s'" using inv_local_step [OF go_step_local [OF Agent_go(2)]] assms(3) by (simp add: agent_inv_def)
  with assms(3) m c show ?thesis unfolding Agent_go(1) by (simp add: agent_inv_def)
next
  case (Agent_main s')
  have "sched_inv digest s'" using inv_main_step [OF Agent_main(3)] assms(3) by (simp add: agent_inv_def)
  with assms(3) main_step_goal [OF Agent_main(3,2)] Agent_main(2) show ?thesis
    unfolding Agent_main(1) by (auto simp: agent_inv_def)
next
  case (Agent_started now)
  then show ?thesis using assms(3) by (simp add: agent_inv_def obs_updateAgentMetrics [OF assms(1)])
next
  case (Agent_reload E newCfg s' toStop toStart)
  have "sched_inv digest s'" using inv_main_step [OF Agent_reload(6)] assms(3) by (simp add: agent_inv_def)
  with Agent_reload show ?thesis by (auto simp: agent_inv_def checkReload_accepts stopping_def)
next
  case (Agent_reloaded now)
  then show ?thesis using assms(3) by (simp add: agent_inv_def obs_updateAgentMetrics [OF assms(1)])
next
  case (Agent_shutdown s')
  have "sched_inv digest s'" using inv_main_step [OF Agent_shutdown(4)] assms(3) by (simp add: agent_inv_def)
  with Agent_shutdown assms(3) show ?thesis by (simp add: agent_inv_def)
qed (use assms(3) in simp)

lemma agent_reachable_inv:
  "agent_reachable V digest B path l a \<Longrightarrow> vec_laws V \<Longrightarrow> agent_inv V digest a"
  by (induction rule: agent_reachable.induct) (blast intro: agent_inv_init agent_inv_step)+


text \<open>
  A reload applies a configuration exactly if the file loads and none of the settings that need
  a restart differs from start-up; every other reload leaves the whole agent as it was.
\<close>

lemma reload_all_or_nothing:
  "checkReload E path st = Inr cfg \<longleftrightarrow> LoadConfig E path = Inr cfg \<and> CollectTagKeys cfg = st_tagKeys st
     \<and> ac_LogFormat (cf_Agent cfg) = st_logFormat st \<and> ac_ListenAddr (cf_Agent cfg) = st_listenAddr st
     \<and> ac_MetricsPath (cf_Agent cfg) = st_metricsPath st
     \<and> ac_EnableRuntimeMetrics (cf_Agent cfg) = st_enableRuntimeMetrics st"
  unfolding checkReload_accepts by (cases st) (auto simp: startup_of_def)

text \<open>
  C10: started with a \<^verbatim>\<open>--listen-addr\<close> that differs from the one in the file, the agent rejects every
  reload of that file, changed or not, since it compares the address of the file with the
  overridden one.
\<close>

theorem listen_override_blocks_reload:
  assumes "run_start V E path l = StartOk a" and "l \<noteq> []"
    and "LoadConfig E' path = Inr cfg'" and "ac_ListenAddr (cf_Agent cfg') \<noteq> l"
  shows "\<exists>reason. checkReload E' path (a_startup a) = Inl reason"
proof -
  have "st_listenAddr (a_startup a) = l"
    using assms(1,2) by (auto simp: run_start_def override_listen_def startup_of_def Let_def split: sum.splits option.splits)
  then have "startup_of cfg' \<noteq> a_startup a" using assms(4) by (metis startup.select_convs(3) startup_of_def)
  then have "checkReload E' path (a_startup a) \<noteq> Inr cfg" for cfg
    using assms(3) by (auto simp: checkReload_accepts)
  then show ?thesis by (metis sumE)
qed

lemma defaults_keep_proxy:
  "list_all (\<lambda>t. tc_ResolvedProxy t = None) (elems (cf_Targets cfg0)) \<Longrightarrow>
     list_all (\<lambda>t. tc_ResolvedProxy t = None) (elems (cf_Targets (applyDefaults cfg0)))"
  by (cases "cf_Targets cfg0") (auto simp: applyDefaults_def apply_target_defaults_def Let_def list_all_iff)

lemma loaded_endpoints:
  assumes "yaml_ok E" and "LoadConfig E path = Inr cfg" and "t \<in> set (elems (cf_Targets cfg))"
  shows "endpoint_parsed (env_ParseURI E) t"
proof -
  from assms(2) obtain data cfg0 where cfg0: "env_LoadYAML E data = Inr cfg0" "validate E (applyDefaults cfg0) = Inr cfg"
    by (rule LoadConfigE)
  have m: "mok (cf_Proxies (applyDefaults cfg0))"
    and n: "list_all (\<lambda>t. tc_ResolvedProxy t = None) (elems (cf_Targets (applyDefaults cfg0)))"
    using assms(1) cfg0(1) defaults_keep_proxy by (simp_all add: yaml_ok_def)
  note v = validate_result [OF cfg0(2) m]
  from assms(3) v(2) obtain t0 where t0: "t0 \<in> set (elems (cf_Targets (applyDefaults cfg0)))" "proxy_attached (cf_Proxies cfg) t0 t"
    unfolding list_all2_conv_all_nth in_set_conv_nth by metis
  show ?thesis unfolding endpoint_parsed_def
  proof (intro allI impI)
    fix rp
    assume rp: "tc_ResolvedProxy t = Some rp"
    with t0 n obtain p' where p': "mget (cf_Proxies cfg) (tc_ProxyName t0) = Some p'" "rp = resolved_of p'"
      by (auto simp: proxy_attached_def list_all_iff)
    with spec [OF v(3) [unfolded registry_of_def], of "tc_ProxyName t0"] obtain p where "proxy_ok E (tc_ProxyName t0) p p'"
      by (auto split: option.splits)
    then obtain u where "ProxyURL_Parse (env_ParseURI E) (pc_URL p) = Inr u" "pc_Endpoint p' = ProxyURL_Endpoint u"
      by (auto simp: proxy_ok_def)
    with p'(2) show "\<exists>url u. ProxyURL_Parse (env_ParseURI E) url = Inr u \<and> rp_Endpoint rp = ProxyURL_Endpoint u"
      by (auto simp: resolved_of_def)
  qed
qed

text \<open>
  C11: no probe of a loaded configuration panics. For every target a prober is chosen and its probe starts,
  whatever the file says: the type of the probe is known, the canonical endpoint of its proxy parses
  again, and the size of the request body is within the pattern. And whatever the network does, the
  result has an error exactly if it is no success, and no phase that the exporter does not know, which is
  what the scheduler relies on.
\<close>

theorem probes_start_and_report:
  assumes "yaml_ok E" and "LoadConfig E path = Inr cfg" and "t \<in> set (elems (cf_Targets cfg))"
    and "env_ParseURI E = uo_ParseRequestURI (pe_url P)" and "uri_reparses (env_ParseURI E)"
  shows "\<exists>p m. newProber P t = Some p \<and> Prober_Probe P p t = Some m
    \<and> (\<forall>w. (pr_Success (fst (run_state m w)) \<longleftrightarrow> pr_Error (fst (run_state m w)) = None)
         \<and> set (mkeys (pr_Phases (fst (run_state m w)))) \<subseteq> set AllPhases)"
proof -
  have "target_ok t" using loaded_config(3) [OF assms(1,2)] assms(3) by blast
  with prober_starts loaded_endpoints [OF assms(1-3)] assms(4,5)
  obtain p m where pm: "newProber P t = Some p" "Prober_Probe P p t = Some m" by metis
  note any_prober.error_iff_failure [OF pm(2)] any_prober.known_phases_only [OF pm(2)]
  with pm show ?thesis by blast
qed

text \<open>
  With a metrics path that validation accepts, registering the endpoints does not panic, the
  metrics are served at that path, and both health endpoints answer \<^verbatim>\<open>ok\<close>, whatever the path.
\<close>

lemma endpoints_served:
  assumes "validateMetricsPath p = None"
  shows "\<exists>m. newHTTPMux p = Some m \<and> mux_ServeHTTP m p = Some MetricsHandler
    \<and> mux_ServeHTTP m ''/healthz'' = Some (PlainText 200 (''ok'' @ [CHR 10]))
    \<and> mux_ServeHTTP m ''/readyz'' = Some (PlainText 200 (''ok'' @ [CHR 10]))"
proof -
  have "p \<noteq> ''/healthz''" "p \<noteq> ''/readyz''" using assms by (auto simp: validateMetricsPath_def)
  then show ?thesis by (simp add: newHTTPMux_def mux_Handle_def mux_ServeHTTP_def)
qed

section \<open>Witnesses\<close>

lemma demo_load: "LoadConfig demo_env ''c'' = Inr demo_config"
  using demo_loads by (simp add: LoadConfig_def demo_env_def)

lemma demo_yaml_ok: "yaml_ok demo_env"
  using demo_mok(2) by (simp add: yaml_ok_def demo_env_def demo_raw_def zero_agent_def zero_target_def in_int64_def Second_def)

text \<open>The parser of the example that knows the lowered form too, and a world for its probes.\<close>

definition proxy_env :: cfg_env where
  "proxy_env = demo_env\<lparr>env_ParseURI :=
     (\<lambda>s. Some (if s = ''http://proxy.example:3128'' then lowered demo_url else demo_url))\<rparr>"

definition proxy_world :: "(small_world, nat, nat, nat) probe_env" where
  "proxy_world =
     \<lparr>pe_url = (one_url demo_url)\<lparr>uo_ParseRequestURI := env_ParseURI proxy_env\<rparr>, pe_net = wire_net,
      pe_wire = small_wire (status_resp 200) [], pe_client = small_client (status_resp 200) [],
      pe_icmp = \<lparr>ic_Listen = ret (Inr 0), ic_sendEcho = (\<lambda>_ _ _ _. ret (1, True, None)), ic_Close = (\<lambda>_. ret ()),
        ic_Wait = (\<lambda>_. ret True)\<rparr>,
      pe_mtu = unsupportedMTUBackend, pe_Compile = (\<lambda>_. Inr (\<lambda>_. True))\<rparr>"

theorem probes_start_and_report_witness:
  "\<exists>cfg t. LoadConfig proxy_env ''c'' = Inr cfg \<and> t \<in> set (elems (cf_Targets cfg)) \<and> tc_ResolvedProxy t \<noteq> None
     \<and> newProber proxy_world t = Some ProxyProber \<and> Prober_Probe proxy_world ProxyProber t \<noteq> None"
proof -
  let ?cfg = "case LoadConfig proxy_env ''c'' of Inr c \<Rightarrow> c | Inl _ \<Rightarrow> demo_raw"
  let ?t = "elems (cf_Targets ?cfg) ! 1"
  have c: "LoadConfig proxy_env ''c'' = Inr ?cfg" "?t \<in> set (elems (cf_Targets ?cfg))" "tc_ResolvedProxy ?t \<noteq> None"
      "tc_ProbeType ?t = ProbeTypeProxyConnect"
    by (simp_all add: LoadConfig_def proxy_env_def demo_eval)
  have y: "yaml_ok proxy_env" using demo_yaml_ok by (simp add: yaml_ok_def proxy_env_def)
  have p: "env_ParseURI proxy_env = uo_ParseRequestURI (pe_url proxy_world)" by (simp add: proxy_world_def)
  have "bare_String (lowered demo_url) = ''http://proxy.example:3128''"
    by (simp add: bare_String_def lowered_def demo_url_def go_eval)
  moreover have "lowered (lowered demo_url) = lowered demo_url" by (simp add: lowered_def)
  ultimately have u: "uri_reparses (env_ParseURI proxy_env)"
    by (auto simp: uri_reparses_def proxy_env_def)
  from probes_start_and_report [OF y c(1,2) p u]
  obtain k m where "newProber proxy_world ?t = Some k" "Prober_Probe proxy_world k ?t = Some m" by blast
  moreover have "newProber proxy_world ?t = Some ProxyProber" if "newProber proxy_world ?t = Some k" for k
    using that unfolding newProber_def c(4) by (simp add: go_eval)
  ultimately show ?thesis using c(1-3) by fastforce
qed

lemma demo_started: "\<exists>a. run_start map_vec demo_env ''c'' l = StartOk a \<and> a_cfg a = override_listen l demo_config"
proof -
  have k: "CollectTagKeys (override_listen l demo_config) = [''env'']"
    by (simp add: override_listen_def CollectTagKeys_def collectDynamicTagKeys_def demo_eval)
  have "NewMetricsExporter map_vec [''env''] \<noteq> None"
    by (simp add: NewMetricsExporter_def all_metrics_def map_vec_def baseLabels_def go_eval)
  then show ?thesis by (auto simp: run_start_def demo_load k Let_def)
qed

theorem listen_override_blocks_reload_witness:
  "\<exists>a reason. run_start map_vec demo_env ''c'' ''127.0.0.1:1'' = StartOk a
     \<and> checkReload demo_env ''c'' (a_startup a) = Inl reason"
proof -
  obtain a where a: "run_start map_vec demo_env ''c'' ''127.0.0.1:1'' = StartOk a" using demo_started by blast
  have "ac_ListenAddr (cf_Agent demo_config) \<noteq> ''127.0.0.1:1''" by (simp add: demo_eval)
  from listen_override_blocks_reload [OF a _ demo_load this] a show ?thesis by auto
qed

text \<open>Start-up completes: the agent comes to wait for signals.\<close>

lemma agent_start_completes:
  assumes "agent_reachable V digest B path l a" "a_pc a = AStart" "s_main (a_sys a) = MStarting ts"
  shows "\<exists>a'. agent_reachable V digest B path l a' \<and> a_pc a' = AIdle \<and> a_cfg a' = a_cfg a"
  using assms
proof (induction ts arbitrary: a)
  case Nil
  let ?s = "(a_sys a)\<lparr>s_main := MIdle\<rparr>"
  have "agent_step V digest B path a (a\<lparr>a_sys := ?s\<rparr>)"
    by (rule Agent_main [OF _ Start_end [OF Nil(3)]]) (simp add: Nil(3))
  from agent_next [OF agent_next [OF Nil(1) this] Agent_started [where now = 0]] Nil(2) show ?case by fastforce
next
  case (Cons t ts)
  have "agent_step V digest B path a (a\<lparr>a_sys := (startTarget V t (a_sys a))\<lparr>s_main := MStarting ts\<rparr>\<rparr>)"
    by (rule Agent_main [OF _ Start_one [OF Cons.prems(3)]]) (simp add: Cons.prems(3))
  from Cons.IH [OF agent_next [OF Cons.prems(1) this]] Cons.prems(2) show ?case by simp
qed

definition demo_build :: build_info where
  "demo_build = \<lparr>b_version = ''dev'', b_revision = ''unknown'', b_buildDate = ''unknown''\<rparr>"


end
