(* ===== verification/Probe_Ping.thy ===== *)
theory Probe_Ping
  imports Probe_ICMP Probe_MTU "HOL-Library.Word"
begin

text \<open>
  The part of \<^verbatim>\<open>internal/probe/icmp.go\<close> that talks to the socket: \<^verbatim>\<open>sendEcho\<close>, and with it the whole ICMP
  prober. The package \<^verbatim>\<open>golang.org/x/net/icmp\<close> is the record \<open>icmp_pkg\<close> and its packet connection the record
  \<open>packet_ops\<close>. The loop that reads replies ends when the deadline of the connection has passed, so it gets
  fuel: \<open>None\<close> is a loop that is still running, and \<open>sendEcho_returns\<close> bounds the fuel by the time that
  is left. The locale \<open>echo_sender\<close> is what the sequence of echoes needs of a sender.
\<close>

section \<open>Messages and contexts\<close>

type_synonym byte = "8 word"

datatype icmp_body = Echo int int "byte list" | OtherBody

record icmp_message =
  im_Type :: int
  im_Code :: int
  im_Body :: icmp_body

record icmp_pkg =
  ip_Marshal :: "icmp_message \<Rightarrow> byte list res"
  ip_ParseMessage :: "int \<Rightarrow> byte list \<Rightarrow> icmp_message res"

definition ICMPTypeEcho :: int where "ICMPTypeEcho = 8"
definition ICMPTypeEchoReply :: int where "ICMPTypeEchoReply = 0"

text \<open>What is documented of the package: the sequence number of a parsed echo is that of the header, of 16 bits.\<close>

definition parses_seq16 :: "icmp_pkg \<Rightarrow> bool" where
  "parses_seq16 M \<longleftrightarrow>
     (\<forall>p bs m i q d. ip_ParseMessage M p bs = Inr m \<and> im_Body m = Echo i q d \<longrightarrow> 0 \<le> q \<and> q < 2 ^ 16)"

definition echo_message :: "int \<Rightarrow> int \<Rightarrow> nat \<Rightarrow> icmp_message" where
  "echo_message icmpID seq n = \<lparr>im_Type = ICMPTypeEcho, im_Code = 0, im_Body = Echo icmpID seq (replicate n 0)\<rparr>"

record 'w ctx =
  cx_Err :: "('w, goerr option) io"
  cx_Deadline :: "gotime option"

text \<open>The address that comes with a packet; a nil \<^verbatim>\<open>net.IP\<close> is \<open>None\<close>. \<^verbatim>\<open>IP.Equal\<close> identifies both forms of IPv4.\<close>

datatype net_addr = UDPAddr "ip option" | IPAddr "ip option" | OtherAddr

fun peer_ip :: "net_addr \<Rightarrow> ip option" where
  "peer_ip (UDPAddr p) = p"
| "peer_ip (IPAddr p) = p"
| "peer_ip OtherAddr = None"

record ('w, 's) packet_ops =
  pk_SetDeadline :: "'s \<Rightarrow> gotime \<Rightarrow> ('w, goerr option) io"
  pk_WriteTo :: "'s \<Rightarrow> byte list \<Rightarrow> ipv4 \<Rightarrow> ('w, goerr option) io"
  pk_ReadFrom :: "'s \<Rightarrow> nat \<Rightarrow> ('w, goerr + byte list \<times> net_addr) io"

section \<open>One echo\<close>

text \<open>The checks of the reading loop: an echo reply, of this sequence number, from the destination.\<close>

definition reply_matches :: "icmp_pkg \<Rightarrow> ipv4 \<Rightarrow> int \<Rightarrow> byte list \<Rightarrow> net_addr \<Rightarrow> bool" where
  "reply_matches M dst seq data peer =
     (case ip_ParseMessage M 1 data of
        Inl _ \<Rightarrow> False
      | Inr reply \<Rightarrow>
          if im_Type reply \<noteq> ICMPTypeEchoReply then False
          else (case im_Body reply of
             OtherBody \<Rightarrow> False
           | Echo _ q _ \<Rightarrow>
               if q \<noteq> seq then False
               else (case peer_ip peer of None \<Rightarrow> False | Some p \<Rightarrow> To4 p = Some dst)))"

fun read_replies ::
  "icmp_pkg \<Rightarrow> ('w, 'c) net_ops \<Rightarrow> ('w, 's) packet_ops \<Rightarrow> 'w ctx \<Rightarrow> 's \<Rightarrow> ipv4 \<Rightarrow> int \<Rightarrow> gotime \<Rightarrow> nat
     \<Rightarrow> ('w, (duration \<times> bool \<times> goerr option) option) io" where
  "read_replies M N K ctx conn dst seq start 0 = ret None"
| "read_replies M N K ctx conn dst seq start (Suc fuel) = do {
     ce \<leftarrow> cx_Err ctx;
     (case ce of
        Some e \<Rightarrow> ret (Some (0, True, Some e))
      | None \<Rightarrow> do {
          rd \<leftarrow> pk_ReadFrom K conn 1500;
          (case rd of
             Inl e \<Rightarrow> ret (Some (0, True, Some (Errorf ''read icmp: %w'' [FErr e])))
           | Inr (data, peer) \<Rightarrow> do {
               now \<leftarrow> op_Now N;
               if reply_matches M dst seq data peer then ret (Some (time_Sub now start, True, None))
               else read_replies M N K ctx conn dst seq start fuel
             })
        })
   }"

definition echo_deadline :: "('w, 'c) net_ops \<Rightarrow> 'w ctx \<Rightarrow> ('w, gotime) io" where
  "echo_deadline N ctx =
     (case cx_Deadline ctx of Some d \<Rightarrow> ret d | None \<Rightarrow> do { now \<leftarrow> op_Now N; ret (now + 5 * Second) })"

definition sendEcho ::
  "icmp_pkg \<Rightarrow> ('w, 'c) net_ops \<Rightarrow> ('w, 's) packet_ops \<Rightarrow> 'w ctx \<Rightarrow> nat \<Rightarrow> 's \<Rightarrow> ipv4 \<Rightarrow> int \<Rightarrow> int
     \<Rightarrow> ('w, (duration \<times> bool \<times> goerr option) option) io" where
  "sendEcho M N K ctx fuel conn dst icmpID seq =
     (case ip_Marshal M (echo_message icmpID seq 56) of
        Inl e \<Rightarrow> ret (Some (0, False, Some (Errorf ''marshal icmp: %w'' [FErr e])))
      | Inr msgBytes \<Rightarrow> do {
          deadline \<leftarrow> echo_deadline N ctx;
          derr \<leftarrow> pk_SetDeadline K conn deadline;
          (case derr of
             Some e \<Rightarrow> ret (Some (0, False, Some (Errorf ''set deadline: %w'' [FErr e])))
           | None \<Rightarrow> do {
               start \<leftarrow> op_Now N;
               werr \<leftarrow> pk_WriteTo K conn msgBytes dst;
               (case werr of
                  Some e \<Rightarrow> ret (Some (0, False, Some (Errorf ''write icmp: %w'' [FErr e])))
                | None \<Rightarrow> read_replies M N K ctx conn dst seq start fuel)
             })
        })"

text \<open>\<^verbatim>\<open>waitForPingInterval\<close>; which case its \<^verbatim>\<open>select\<close> takes is up to the world.\<close>

datatype select_case = CtxDone | TimerFired

definition waitForPingInterval :: "(duration \<Rightarrow> ('w, select_case) io) \<Rightarrow> duration \<Rightarrow> ('w, bool) io" where
  "waitForPingInterval select interval = do {
     c \<leftarrow> select interval;
     ret (case c of CtxDone \<Rightarrow> False | TimerFired \<Rightarrow> True)
   }"

text \<open>The operations of the ICMP prober with this sender.\<close>

definition echo_or_running :: "(duration \<times> bool \<times> goerr option) option \<Rightarrow> duration \<times> bool \<times> goerr option" where
  "echo_or_running r = (case r of Some x \<Rightarrow> x | None \<Rightarrow> (0, True, Some (SysErr ''still reading'')))"

definition ping_ops ::
  "icmp_pkg \<Rightarrow> ('w, 'c) net_ops \<Rightarrow> ('w, 's) packet_ops \<Rightarrow> 'w ctx \<Rightarrow> nat \<Rightarrow> ('w, goerr + 's) io \<Rightarrow> ('s \<Rightarrow> ('w, unit) io)
     \<Rightarrow> (duration \<Rightarrow> ('w, select_case) io) \<Rightarrow> ('w, 's) icmp_ops" where
  "ping_ops M N K ctx fuel listen close select =
     \<lparr>ic_Listen = listen,
      ic_sendEcho = (\<lambda>conn dst icmpID seq. do {
        r \<leftarrow> sendEcho M N K ctx fuel conn dst icmpID (int seq);
        ret (echo_or_running r)
      }),
      ic_Close = close, ic_Wait = waitForPingInterval select\<rparr>"

section \<open>Time and packets\<close>

text \<open>
  What the socket and the clock promise, in terms of a view of the world: the clock, the packets read
  so far, and the deadline of each connection. Time does not go back. A read takes time; it returns a
  packet only if it was called before the deadline. No other call reads packets or moves a deadline.
\<close>

record 's ping_view =
  pv_clock :: gotime
  pv_log :: "(byte list \<times> net_addr) list"
  pv_deadline :: "'s \<Rightarrow> gotime"

definition passes :: "('w \<Rightarrow> 's ping_view) \<Rightarrow> ('w, 'a) io \<Rightarrow> bool" where
  "passes V m \<longleftrightarrow> (\<forall>w. pv_clock (V w) \<le> pv_clock (V (snd (run_state m w)))
     \<and> pv_log (V (snd (run_state m w))) = pv_log (V w) \<and> pv_deadline (V (snd (run_state m w))) = pv_deadline (V w))"

definition ping_laws :: "('w, 'c) net_ops \<Rightarrow> ('w, 's) packet_ops \<Rightarrow> 'w ctx \<Rightarrow> ('w \<Rightarrow> 's ping_view) \<Rightarrow> bool" where
  "ping_laws N K ctx V \<longleftrightarrow>
     passes V (op_Now N) \<and> passes V (cx_Err ctx) \<and> (\<forall>c bs dst. passes V (pk_WriteTo K c bs dst))
     \<and> (\<forall>w. fst (run_state (op_Now N) w) = pv_clock (V (snd (run_state (op_Now N) w))))
     \<and> (\<forall>c d w w' e. run_state (pk_SetDeadline K c d) w = (e, w') \<longrightarrow>
          pv_clock (V w) \<le> pv_clock (V w') \<and> pv_log (V w') = pv_log (V w) \<and> (e = None \<longrightarrow> pv_deadline (V w') c = d))
     \<and> (\<forall>c n w w' r. run_state (pk_ReadFrom K c n) w = (r, w') \<longrightarrow>
          pv_deadline (V w') = pv_deadline (V w) \<and>
          (case r of
             Inl _ \<Rightarrow> pv_clock (V w) \<le> pv_clock (V w') \<and> pv_log (V w') = pv_log (V w)
           | Inr p \<Rightarrow> pv_clock (V w) < pv_clock (V w') \<and> pv_clock (V w) < pv_deadline (V w) c
               \<and> pv_log (V w') = pv_log (V w) @ [p]))"

lemma passesD:
  "passes V m \<Longrightarrow> run_state m w = (x, w') \<Longrightarrow>
     pv_clock (V w) \<le> pv_clock (V w') \<and> pv_log (V w') = pv_log (V w) \<and> pv_deadline (V w') = pv_deadline (V w)"
  unfolding passes_def by (metis snd_conv)

lemma ping_lawsD:
  assumes "ping_laws N K ctx V"
  shows "run_state (op_Now N) w = (t, w') \<Longrightarrow> t = pv_clock (V w') \<and> pv_clock (V w) \<le> t
      \<and> pv_log (V w') = pv_log (V w) \<and> pv_deadline (V w') = pv_deadline (V w)"
    and "run_state (cx_Err ctx) w = (e, w') \<Longrightarrow>
      pv_clock (V w) \<le> pv_clock (V w') \<and> pv_log (V w') = pv_log (V w) \<and> pv_deadline (V w') = pv_deadline (V w)"
    and "run_state (pk_WriteTo K c bs dst) w = (e, w') \<Longrightarrow>
      pv_clock (V w) \<le> pv_clock (V w') \<and> pv_log (V w') = pv_log (V w) \<and> pv_deadline (V w') = pv_deadline (V w)"
    and "run_state (pk_SetDeadline K c d) w = (e, w') \<Longrightarrow>
      pv_clock (V w) \<le> pv_clock (V w') \<and> pv_log (V w') = pv_log (V w) \<and> (e = None \<longrightarrow> pv_deadline (V w') c = d)"
    and "run_state (pk_ReadFrom K c n) w = (Inl e', w') \<Longrightarrow> pv_deadline (V w') = pv_deadline (V w)
      \<and> pv_clock (V w) \<le> pv_clock (V w') \<and> pv_log (V w') = pv_log (V w)"
    and "run_state (pk_ReadFrom K c n) w = (Inr p, w') \<Longrightarrow> pv_deadline (V w') = pv_deadline (V w)
      \<and> pv_clock (V w) < pv_clock (V w') \<and> pv_clock (V w) < pv_deadline (V w) c \<and> pv_log (V w') = pv_log (V w) @ [p]"
proof -
  note l = assms [unfolded ping_laws_def]
  show "run_state (op_Now N) w = (t, w') \<Longrightarrow> t = pv_clock (V w') \<and> pv_clock (V w) \<le> t
      \<and> pv_log (V w') = pv_log (V w) \<and> pv_deadline (V w') = pv_deadline (V w)"
    using l passesD by (metis fst_conv snd_conv)
  show "run_state (pk_ReadFrom K c n) w = (Inl e', w') \<Longrightarrow> pv_deadline (V w') = pv_deadline (V w)
      \<and> pv_clock (V w) \<le> pv_clock (V w') \<and> pv_log (V w') = pv_log (V w)"
    "run_state (pk_ReadFrom K c n) w = (Inr p, w') \<Longrightarrow> pv_deadline (V w') = pv_deadline (V w)
      \<and> pv_clock (V w) < pv_clock (V w') \<and> pv_clock (V w) < pv_deadline (V w) c \<and> pv_log (V w') = pv_log (V w) @ [p]"
    using l by fastforce+
  show "run_state (cx_Err ctx) w = (e, w') \<Longrightarrow>
      pv_clock (V w) \<le> pv_clock (V w') \<and> pv_log (V w') = pv_log (V w) \<and> pv_deadline (V w') = pv_deadline (V w)"
    by (rule passesD [of V "cx_Err ctx"]) (use l in simp_all)
  show "run_state (pk_WriteTo K c bs dst) w = (e, w') \<Longrightarrow>
      pv_clock (V w) \<le> pv_clock (V w') \<and> pv_log (V w') = pv_log (V w) \<and> pv_deadline (V w') = pv_deadline (V w)"
    by (rule passesD [of V "pk_WriteTo K c bs dst"]) (use l in \<open>cases dst, simp_all\<close>)
  show "run_state (pk_SetDeadline K c d) w = (e, w') \<Longrightarrow>
      pv_clock (V w) \<le> pv_clock (V w') \<and> pv_log (V w') = pv_log (V w) \<and> (e = None \<longrightarrow> pv_deadline (V w') c = d)"
    using l by blast
qed

text \<open>
  The packets \<open>xs\<close> that a wait has read decide its outcome: the first one that matches ends it with
  success, and without one it fails.
\<close>

definition first_match :: "('p \<Rightarrow> bool) \<Rightarrow> 'p list \<Rightarrow> bool \<Rightarrow> bool" where
  "first_match P xs ok \<longleftrightarrow> list_all (\<lambda>x. \<not> P x) (butlast xs) \<and> (ok \<longleftrightarrow> xs \<noteq> [] \<and> P (last xs))"

lemma first_match_simps [simp]:
  "first_match P [] ok \<longleftrightarrow> \<not> ok" "first_match P [x] ok \<longleftrightarrow> (ok \<longleftrightarrow> P x)"
  by (auto simp: first_match_def)

lemma first_match_Cons: "\<not> P x \<Longrightarrow> first_match P xs ok \<Longrightarrow> first_match P (x # xs) ok"
  by (cases xs) (auto simp: first_match_def)

lemma reply_matches_iff:
  "reply_matches M dst seq data peer \<longleftrightarrow> (\<exists>m i d p. ip_ParseMessage M 1 data = Inr m \<and> im_Type m = ICMPTypeEchoReply
     \<and> im_Body m = Echo i seq d \<and> peer_ip peer = Some p \<and> To4 p = Some dst)"
  by (auto simp: reply_matches_def split: sum.splits if_splits icmp_body.splits option.splits)

lemma read_replies_sound:
  assumes "ping_laws N K ctx V" and "run_state (read_replies M N K ctx conn dst seq start fuel) w = (r, w')"
    and "pv_deadline (V w) conn - pv_clock (V w) < int fuel" and "start \<le> pv_clock (V w)" and "0 < fuel"
  shows "\<exists>rtt err xs. r = Some (rtt, True, err) \<and> 0 \<le> rtt \<and> pv_log (V w') = pv_log (V w) @ xs
    \<and> first_match (\<lambda>(data, peer). reply_matches M dst seq data peer) xs (err = None)
    \<and> int (length xs) \<le> max 0 (pv_deadline (V w) conn - pv_clock (V w))"
  using assms(2-5)
proof (induction fuel arbitrary: w)
  case (Suc fuel)
  note L = ping_lawsD [OF assms(1)]
  obtain ce w1 where c: "run_state (cx_Err ctx) w = (ce, w1)" by force
  show ?case
  proof (cases ce)
    case (Some e)
    with Suc.prems(1) c L(2) [OF c] show ?thesis by auto
  next
    case None
    obtain rd w2 where rd: "run_state (pk_ReadFrom K conn 1500) w1 = (rd, w2)" by force
    show ?thesis
    proof (cases rd)
      case (Inl e)
      with Suc.prems(1) c None rd L(2) [OF c] L(5) [OF rd [unfolded Inl]] show ?thesis by auto
    next
      case (Inr p)
      obtain data peer where p: "p = (data, peer)" by force
      obtain now w3 where n: "run_state (op_Now N) w2 = (now, w3)" by force
      note k = L(2) [OF c] L(6) [OF rd [unfolded Inr]] L(1) [OF n]
      then have t: "pv_deadline (V w3) conn - pv_clock (V w3) < int fuel" "start \<le> now" "start \<le> pv_clock (V w3)"
        "0 < fuel" and log: "pv_log (V w3) = pv_log (V w) @ [p]"
        using Suc.prems(2,3) by auto
      show ?thesis
      proof (cases "reply_matches M dst seq data peer")
        case True
        with Suc.prems(1) c None rd Inr p n log t k show ?thesis by (auto simp: time_Sub_def)
      next
        case False
        then have "run_state (read_replies M N K ctx conn dst seq start fuel) w3 = (r, w')"
          using Suc.prems(1) c None rd Inr p n by simp
        from Suc.IH [OF this t(1,3,4)] obtain rtt err xs where i: "r = Some (rtt, True, err)" "0 \<le> rtt"
            "pv_log (V w') = pv_log (V w3) @ xs"
            "first_match (\<lambda>(data, peer). reply_matches M dst seq data peer) xs (err = None)"
            "int (length xs) \<le> max 0 (pv_deadline (V w3) conn - pv_clock (V w3))" by blast
        have "first_match (\<lambda>(data, peer). reply_matches M dst seq data peer) (p # xs) (err = None)"
          by (rule first_match_Cons [OF _ i(4)]) (simp add: p False)
        with i log k show ?thesis by auto
      qed
    qed
  qed
qed simp

text \<open>The time until the deadline of an echo that is sent at time \<open>t\<close>.\<close>

definition echo_time_left :: "'w ctx \<Rightarrow> gotime \<Rightarrow> int" where
  "echo_time_left ctx t = (case cx_Deadline ctx of Some d \<Rightarrow> d - t | None \<Rightarrow> 5 * Second)"

lemma echo_deadline_left:
  assumes "ping_laws N K ctx V" and "run_state (echo_deadline N ctx) w = (d, w')"
  shows "pv_clock (V w) \<le> pv_clock (V w') \<and> pv_log (V w') = pv_log (V w) \<and> d - pv_clock (V w') \<le> echo_time_left ctx (pv_clock (V w))"
proof (cases "cx_Deadline ctx")
  case None
  obtain t w1 where n: "run_state (op_Now N) w = (t, w1)" by force
  with None assms(2) ping_lawsD(1) [OF assms(1) n] show ?thesis by (auto simp: echo_deadline_def echo_time_left_def)
qed (use assms(2) in \<open>auto simp: echo_deadline_def echo_time_left_def\<close>)

lemma sendEcho_reads:
  assumes "ping_laws N K ctx V" and "run_state (sendEcho M N K ctx fuel conn dst icmpID seq) w = (r, w')"
    and "echo_time_left ctx (pv_clock (V w)) < int fuel" and "0 < fuel"
  shows "\<exists>rtt sent err xs. r = Some (rtt, sent, err) \<and> 0 \<le> rtt \<and> pv_log (V w') = pv_log (V w) @ xs
    \<and> first_match (\<lambda>(data, peer). reply_matches M dst seq data peer) xs (err = None)
    \<and> int (length xs) \<le> max 0 (echo_time_left ctx (pv_clock (V w)))
    \<and> (err = None \<longrightarrow> sent) \<and> (\<not> sent \<longrightarrow> xs = [])"
proof (cases "ip_Marshal M (echo_message icmpID seq 56)")
  case (Inl e)
  with assms(2) show ?thesis by (auto simp: sendEcho_def)
next
  case (Inr bs)
  note L = ping_lawsD [OF assms(1)]
  obtain d w1 where d: "run_state (echo_deadline N ctx) w = (d, w1)" by force
  obtain de w2 where sd: "run_state (pk_SetDeadline K conn d) w1 = (de, w2)" by force
  obtain start w3 where st: "run_state (op_Now N) w2 = (start, w3)" by force
  obtain we w4 where wr: "run_state (pk_WriteTo K conn bs dst) w3 = (we, w4)" by force
  note k = echo_deadline_left [OF assms(1) d] L(4) [OF sd] L(1) [OF st] L(3) [OF wr]
  show ?thesis
  proof (cases "de = None \<and> we = None")
    case False
    with assms(2) Inr d sd st wr k show ?thesis by (cases de; cases we) (auto simp: sendEcho_def)
  next
    case True
    then have "run_state (read_replies M N K ctx conn dst seq start fuel) w4 = (r, w')"
      using assms(2) Inr d sd st wr by (simp add: sendEcho_def)
    from read_replies_sound [OF assms(1) this _ _ assms(4)] k True assms(3) show ?thesis by fastforce
  qed
qed


text \<open>
  C27: sending an echo returns, and it reads at most one packet per nanosecond that is left until the deadline
  (of five seconds without one). It reports no error exactly if the last packet it read is an echo reply
  that carries its sequence number and came from the address of the destination, and no packet before it
  was one; then the echo was sent. An echo that was not sent has read nothing. The round-trip time is
  never negative.
\<close>

theorem sendEcho_returns:
  assumes "ping_laws N K ctx V" and "run_state (sendEcho M N K ctx fuel conn dst icmpID seq) w = (r, w')"
    and "echo_time_left ctx (pv_clock (V w)) < int fuel" and "0 < fuel"
  shows "\<exists>rtt sent err xs. r = Some (rtt, sent, err) \<and> 0 \<le> rtt \<and> pv_log (V w') = pv_log (V w) @ xs
    \<and> first_match (\<lambda>(data, peer). \<exists>m i d p. ip_ParseMessage M 1 data = Inr m \<and> im_Type m = ICMPTypeEchoReply
         \<and> im_Body m = Echo i seq d \<and> peer_ip peer = Some p \<and> To4 p = Some dst) xs (err = None)
    \<and> int (length xs) \<le> max 0 (echo_time_left ctx (pv_clock (V w)))
    \<and> (err = None \<longrightarrow> sent) \<and> (\<not> sent \<longrightarrow> xs = [])"
  unfolding reply_matches_iff [symmetric] by (rule sendEcho_reads [OF assms])

text \<open>
  Sequence numbers beyond 16 bits never match: \<^verbatim>\<open>Marshal\<close> writes 16 bits of them, and the reply is compared
  with the whole number. With a \<^verbatim>\<open>ping_count\<close> above 65536 the echoes from there on count as lost.
\<close>

lemma long_sequence_never_answered:
  assumes "parses_seq16 M" "2 ^ 16 \<le> seq"
  shows "\<not> reply_matches M dst seq data peer"
  using assms unfolding parses_seq16_def by (auto simp: reply_matches_iff) force

section \<open>The whole prober\<close>

lemma sendEcho_sent: "always (ic_sendEcho (ping_ops M N K ctx fuel listen close select) s dst i q) (\<lambda>(rtt, sent, err). err = None \<longrightarrow> sent)"
proof -
  have r: "always (read_replies M N K ctx s dst seq start fuel) (\<lambda>r. snd (snd (echo_or_running r)) = None \<longrightarrow> fst (snd (echo_or_running r)))"
    for seq start fuel
  proof (induction fuel)
    case (Suc fuel)
    show ?case unfolding read_replies.simps
      by (intro always_intro) (use Suc in \<open>auto simp: echo_or_running_def\<close>)
  qed (auto simp: echo_or_running_def intro: always_ret)
  have "always (sendEcho M N K ctx fuel s dst i seq) (\<lambda>r. snd (snd (echo_or_running r)) = None \<longrightarrow> fst (snd (echo_or_running r)))" for seq
    unfolding sendEcho_def by (intro always_intro) (use r in \<open>auto simp: echo_or_running_def\<close>)
  then show ?thesis unfolding ping_ops_def icmp_ops.simps
    by (rule always_bind) (auto intro!: always_ret split: prod.splits)
qed

interpretation ping: echo_sender "ic_sendEcho (ping_ops M N K ctx fuel listen close select) s dst i"
  for M and N :: "('w, 'c) net_ops" and K :: "('w, 's) packet_ops" and ctx fuel listen close select s dst i
  by unfold_locales (rule sendEcho_sent)

text \<open>
  C28: the result of an ICMP probe: the packet loss is a ratio between 0 and 1 that is 1 exactly if the
  probe failed, the probe succeeds exactly if at least one reply arrived, no more replies are counted
  than echoes were asked for (one if none are configured), and only a success has no error.
\<close>

theorem ICMP_Probe_loss:
  "let r = fst (run_state (ICMP_Probe N (ping_ops M N K ctx fuel listen close select) t) w) in
    0 \<le> pr_PacketLoss r \<and> pr_PacketLoss r \<le> 1
    \<and> (pr_Success r \<longleftrightarrow> pr_PacketLoss r \<noteq> 1) \<and> (pr_Success r \<longleftrightarrow> 1 \<le> pr_ICMPRepliesObserved r)
    \<and> pr_ICMPRepliesObserved r \<le> max 1 (po_PingCount (tc_ProbeOpts t)) \<and> (pr_Success r \<longleftrightarrow> pr_Error r = None)"
proof -
  let ?r = "fst (run_state (ICMP_Probe N (ping_ops M N K ctx fuel listen close select) t) w)"
  have "loss_ok (max 1 (po_PingCount (tc_ProbeOpts t))) ?r"
    by (rule alwaysD, rule ICMP_Probe_loss_ok) (rule ping.echo_sender_axioms)
  moreover have "result_ok ?r" by (rule alwaysD, rule icmp.probe_ok)
  ultimately show ?thesis unfolding loss_ok_def result_ok_def Let_def by blast
qed

section \<open>Witnesses\<close>

text \<open>
  A world with a clock, the packets that will arrive, those read, and a deadline: a packet of another
  sequence and then the reply.
\<close>

type_synonym ping_world = "gotime \<times> (byte list \<times> net_addr) list \<times> (byte list \<times> net_addr) list \<times> gotime"

definition ping_net :: "(ping_world, unit) net_ops" where
  "ping_net = \<lparr>op_Now = State (\<lambda>(t, w). (t, (t, w))), op_CtxErr = ret None, op_LookupIP = (\<lambda>_ _ _. ret (Inr [])),
     op_LookupIPAddr = (\<lambda>_ _. ret (Inr [])), op_LookupCNAME = (\<lambda>_ _. ret (Inr [])),
     op_Dial = (\<lambda>_ _. ret (Inr ())), op_Delay = (\<lambda>_. ret None), op_Pick = ret True, op_Cancel = ret (), op_Close = (\<lambda>_. ret ())\<rparr>"

definition ping_conn :: "(ping_world, unit) packet_ops" where
  "ping_conn = \<lparr>pk_SetDeadline = (\<lambda>_ d. State (\<lambda>(t, q, l, _). (None, (t, q, l, d)))), pk_WriteTo = (\<lambda>_ _ _. ret None),
     pk_ReadFrom = (\<lambda>_ _. State (\<lambda>(t, q, l, d).
       case q of
         [] \<Rightarrow> (Inl (SysErr ''i/o timeout''), (t, q, l, d))
       | p # q' \<Rightarrow> if t < d then (Inr p, (t + 1, q', l @ [p], d)) else (Inl (SysErr ''i/o timeout''), (t, q, l, d))))\<rparr>"

definition ping_ctx :: "ping_world ctx" where
  "ping_ctx = \<lparr>cx_Err = ret None, cx_Deadline = Some 20\<rparr>"

definition ping_pkg :: icmp_pkg where
  "ping_pkg = \<lparr>ip_Marshal = (\<lambda>_. Inr []), ip_ParseMessage = (\<lambda>_ bs. case bs of
     b # _ \<Rightarrow> Inr \<lparr>im_Type = ICMPTypeEchoReply, im_Code = 0, im_Body = Echo 0 (uint b) []\<rparr>
   | [] \<Rightarrow> Inl (SysErr ''message too short''))\<rparr>"

definition ping_peer :: net_addr where
  "ping_peer = UDPAddr (Some [0, 0, 0, 0, 0, 65535, 2560, 1])"

definition ping_see :: "ping_world \<Rightarrow> unit ping_view" where
  "ping_see w = (case w of (t, q, l, d) \<Rightarrow> \<lparr>pv_clock = t, pv_log = l, pv_deadline = (\<lambda>_. d)\<rparr>)"

lemma ping_laws_small: "ping_laws ping_net ping_conn ping_ctx ping_see"
  by (auto simp: ping_laws_def passes_def ping_net_def ping_conn_def ping_ctx_def ping_see_def
      split: list.splits if_splits)

lemmas ping_eval = sendEcho_def echo_deadline_def ping_net_def ping_conn_def ping_ctx_def ping_pkg_def ping_peer_def
  reply_matches_def To4_def ICMPTypeEchoReply_def time_Sub_def

theorem sendEcho_returns_witness:
  "\<exists>rtt. fst (run_state (sendEcho ping_pkg ping_net ping_conn ping_ctx (Suc (Suc 18)) () (2560, 1) 0 3)
     (1, [([2], ping_peer), ([3], ping_peer)], [], 0)) = Some (rtt, True, None) \<and> 0 \<le> rtt"
proof -
  let ?m = "sendEcho ping_pkg ping_net ping_conn ping_ctx (Suc (Suc 18)) () (2560, 1) 0 3"
  let ?w = "(1, [([2], ping_peer), ([3], ping_peer)], [], 0) :: ping_world"
  have f: "echo_time_left ping_ctx (pv_clock (ping_see ?w)) < int (Suc (Suc 18))" by (simp add: echo_time_left_def ping_ctx_def ping_see_def)
  have "fst (run_state (sendEcho ping_pkg ping_net ping_conn ping_ctx (Suc (Suc k)) () (2560, 1) 0 3) ?w) = Some (2, True, None)" for k
    by (simp add: ping_eval)
  note e = this [of 18]
  from sendEcho_returns [OF ping_laws_small _ f, of ping_pkg "()" "(2560, 1)" 0 3 "fst (run_state ?m ?w)" "snd (run_state ?m ?w)"]
  show ?thesis unfolding e by simp
qed

end
