(* ===== verification/Probe_MTU_Linux.thy ===== *)
theory Probe_MTU_Linux
  imports Probe_Ping
begin

unbundle bit_operations_syntax

text \<open>
  \<^verbatim>\<open>internal/probe/mtu_backend_linux.go\<close>: the back end of the MTU prober on Linux, an unprivileged ping socket
  with path MTU discovery in probe mode, and the error queue of the socket. System calls are the record
  \<open>socket_ops\<close> and return the number of an error; the parser of control messages of
  \<^verbatim>\<open>golang.org/x/sys/unix\<close> is a parameter. Both loops get fuel: \<open>None\<close> is a loop that still runs, and
  \<open>probePingSocket_returns\<close> bounds the fuel by the time until the deadline and by the length of the queue.
\<close>

section \<open>Numbers of the Linux interface\<close>

type_synonym errno = nat

definition EPERM :: errno where "EPERM = 1"
definition EINTR :: errno where "EINTR = 4"
definition EAGAIN :: errno where "EAGAIN = 11"
definition EACCES :: errno where "EACCES = 13"
definition EMSGSIZE :: errno where "EMSGSIZE = 90"

text \<open>\<^verbatim>\<open>syscall.Errno\<close> as an error value: the texts that the program tells apart, and the number for the others.\<close>

definition Errno :: "errno \<Rightarrow> goerr" where
  "Errno n = (if n = EPERM then SysErr ''operation not permitted'' else if n = EACCES then SysErr ''permission denied''
     else Errorf ''errno %d'' [FInt (int n)])"

definition POLLIN :: "16 word" where "POLLIN = 1"
definition POLLERR :: "16 word" where "POLLERR = 8"
definition MSG_CTRUNC :: int where "MSG_CTRUNC = 8"
definition MSG_TRUNC :: int where "MSG_TRUNC = 32"
definition IPPROTO_IP :: int where "IPPROTO_IP = 0"
definition IP_RECVERR :: int where "IP_RECVERR = 11"
definition IP_MTU_DISCOVER :: int where "IP_MTU_DISCOVER = 10"
definition IP_PMTUDISC_PROBE :: int where "IP_PMTUDISC_PROBE = 3"
definition SO_EE_ORIGIN_LOCAL :: byte where "SO_EE_ORIGIN_LOCAL = 1"
definition SO_EE_ORIGIN_ICMP :: byte where "SO_EE_ORIGIN_ICMP = 2"

lemmas linux_defs = EPERM_def EINTR_def EAGAIN_def EACCES_def EMSGSIZE_def POLLIN_def POLLERR_def MSG_CTRUNC_def
  MSG_TRUNC_def IPPROTO_IP_def IP_RECVERR_def IP_MTU_DISCOVER_def IP_PMTUDISC_PROBE_def SO_EE_ORIGIN_LOCAL_def
  SO_EE_ORIGIN_ICMP_def

text \<open>\<^verbatim>\<open>encoding/binary\<close>; the byte order of the machine is a parameter.\<close>

datatype endian = LittleEndian | BigEndian

definition BE_Uint16 :: "byte \<Rightarrow> byte \<Rightarrow> 16 word" where
  "BE_Uint16 a b = push_bit 8 (ucast a) OR ucast b"

definition LE_Uint32 :: "byte \<Rightarrow> byte \<Rightarrow> byte \<Rightarrow> byte \<Rightarrow> 32 word" where
  "LE_Uint32 a b c d = ucast a OR push_bit 8 (ucast b) OR push_bit 16 (ucast c) OR push_bit 24 (ucast d)"

definition Uint32_at :: "endian \<Rightarrow> byte list \<Rightarrow> nat \<Rightarrow> 32 word" where
  "Uint32_at en data i =
     (case en of
        LittleEndian \<Rightarrow> LE_Uint32 (data ! i) (data ! (i + 1)) (data ! (i + 2)) (data ! (i + 3))
      | BigEndian \<Rightarrow> LE_Uint32 (data ! (i + 3)) (data ! (i + 2)) (data ! (i + 1)) (data ! i))"

section \<open>The error queue\<close>

definition mtuPollMaxTimeout :: duration where "mtuPollMaxTimeout = 200 * 1000000"
definition mtuErrorQueuePayloadLen :: nat where "mtuErrorQueuePayloadLen = 2048"
definition mtuErrorQueueOOBLen :: nat where "mtuErrorQueueOOBLen = 1024"
definition mtuReadBufferLen :: nat where "mtuReadBufferLen = 2048"
definition sockExtendedErrLen :: nat where "sockExtendedErrLen = 16"

record mtuErrQueueEvent =
  ev_status :: mtuPayloadStatus
  ev_err :: goerr

record sockExtendedErr =
  ee_errno :: "32 word"
  ee_origin :: byte
  ee_typ :: byte
  ee_code :: byte
  ee_info :: "32 word"
  ee_data :: "32 word"

definition parseSockExtendedErr :: "endian \<Rightarrow> byte list \<Rightarrow> sockExtendedErr option" where
  "parseSockExtendedErr en data =
     (if length data < sockExtendedErrLen then None
      else Some \<lparr>ee_errno = Uint32_at en data 0, ee_origin = data ! 4, ee_typ = data ! 5, ee_code = data ! 6,
        ee_info = Uint32_at en data 8, ee_data = Uint32_at en data 12\<rparr>)"

definition echoReplyMatchesSequence :: "icmp_pkg \<Rightarrow> int \<Rightarrow> byte list \<Rightarrow> bool" where
  "echoReplyMatchesSequence M seq data =
     (case ip_ParseMessage M 1 data of
        Inl _ \<Rightarrow> False
      | Inr reply \<Rightarrow>
          if im_Type reply \<noteq> ICMPTypeEchoReply then False
          else (case im_Body reply of Echo _ q _ \<Rightarrow> q = seq | OtherBody \<Rightarrow> False))"

definition quotedPacketHasWrongSequence :: "byte list \<Rightarrow> int \<Rightarrow> bool" where
  "quotedPacketHasWrongSequence data seq =
     (if length data < 8 \<or> data ! 0 \<noteq> word_of_int ICMPTypeEcho \<or> data ! 1 \<noteq> 0 then False
      else uint (BE_Uint16 (data ! 6) (data ! 7)) \<noteq> seq)"

record cmsg =
  cm_Level :: int
  cm_Type :: int
  cm_Data :: "byte list"

text \<open>\<open>None\<close> is the result \<^verbatim>\<open>false\<close>: the message decides nothing.\<close>

definition judge_ee :: "sockExtendedErr \<Rightarrow> mtuErrQueueEvent" where
  "judge_ee ee =
     (let emsgsize = (unat (ee_errno ee) = EMSGSIZE) in
      if ee_origin ee = SO_EE_ORIGIN_ICMP \<and> ee_typ ee = 3 \<and> ee_code ee = 4 \<and> emsgsize
      then \<lparr>ev_status = mtuPayloadTooLarge, ev_err = Errno EMSGSIZE\<rparr>
      else if ee_origin ee = SO_EE_ORIGIN_LOCAL \<and> emsgsize
      then \<lparr>ev_status = mtuPayloadLocalTooLarge, ev_err = Errno EMSGSIZE\<rparr>
      else if ee_origin ee = SO_EE_ORIGIN_ICMP \<and> ee_typ ee = 3
      then \<lparr>ev_status = mtuPayloadUnreachable, ev_err = Errno (unat (ee_errno ee))\<rparr>
      else \<lparr>ev_status = mtuPayloadError,
        ev_err = Errorf ''unexpected error queue event: origin=%d type=%d code=%d errno=%d''
          [FInt (uint (ee_origin ee)), FInt (uint (ee_typ ee)), FInt (uint (ee_code ee)), FInt (uint (ee_errno ee))]\<rparr>)"

fun classify_cmsgs :: "endian \<Rightarrow> byte list \<Rightarrow> bool \<Rightarrow> int \<Rightarrow> cmsg list \<Rightarrow> mtuErrQueueEvent option" where
  "classify_cmsgs en quoted quotedComplete seq [] = None"
| "classify_cmsgs en quoted quotedComplete seq (c # cs) =
     (if cm_Level c \<noteq> IPPROTO_IP \<or> cm_Type c \<noteq> IP_RECVERR then classify_cmsgs en quoted quotedComplete seq cs
      else case parseSockExtendedErr en (cm_Data c) of
        None \<Rightarrow> None
      | Some ee \<Rightarrow>
          if quotedComplete \<and> quotedPacketHasWrongSequence quoted seq then None else Some (judge_ee ee))"

definition classifyMTUErrorQueueMessage ::
  "(byte list \<Rightarrow> cmsg list res) \<Rightarrow> endian \<Rightarrow> byte list \<Rightarrow> byte list \<Rightarrow> bool \<Rightarrow> int \<Rightarrow> mtuErrQueueEvent option" where
  "classifyMTUErrorQueueMessage ParseSocketControlMessage en oob quoted quotedComplete seq =
     (case ParseSocketControlMessage oob of
        Inl e \<Rightarrow> Some \<lparr>ev_status = mtuPayloadError, ev_err = Errorf ''parse socket control message: %w'' [FErr e]\<rparr>
      | Inr cmsgs \<Rightarrow> classify_cmsgs en quoted quotedComplete seq cmsgs)"

section \<open>The socket\<close>

record 'w socket_ops =
  sk_Socket :: "('w, errno + int) io"
  sk_SetsockoptInt :: "int \<Rightarrow> int \<Rightarrow> int \<Rightarrow> int \<Rightarrow> ('w, errno option) io"
  sk_Connect :: "int \<Rightarrow> ipv4 \<Rightarrow> ('w, errno option) io"
  sk_SetNonblock :: "int \<Rightarrow> ('w, errno option) io"
  sk_Write :: "int \<Rightarrow> byte list \<Rightarrow> ('w, errno option) io"
  sk_Poll :: "int \<Rightarrow> int \<Rightarrow> ('w, errno + nat \<times> 16 word) io"
  sk_Read :: "int \<Rightarrow> nat \<Rightarrow> ('w, errno + byte list) io"
  sk_Recvmsg :: "int \<Rightarrow> nat \<Rightarrow> nat \<Rightarrow> ('w, errno + byte list \<times> byte list \<times> int) io"
  sk_Close :: "int \<Rightarrow> ('w, unit) io"
  sk_Cmsgs :: "byte list \<Rightarrow> cmsg list res"
  sk_Endian :: endian

text \<open>The options and calls that prepare a socket, in order, each with the text of its error.\<close>

fun open_steps :: "'w socket_ops \<Rightarrow> int \<Rightarrow> (string \<times> ('w, errno option) io) list \<Rightarrow> ('w, int res) io" where
  "open_steps S fd [] = ret (Inr fd)"
| "open_steps S fd ((what, call) # steps) = do {
     err \<leftarrow> call;
     (case err of
        Some e \<Rightarrow> do { sk_Close S fd; ret (Inl (Errorf what [FErr (Errno e)])) }
      | None \<Rightarrow> open_steps S fd steps)
   }"

definition openMTUPingSocket :: "'w socket_ops \<Rightarrow> ip \<Rightarrow> ('w, int res) io" where
  "openMTUPingSocket S dst =
     (case To4 dst of
        None \<Rightarrow> ret (Inl (Errorf ''destination is not IPv4'' []))
      | Some addr \<Rightarrow> do {
          sock \<leftarrow> sk_Socket S;
          (case sock of
             Inl e \<Rightarrow> ret (Inl (Errno e))
           | Inr fd \<Rightarrow> open_steps S fd
               [(''set IP_RECVERR: %w'', sk_SetsockoptInt S fd IPPROTO_IP IP_RECVERR 1),
                (''set IP_MTU_DISCOVER: %w'', sk_SetsockoptInt S fd IPPROTO_IP IP_MTU_DISCOVER IP_PMTUDISC_PROBE),
                (''connect ping socket: %w'', sk_Connect S fd addr),
                (''set nonblock: %w'', sk_SetNonblock S fd)])
        })"

text \<open>The timeout in milliseconds, and whether the deadline has passed.\<close>

definition pollTimeout :: "('w, 'c) net_ops \<Rightarrow> 'w ctx \<Rightarrow> ('w, int \<times> bool) io" where
  "pollTimeout N ctx =
     (case cx_Deadline ctx of
        None \<Rightarrow> ret (mtuPollMaxTimeout sdiv 1000000, False)
      | Some deadline \<Rightarrow> do {
          now \<leftarrow> op_Now N;
          let remaining = time_Sub deadline now;
          ret (if remaining \<le> 0 then (0, True)
               else ((if remaining < mtuPollMaxTimeout then remaining else mtuPollMaxTimeout) sdiv 1000000, False))
        })"

text \<open>\<open>Some None\<close> is an empty queue, \<open>Some (Some ev)\<close> an event that decides.\<close>

fun drainMTUErrorQueue :: "'w socket_ops \<Rightarrow> int \<Rightarrow> int \<Rightarrow> nat \<Rightarrow> ('w, mtuErrQueueEvent option option) io" where
  "drainMTUErrorQueue S fd seq 0 = ret None"
| "drainMTUErrorQueue S fd seq (Suc fuel) = do {
     m \<leftarrow> sk_Recvmsg S fd mtuErrorQueuePayloadLen mtuErrorQueueOOBLen;
     (case m of
        Inl e \<Rightarrow>
          ret (Some (if e = EAGAIN then None
                     else Some \<lparr>ev_status = mtuPayloadError, ev_err = Errorf ''recvmsg error queue: %w'' [FErr (Errno e)]\<rparr>))
      | Inr (payload, oob, flags) \<Rightarrow>
          if flags AND MSG_CTRUNC \<noteq> 0 then drainMTUErrorQueue S fd seq fuel
          else (case classifyMTUErrorQueueMessage (sk_Cmsgs S) (sk_Endian S) oob payload (flags AND MSG_TRUNC = 0) seq of
             Some event \<Rightarrow> ret (Some (Some event))
           | None \<Rightarrow> drainMTUErrorQueue S fd seq fuel))
   }"

section \<open>One probe\<close>

text \<open>One turn of the loop: a verdict, another turn, or a drain that has not ended.\<close>

datatype turn = Verdict mtuPayloadResult | Again | Draining

definition mtu_result :: "int \<Rightarrow> mtuPayloadStatus \<Rightarrow> goerr \<Rightarrow> mtuPayloadResult" where
  "mtu_result size0 st e = \<lparr>mp_status = st, mp_payloadSize = size0, mp_rtt = 0, mp_err = Some e\<rparr>"

definition read_turn ::
  "icmp_pkg \<Rightarrow> ('w, 'c) net_ops \<Rightarrow> 'w socket_ops \<Rightarrow> int \<Rightarrow> int \<Rightarrow> int \<Rightarrow> gotime \<Rightarrow> ('w, turn) io" where
  "read_turn M N S fd payloadSize seq sendTime = do {
     rd \<leftarrow> sk_Read S fd mtuReadBufferLen;
     (case rd of
        Inl e \<Rightarrow>
          ret (if e = EAGAIN then Again else Verdict (mtu_result payloadSize mtuPayloadError (Errorf ''read icmp: %w'' [FErr (Errno e)])))
      | Inr data \<Rightarrow>
          if echoReplyMatchesSequence M seq data then do {
            now \<leftarrow> op_Now N;
            ret (Verdict \<lparr>mp_status = mtuPayloadSuccess, mp_payloadSize = payloadSize, mp_rtt = time_Sub now sendTime, mp_err = None\<rparr>)
          }
          else ret Again)
   }"

definition event_turn ::
  "icmp_pkg \<Rightarrow> ('w, 'c) net_ops \<Rightarrow> 'w socket_ops \<Rightarrow> nat \<Rightarrow> int \<Rightarrow> int \<Rightarrow> int \<Rightarrow> gotime \<Rightarrow> 16 word \<Rightarrow> ('w, turn) io" where
  "event_turn M N S q fd payloadSize seq sendTime revents = do {
     ev \<leftarrow> (if revents AND POLLERR \<noteq> 0 then drainMTUErrorQueue S fd seq q else ret (Some None));
     (case ev of
        None \<Rightarrow> ret Draining
      | Some (Some event) \<Rightarrow> ret (Verdict (mtu_result payloadSize (ev_status event) (ev_err event)))
      | Some None \<Rightarrow>
          if revents AND POLLIN = 0 then ret Again else read_turn M N S fd payloadSize seq sendTime)
   }"

definition poll_turn ::
  "icmp_pkg \<Rightarrow> ('w, 'c) net_ops \<Rightarrow> 'w socket_ops \<Rightarrow> 'w ctx \<Rightarrow> nat \<Rightarrow> int \<Rightarrow> int \<Rightarrow> int \<Rightarrow> gotime \<Rightarrow> ('w, turn) io" where
  "poll_turn M N S ctx q fd payloadSize seq sendTime = do {
     ce \<leftarrow> cx_Err ctx;
     (case ce of
        Some e \<Rightarrow> ret (Verdict (mtu_result payloadSize mtuPayloadTimeout e))
      | None \<Rightarrow> do {
          (timeout, expired) \<leftarrow> pollTimeout N ctx;
          if expired then ret (Verdict (mtu_result payloadSize mtuPayloadTimeout (SysErr ''context deadline exceeded'')))
          else do {
            p \<leftarrow> sk_Poll S fd timeout;
            (case p of
               Inl e \<Rightarrow>
                 ret (if e = EINTR then Again
                      else Verdict (mtu_result payloadSize mtuPayloadError (Errorf ''poll: %w'' [FErr (Errno e)])))
             | Inr (n, revents) \<Rightarrow> do {
                 ce2 \<leftarrow> cx_Err ctx;
                 (case ce2 of
                    Some e \<Rightarrow> ret (Verdict (mtu_result payloadSize mtuPayloadTimeout e))
                  | None \<Rightarrow>
                      if n = 0 then ret Again
                      else event_turn M N S q fd payloadSize seq sendTime revents)
               })
          }
        })
   }"

fun poll_loop ::
  "icmp_pkg \<Rightarrow> ('w, 'c) net_ops \<Rightarrow> 'w socket_ops \<Rightarrow> 'w ctx \<Rightarrow> nat \<Rightarrow> int \<Rightarrow> int \<Rightarrow> int \<Rightarrow> gotime \<Rightarrow> nat
     \<Rightarrow> ('w, mtuPayloadResult option) io" where
  "poll_loop M N S ctx q fd payloadSize seq sendTime 0 = ret None"
| "poll_loop M N S ctx q fd payloadSize seq sendTime (Suc fuel) = do {
     t \<leftarrow> poll_turn M N S ctx q fd payloadSize seq sendTime;
     (case t of
        Verdict r \<Rightarrow> ret (Some r)
      | Again \<Rightarrow> poll_loop M N S ctx q fd payloadSize seq sendTime fuel
      | Draining \<Rightarrow> ret None)
   }"

text \<open>The part under the deferred close.\<close>

definition probe_on_socket ::
  "icmp_pkg \<Rightarrow> ('w, 'c) net_ops \<Rightarrow> 'w socket_ops \<Rightarrow> 'w ctx \<Rightarrow> nat \<Rightarrow> nat \<Rightarrow> int \<Rightarrow> int \<Rightarrow> int \<Rightarrow> ('w, mtuPayloadResult option) io" where
  "probe_on_socket M N S ctx q fuel fd payloadSize seq =
     (case ip_Marshal M (echo_message 0 seq (nat payloadSize)) of
        Inl e \<Rightarrow> ret (Some (mtu_result payloadSize mtuPayloadError (Errorf ''marshal icmp: %w'' [FErr e])))
      | Inr wire \<Rightarrow> do {
          sendTime \<leftarrow> op_Now N;
          werr \<leftarrow> sk_Write S fd wire;
          (case werr of
             Some e \<Rightarrow>
               if e = EMSGSIZE then do {
                 drained \<leftarrow> drainMTUErrorQueue S fd seq q;
                 ret (if drained = None then None else Some (mtu_result payloadSize mtuPayloadLocalTooLarge (Errno e)))
               }
               else ret (Some (mtu_result payloadSize mtuPayloadError (Errno e)))
           | None \<Rightarrow> poll_loop M N S ctx q fd payloadSize seq sendTime fuel)
        })"

definition probePingSocket ::
  "icmp_pkg \<Rightarrow> ('w, 'c) net_ops \<Rightarrow> 'w socket_ops \<Rightarrow> nat \<Rightarrow> nat \<Rightarrow> 'w ctx \<Rightarrow> ip \<Rightarrow> int \<Rightarrow> int
     \<Rightarrow> ('w, mtuPayloadResult option) io" where
  "probePingSocket M N S q fuel ctx dst payloadSize seq = do {
     sock \<leftarrow> openMTUPingSocket S dst;
     (case sock of
        Inl e \<Rightarrow> ret (Some (mtu_result payloadSize mtuPayloadError e))
      | Inr fd \<Rightarrow> do {
          r \<leftarrow> probe_on_socket M N S ctx q fuel fd payloadSize seq;
          sk_Close S fd;
          ret r
        })
   }"

text \<open>
  The back end: \<open>WithTimeout\<close> makes the context of an attempt. A probe that has not ended within the fuel is
  an error here, which does not happen with enough of it.
\<close>

definition ping_attempt ::
  "icmp_pkg \<Rightarrow> ('w, 'c) net_ops \<Rightarrow> 'w socket_ops \<Rightarrow> nat \<Rightarrow> nat \<Rightarrow> (duration \<Rightarrow> ('w, 'w ctx) io)
     \<Rightarrow> duration \<Rightarrow> ipv4 \<Rightarrow> int \<Rightarrow> int \<Rightarrow> ('w, mtuPayloadResult) io" where
  "ping_attempt M N S q fuel WithTimeout timeout dst payloadSize seq = do {
     ctx \<leftarrow> WithTimeout timeout;
     r \<leftarrow> probePingSocket M N S q fuel ctx [0, 0, 0, 0, 0, 65535, fst dst, snd dst] payloadSize seq;
     ret (case r of Some p \<Rightarrow> p | None \<Rightarrow> mtu_result payloadSize mtuPayloadError (SysErr ''still polling''))
   }"

definition pingSocketMTUBackend ::
  "icmp_pkg \<Rightarrow> ('w, 'c) net_ops \<Rightarrow> 'w socket_ops \<Rightarrow> nat \<Rightarrow> nat \<Rightarrow> (duration \<Rightarrow> ('w, 'w ctx) io) \<Rightarrow> 'w mtuProbeBackend" where
  "pingSocketMTUBackend M N S q fuel WithTimeout =
     \<lparr>be_probeSmallEcho = ping_attempt M N S q fuel WithTimeout,
      be_probePayloadWithDF = ping_attempt M N S q fuel WithTimeout\<rparr>"

section \<open>Words on the wire\<close>

text \<open>The layout of an echo request and of \<^verbatim>\<open>struct sock_extended_err\<close>, as the kernel writes them.\<close>

definition echo_bytes :: "byte \<Rightarrow> byte \<Rightarrow> 16 word \<Rightarrow> 16 word \<Rightarrow> byte list \<Rightarrow> byte list" where
  "echo_bytes c1 c2 icmpID seq payload =
     [8, 0, c1, c2, ucast (drop_bit 8 icmpID), ucast icmpID, ucast (drop_bit 8 seq), ucast seq] @ payload"

definition bytes32 :: "endian \<Rightarrow> 32 word \<Rightarrow> byte list" where
  "bytes32 en x =
     (let le = [ucast x, ucast (drop_bit 8 x), ucast (drop_bit 16 x), ucast (drop_bit 24 x)] in
      case en of LittleEndian \<Rightarrow> le | BigEndian \<Rightarrow> rev le)"

definition ee_bytes :: "endian \<Rightarrow> byte \<Rightarrow> sockExtendedErr \<Rightarrow> byte list" where
  "ee_bytes en pad ee = bytes32 en (ee_errno ee) @ [ee_origin ee, ee_typ ee, ee_code ee, pad]
     @ bytes32 en (ee_info ee) @ bytes32 en (ee_data ee)"

lemma BE_Uint16_bytes: "BE_Uint16 (ucast (drop_bit 8 x)) (ucast x) = x"
  by (rule bit_word_eqI) (auto simp: BE_Uint16_def bit_simps)

lemma LE_Uint32_bytes: "LE_Uint32 (ucast x) (ucast (drop_bit 8 x)) (ucast (drop_bit 16 x)) (ucast (drop_bit 24 x)) = x"
proof (rule bit_word_eqI)
  fix n
  assume "n < LENGTH(32)"
  then show "bit (LE_Uint32 (ucast x) (ucast (drop_bit 8 x)) (ucast (drop_bit 16 x)) (ucast (drop_bit 24 x))) n = bit x n"
    by (cases "24 \<le> n"; cases "16 \<le> n"; cases "8 \<le> n") (auto simp: LE_Uint32_def bit_simps)
qed

lemma bytes32_length [simp]: "length (bytes32 en x) = 4"
  by (cases en) (simp_all add: bytes32_def Let_def)

lemma Uint32_at_bytes: "Uint32_at en (xs @ bytes32 en x @ ys) (length xs) = x"
  by (cases en) (simp_all add: Uint32_at_def bytes32_def Let_def nth_append LE_Uint32_bytes)

lemma parseSockExtendedErr_bytes: "parseSockExtendedErr en (ee_bytes en pad ee @ rest) = Some ee"
proof -
  have f: "Uint32_at en (ee_bytes en pad ee @ rest) 0 = ee_errno ee"
    "Uint32_at en (ee_bytes en pad ee @ rest) 8 = ee_info ee"
    "Uint32_at en (ee_bytes en pad ee @ rest) 12 = ee_data ee"
    using Uint32_at_bytes [of en "[]" "ee_errno ee" "[ee_origin ee, ee_typ ee, ee_code ee, pad] @ bytes32 en (ee_info ee) @ bytes32 en (ee_data ee) @ rest"]
      Uint32_at_bytes [of en "bytes32 en (ee_errno ee) @ [ee_origin ee, ee_typ ee, ee_code ee, pad]" "ee_info ee" "bytes32 en (ee_data ee) @ rest"]
      Uint32_at_bytes [of en "bytes32 en (ee_errno ee) @ [ee_origin ee, ee_typ ee, ee_code ee, pad] @ bytes32 en (ee_info ee)" "ee_data ee" rest]
    by (simp_all add: ee_bytes_def)
  have g: "(ee_bytes en pad ee @ rest) ! 4 = ee_origin ee" "(ee_bytes en pad ee @ rest) ! 5 = ee_typ ee"
    "(ee_bytes en pad ee @ rest) ! 6 = ee_code ee" "length (ee_bytes en pad ee @ rest) \<ge> 16"
    by (simp_all add: ee_bytes_def nth_append)
  show ?thesis unfolding parseSockExtendedErr_def sockExtendedErrLen_def f g using g(4) by simp
qed

lemma quoted_sequence: "quotedPacketHasWrongSequence (echo_bytes c1 c2 i q payload) seq \<longleftrightarrow> uint q \<noteq> seq"
  by (simp add: quotedPacketHasWrongSequence_def echo_bytes_def ICMPTypeEcho_def BE_Uint16_bytes)


section \<open>Sockets and time\<close>

text \<open>
  A view of the world: the clock, the open descriptors, what was read from sockets, and the length of the
  error queue. Time does not go back, and polling takes some. Reading from the error queue takes an entry
  away, and the kernel keeps the queue below a bound \<open>B\<close>.
\<close>

record mtu_view =
  mv_clock :: gotime
  mv_open :: "int set"
  mv_read :: "byte list list"
  mv_queue :: nat

definition went :: "('w \<Rightarrow> mtu_view) \<Rightarrow> 'w \<Rightarrow> byte list list \<Rightarrow> 'w \<Rightarrow> bool" where
  "went V w xs w' \<longleftrightarrow> mv_clock (V w) \<le> mv_clock (V w') \<and> mv_open (V w') = mv_open (V w) \<and> mv_read (V w') = mv_read (V w) @ xs"

definition quiet :: "('w \<Rightarrow> mtu_view) \<Rightarrow> ('w, 'a) io \<Rightarrow> bool" where
  "quiet V m \<longleftrightarrow> (\<forall>w x w'. run_state m w = (x, w') \<longrightarrow> went V w [] w')"

definition socket_laws :: "('w, 'c) net_ops \<Rightarrow> 'w socket_ops \<Rightarrow> ('w \<Rightarrow> mtu_view) \<Rightarrow> nat \<Rightarrow> bool" where
  "socket_laws N S V B \<longleftrightarrow>
     quiet V (op_Now N) \<and> (\<forall>w t w'. run_state (op_Now N) w = (t, w') \<longrightarrow> t = mv_clock (V w'))
     \<and> (\<forall>fd lvl opt v. quiet V (sk_SetsockoptInt S fd lvl opt v)) \<and> (\<forall>fd a. quiet V (sk_Connect S fd a))
     \<and> (\<forall>fd. quiet V (sk_SetNonblock S fd)) \<and> (\<forall>fd bs. quiet V (sk_Write S fd bs))
     \<and> (\<forall>fd ms w x w'. run_state (sk_Poll S fd ms) w = (x, w') \<longrightarrow> went V w [] w' \<and> mv_clock (V w) < mv_clock (V w'))
     \<and> (\<forall>fd n w x w'. run_state (sk_Read S fd n) w = (x, w') \<longrightarrow> went V w (case x of Inl _ \<Rightarrow> [] | Inr data \<Rightarrow> [data]) w')
     \<and> (\<forall>fd n k w x w'. run_state (sk_Recvmsg S fd n k) w = (x, w') \<longrightarrow>
          went V w [] w' \<and> (case x of Inl _ \<Rightarrow> True | Inr _ \<Rightarrow> mv_queue (V w') < mv_queue (V w)))
     \<and> (\<forall>w x w'. run_state (sk_Socket S) w = (x, w') \<longrightarrow> mv_clock (V w) \<le> mv_clock (V w') \<and> mv_read (V w') = mv_read (V w)
          \<and> (case x of Inl _ \<Rightarrow> mv_open (V w') = mv_open (V w)
             | Inr fd \<Rightarrow> fd \<notin> mv_open (V w) \<and> mv_open (V w') = insert fd (mv_open (V w))))
     \<and> (\<forall>fd w x w'. run_state (sk_Close S fd) w = (x, w') \<longrightarrow> mv_clock (V w) \<le> mv_clock (V w') \<and> mv_read (V w') = mv_read (V w)
          \<and> mv_open (V w') = mv_open (V w) - {fd})
     \<and> (\<forall>w. mv_queue (V w) \<le> B)"

lemma went_refl [simp]: "went V w [] w" by (simp add: went_def)

lemma went_trans: "went V w xs w' \<Longrightarrow> went V w' ys w'' \<Longrightarrow> went V w (xs @ ys) w''"
  by (auto simp: went_def)

lemma quietD: "quiet V m \<Longrightarrow> run_state m w = (x, w') \<Longrightarrow> went V w [] w'"
  by (simp add: quiet_def)

lemma first_match_append:
  "list_all (\<lambda>x. \<not> P x) xs \<Longrightarrow> first_match P ys ok \<Longrightarrow> first_match P (xs @ ys) ok"
  by (auto simp: first_match_def butlast_append list_all_iff dest: in_set_butlastD)

lemma first_match_none: "list_all (\<lambda>x. \<not> P x) xs \<Longrightarrow> first_match P xs False"
  by (auto simp: first_match_def list_all_iff dest: in_set_butlastD)

lemma judge_ee_fails: "ev_status (judge_ee ee) \<noteq> mtuPayloadSuccess"
  by (simp add: judge_ee_def Let_def)

lemma classify_fails:
  "classifyMTUErrorQueueMessage P en oob quoted b seq = Some ev \<Longrightarrow> ev_status ev \<noteq> mtuPayloadSuccess"
proof -
  have "classify_cmsgs en quoted b seq cs = Some ev \<Longrightarrow> ev_status ev \<noteq> mtuPayloadSuccess" for cs
    by (induction cs) (auto split: if_splits option.splits simp: judge_ee_fails)
  then show "classifyMTUErrorQueueMessage P en oob quoted b seq = Some ev \<Longrightarrow> ev_status ev \<noteq> mtuPayloadSuccess"
    by (auto simp: classifyMTUErrorQueueMessage_def split: sum.splits)
qed

lemma drain_ends:
  assumes "socket_laws N S V B" and "run_state (drainMTUErrorQueue S fd seq q) w = (r, w')" and "mv_queue (V w) < q"
  shows "went V w [] w' \<and> (\<exists>e. r = Some e \<and> (\<forall>ev. e = Some ev \<longrightarrow> ev_status ev \<noteq> mtuPayloadSuccess))"
  using assms(2,3)
proof (induction q arbitrary: w)
  case (Suc q)
  obtain m w1 where m: "run_state (sk_Recvmsg S fd mtuErrorQueuePayloadLen mtuErrorQueueOOBLen) w = (m, w1)" by force
  with assms(1) have l: "went V w [] w1" "case m of Inl _ \<Rightarrow> True | Inr _ \<Rightarrow> mv_queue (V w1) < mv_queue (V w)"
    by (auto simp: socket_laws_def)
  show ?case
  proof (cases m)
    case (Inl e)
    with Suc.prems m l show ?thesis by auto
  next
    case (Inr p)
    obtain payload oob flags where p: "p = (payload, oob, flags)" by (metis prod_cases3)
    let ?c = "classifyMTUErrorQueueMessage (sk_Cmsgs S) (sk_Endian S) oob payload (flags AND MSG_TRUNC = 0) seq"
    show ?thesis
    proof (cases "flags AND MSG_CTRUNC \<noteq> 0 \<or> ?c = None")
      case True
      then have "run_state (drainMTUErrorQueue S fd seq q) w1 = (r, w')"
        using Suc.prems(1) m Inr p by (auto split: if_splits)
      moreover have "mv_queue (V w1) < q" using l(2) Inr Suc.prems(2) by simp
      ultimately show ?thesis using Suc.IH went_trans [OF l(1)] by fastforce
    next
      case False
      then obtain ev where "?c = Some ev" by auto
      moreover from classify_fails [OF this] have "ev_status ev \<noteq> mtuPayloadSuccess" .
      ultimately show ?thesis using Suc.prems(1) m Inr p False l(1) by auto
    qed
  qed
qed simp

text \<open>A verdict on a payload of a size, after what was read: a success exactly if a reply matched, and then without an error.\<close>

definition verdict_ok :: "icmp_pkg \<Rightarrow> int \<Rightarrow> int \<Rightarrow> byte list list \<Rightarrow> mtuPayloadResult \<Rightarrow> bool" where
  "verdict_ok M payloadSize seq xs p \<longleftrightarrow> mp_payloadSize p = payloadSize \<and> 0 \<le> mp_rtt p
     \<and> (mp_status p = mtuPayloadSuccess \<longleftrightarrow> mp_err p = None)
     \<and> first_match (echoReplyMatchesSequence M seq) xs (mp_status p = mtuPayloadSuccess)"

definition turn_ok :: "icmp_pkg \<Rightarrow> ('w \<Rightarrow> mtu_view) \<Rightarrow> int \<Rightarrow> int \<Rightarrow> 'w \<Rightarrow> turn \<Rightarrow> 'w \<Rightarrow> bool" where
  "turn_ok M V payloadSize seq w t w' \<longleftrightarrow> (\<exists>xs. went V w xs w' \<and>
     (case t of
        Verdict p \<Rightarrow> verdict_ok M payloadSize seq xs p
      | Again \<Rightarrow> list_all (\<lambda>x. \<not> echoReplyMatchesSequence M seq x) xs
      | Draining \<Rightarrow> False))"

lemma verdict_ok_failed [simp]: "st \<noteq> mtuPayloadSuccess \<Longrightarrow> verdict_ok M s seq [] (mtu_result s st e)"
  by (simp add: verdict_ok_def mtu_result_def)

lemma turn_ok_quiet:
  "went V w [] w' \<Longrightarrow> turn_ok M V s seq w Again w'"
  "went V w [] w' \<Longrightarrow> st \<noteq> mtuPayloadSuccess \<Longrightarrow> turn_ok M V s seq w (Verdict (mtu_result s st e)) w'"
  unfolding turn_ok_def by (rule exI [of _ "[]"], simp)+

lemma turn_ok_later:
  assumes "went V w [] w1" and "turn_ok M V s seq w1 t w'"
  shows "turn_ok M V s seq w t w'"
  using assms(2) went_trans [OF assms(1)] unfolding turn_ok_def by fastforce

lemma read_turn_ok:
  assumes "socket_laws N S V B" and "run_state (read_turn M N S fd s seq sendTime) w = (t, w')" and "sendTime \<le> mv_clock (V w)"
  shows "turn_ok M V s seq w t w'"
proof -
  obtain rd w1 where rd: "run_state (sk_Read S fd mtuReadBufferLen) w = (rd, w1)" by force
  with assms(1) have l: "went V w (case rd of Inl _ \<Rightarrow> [] | Inr data \<Rightarrow> [data]) w1" by (auto simp: socket_laws_def)
  obtain now w2 where n: "run_state (op_Now N) w1 = (now, w2)" by force
  with assms(1) have nl: "went V w1 [] w2" "now = mv_clock (V w2)" by (auto simp: socket_laws_def quiet_def)
  show ?thesis
  proof (cases rd)
    case (Inl e)
    with assms(2) rd l show ?thesis by (auto simp: read_turn_def turn_ok_quiet split: if_splits)
  next
    case (Inr data)
    show ?thesis
    proof (cases "echoReplyMatchesSequence M seq data")
      case True
      have "went V w [data] w2" using went_trans [OF l nl(1)] Inr by simp
      moreover from this nl(2) assms(3) have "0 \<le> time_Sub now sendTime" by (simp add: went_def time_Sub_def)
      ultimately show ?thesis using assms(2) rd Inr n True
        by (auto simp: read_turn_def turn_ok_def verdict_ok_def intro!: exI [of _ "[data]"])
    next
      case False
      with assms(2) rd Inr l show ?thesis by (auto simp: read_turn_def turn_ok_def intro!: exI [of _ "[data]"])
    qed
  qed
qed

lemma event_turn_ok:
  assumes "socket_laws N S V B" and "run_state (event_turn M N S q fd s seq sendTime revents) w = (t, w')"
    and "sendTime \<le> mv_clock (V w)" and "B < q"
  shows "turn_ok M V s seq w t w'"
proof -
  have q: "mv_queue (V w) < q" using assms(1,4) unfolding socket_laws_def by (meson le_less_trans)
  obtain ev w1 where ev: "run_state (if revents AND POLLERR \<noteq> 0 then drainMTUErrorQueue S fd seq q else ret (Some None)) w = (ev, w1)"
    by force
  have "went V w [] w1 \<and> (\<exists>e. ev = Some e \<and> (\<forall>x. e = Some x \<longrightarrow> ev_status x \<noteq> mtuPayloadSuccess))"
  proof (cases "revents AND POLLERR \<noteq> 0")
    case True
    with ev drain_ends [OF assms(1) _ q] show ?thesis by simp
  qed (use ev in auto)
  then obtain e where e: "went V w [] w1" "ev = Some e" "\<And>x. e = Some x \<Longrightarrow> ev_status x \<noteq> mtuPayloadSuccess"
    by blast
  have s: "sendTime \<le> mv_clock (V w1)" using e(1) assms(3) by (simp add: went_def)
  from assms(2) ev e(2)
  have "run_state (case e of Some event \<Rightarrow> ret (Verdict (mtu_result s (ev_status event) (ev_err event)))
      | None \<Rightarrow> if revents AND POLLIN = 0 then ret Again else read_turn M N S fd s seq sendTime) w1 = (t, w')"
    by (simp add: event_turn_def split: option.splits)
  with e(3) have "turn_ok M V s seq w1 t w'"
    using read_turn_ok [OF assms(1) _ s] by (auto simp: turn_ok_quiet split: option.splits if_splits)
  with turn_ok_later [OF e(1)] show ?thesis .
qed

lemma pollTimeout_ok:
  assumes "socket_laws N S V B" and "run_state (pollTimeout N ctx) w = ((ms, expired), w')" and "cx_Deadline ctx = Some d"
  shows "went V w [] w' \<and> (expired \<longleftrightarrow> d \<le> mv_clock (V w')) \<and> 0 \<le> ms \<and> ms \<le> 200"
proof -
  obtain now w1 where n: "run_state (op_Now N) w = (now, w1)" by force
  with assms(1) have "went V w [] w1" "now = mv_clock (V w1)" by (auto simp: socket_laws_def quiet_def)
  moreover have "w' = w1" "(ms, expired) = (if time_Sub d now \<le> 0 then (0, True) else ((if time_Sub d now < mtuPollMaxTimeout
      then time_Sub d now else mtuPollMaxTimeout) sdiv 1000000, False))"
    using assms(2,3) n by (simp_all add: pollTimeout_def Let_def)
  moreover have "0 \<le> x sdiv 1000000 \<and> x sdiv 1000000 \<le> 200" if "0 < x" "x \<le> 200 * 1000000" for x :: int
    using that by (simp add: signed_divide_int_def) linarith
  ultimately show ?thesis
    by (auto simp: time_Sub_def mtuPollMaxTimeout_def split: if_splits)
qed

lemma poll_turn_ok:
  assumes "socket_laws N S V B" and "quiet V (cx_Err ctx)" and "cx_Deadline ctx = Some d"
    and "run_state (poll_turn M N S ctx q fd s seq sendTime) w = (t, w')"
    and "sendTime \<le> mv_clock (V w)" and "B < q"
  shows "turn_ok M V s seq w t w' \<and> (t = Again \<longrightarrow> mv_clock (V w) < d \<and> mv_clock (V w) < mv_clock (V w'))"
proof -
  obtain ce w1 where c: "run_state (cx_Err ctx) w = (ce, w1)" by force
  obtain ms expired w2 where pt: "run_state (pollTimeout N ctx) w1 = ((ms, expired), w2)" by (metis prod_cases3 surj_pair)
  obtain p w3 where p: "run_state (sk_Poll S fd ms) w2 = (p, w3)" by force
  obtain ce2 w4 where c2: "run_state (cx_Err ctx) w3 = (ce2, w4)" by force
  have a: "went V w [] w1" "went V w1 [] w2" "went V w2 [] w3" "went V w3 [] w4"
    using quietD [OF assms(2)] c c2 pollTimeout_ok [OF assms(1) pt assms(3)] assms(1) p by (auto simp: socket_laws_def)
  have lt: "mv_clock (V w2) < mv_clock (V w3)" using assms(1) p by (auto simp: socket_laws_def)
  have d: "\<not> expired \<Longrightarrow> mv_clock (V w2) < d" using pollTimeout_ok [OF assms(1) pt assms(3)] by auto
  have w: "went V w [] w2" "went V w [] w3" "went V w [] w4"
    using went_trans [OF a(1,2)] went_trans [OF went_trans [OF a(1,2)] a(3)]
      went_trans [OF went_trans [OF went_trans [OF a(1,2)] a(3)] a(4)] by simp_all
  have k: "mv_clock (V w) \<le> mv_clock (V w2)" "mv_clock (V w3) \<le> mv_clock (V w4)" "sendTime \<le> mv_clock (V w4)"
    using w a(4) assms(5) by (simp_all add: went_def)
  show ?thesis
  proof (cases "ce = None \<and> \<not> expired \<and> (\<exists>n revents. p = Inr (n, revents) \<and> ce2 = None \<and> n \<noteq> 0)")
    case True
    then obtain n revents where "ce = None" "\<not> expired" "p = Inr (n, revents)" "ce2 = None" "n \<noteq> 0" by blast
    with assms(4) c pt p c2 have e: "run_state (event_turn M N S q fd s seq sendTime revents) w4 = (t, w')"
      by (simp add: poll_turn_def)
    from event_turn_ok [OF assms(1) e k(3) assms(6)] have o4: "turn_ok M V s seq w4 t w'" .
    then have "mv_clock (V w4) \<le> mv_clock (V w')" by (auto simp: turn_ok_def went_def)
    with o4 turn_ok_later [OF w(3)] k lt d \<open>\<not> expired\<close> show ?thesis by simp
  next
    case False
    then show ?thesis using assms(4) c pt p c2 a(1) w k lt d
      by (auto simp: poll_turn_def turn_ok_quiet split: option.splits sum.splits if_splits prod.splits)
  qed
qed

lemma poll_loop_ok:
  assumes "socket_laws N S V B" and "quiet V (cx_Err ctx)" and "cx_Deadline ctx = Some d" and "B < q"
    and "run_state (poll_loop M N S ctx q fd s seq sendTime fuel) w = (r, w')"
    and "sendTime \<le> mv_clock (V w)" and "d - mv_clock (V w) < int fuel" and "0 < fuel"
  shows "\<exists>p xs. r = Some p \<and> went V w xs w' \<and> verdict_ok M s seq xs p"
  using assms(5-8)
proof (induction fuel arbitrary: w)
  case (Suc fuel)
  obtain t w1 where t: "run_state (poll_turn M N S ctx q fd s seq sendTime) w = (t, w1)" by force
  note o1 = poll_turn_ok [OF assms(1-3) t Suc.prems(2) assms(4)]
  show ?case
  proof (cases t)
    case (Verdict p)
    with o1 Suc.prems(1) t show ?thesis by (auto simp: turn_ok_def)
  next
    case Draining
    with o1 show ?thesis by (simp add: turn_ok_def)
  next
    case Again
    with o1 obtain xs where xs: "went V w xs w1" "list_all (\<lambda>x. \<not> echoReplyMatchesSequence M seq x) xs"
      and lt: "mv_clock (V w) < d" "mv_clock (V w) < mv_clock (V w1)" by (auto simp: turn_ok_def)
    have "run_state (poll_loop M N S ctx q fd s seq sendTime fuel) w1 = (r, w')" using Suc.prems(1) t Again by simp
    from Suc.IH [OF this] lt Suc.prems(2,3)
    obtain p ys where ys: "r = Some p" "went V w1 ys w'" "verdict_ok M s seq ys p" by fastforce
    from ys(3) have "verdict_ok M s seq (xs @ ys) p"
      unfolding verdict_ok_def using first_match_append [OF xs(2)] by blast
    with went_trans [OF xs(1) ys(2)] ys(1) show ?thesis by blast
  qed
qed simp

lemma closed_again:
  assumes "socket_laws N S V B" and "run_state (sk_Close S fd) w = (u, w')"
  shows "mv_open (V w') = mv_open (V w) - {fd} \<and> mv_read (V w') = mv_read (V w) \<and> mv_clock (V w) \<le> mv_clock (V w')"
  using assms unfolding socket_laws_def by blast

lemma open_steps_ok:
  assumes "socket_laws N S V B" and "\<forall>m \<in> snd ` set steps. quiet V m"
    and "run_state (open_steps S fd steps) w = (r, w')"
  shows "case r of Inr fd' \<Rightarrow> fd' = fd \<and> went V w [] w'
    | Inl _ \<Rightarrow> mv_open (V w') = mv_open (V w) - {fd} \<and> mv_read (V w') = mv_read (V w) \<and> mv_clock (V w) \<le> mv_clock (V w')"
  using assms(2,3)
proof (induction steps arbitrary: w)
  case (Cons st steps)
  obtain what m where st: "st = (what, m)" by force
  obtain e w1 where e: "run_state m w = (e, w1)" by force
  have q: "went V w [] w1" using Cons.prems(1) st e quietD by fastforce
  show ?case
  proof (cases e)
    case None
    then have "run_state (open_steps S fd steps) w1 = (r, w')" using Cons.prems(2) st e by simp
    moreover have "\<forall>m \<in> snd ` set steps. quiet V m" using Cons.prems(1) by simp
    ultimately have i: "case r of Inr fd' \<Rightarrow> fd' = fd \<and> went V w1 [] w'
      | Inl _ \<Rightarrow> mv_open (V w') = mv_open (V w1) - {fd} \<and> mv_read (V w') = mv_read (V w1) \<and> mv_clock (V w1) \<le> mv_clock (V w')"
      using Cons.IH by blast
    show ?thesis by (cases r) (use i q in \<open>auto simp: went_def\<close>)
  next
    case (Some n)
    obtain u w2 where c: "run_state (sk_Close S fd) w1 = (u, w2)" by (cases "run_state (sk_Close S fd) w1")
    with Some Cons.prems(2) st e q closed_again [OF assms(1) c] show ?thesis by (auto simp: went_def)
  qed
qed auto

lemma open_ok:
  assumes "socket_laws N S V B" and "run_state (openMTUPingSocket S dst) w = (r, w')"
  shows "mv_read (V w') = mv_read (V w) \<and> mv_clock (V w) \<le> mv_clock (V w') \<and>
    (case r of Inl _ \<Rightarrow> mv_open (V w') = mv_open (V w)
     | Inr fd \<Rightarrow> fd \<notin> mv_open (V w) \<and> mv_open (V w') = insert fd (mv_open (V w)))"
proof (cases "To4 dst")
  case None
  with assms(2) show ?thesis by (auto simp: openMTUPingSocket_def)
next
  case (Some addr)
  obtain sock w1 where s: "run_state (sk_Socket S) w = (sock, w1)" by force
  with assms(1) have l: "mv_clock (V w) \<le> mv_clock (V w1)" "mv_read (V w1) = mv_read (V w)"
    "case sock of Inl _ \<Rightarrow> mv_open (V w1) = mv_open (V w)
      | Inr fd \<Rightarrow> fd \<notin> mv_open (V w) \<and> mv_open (V w1) = insert fd (mv_open (V w))"
    unfolding socket_laws_def by blast+
  show ?thesis
  proof (cases sock)
    case (Inl e)
    with assms(2) Some s l show ?thesis by (auto simp: openMTUPingSocket_def)
  next
    case (Inr fd)
    let ?steps = "[(''set IP_RECVERR: %w'', sk_SetsockoptInt S fd IPPROTO_IP IP_RECVERR 1),
      (''set IP_MTU_DISCOVER: %w'', sk_SetsockoptInt S fd IPPROTO_IP IP_MTU_DISCOVER IP_PMTUDISC_PROBE),
      (''connect ping socket: %w'', sk_Connect S fd addr), (''set nonblock: %w'', sk_SetNonblock S fd)]"
    have q: "\<forall>m \<in> snd ` set ?steps. quiet V m" using assms(1) by (cases addr) (auto simp: socket_laws_def)
    have "run_state (open_steps S fd ?steps) w1 = (r, w')" using assms(2) Some s Inr by (simp add: openMTUPingSocket_def)
    from open_steps_ok [OF assms(1) q this] l Inr show ?thesis by (auto simp: went_def split: sum.splits)
  qed
qed

lemma probe_on_socket_ok:
  assumes "socket_laws N S V B" and "quiet V (cx_Err ctx)" and "cx_Deadline ctx = Some d" and "B < q"
    and "run_state (probe_on_socket M N S ctx q fuel fd s seq) w = (r, w')"
    and "d - mv_clock (V w) < int fuel" and "0 < fuel"
  shows "\<exists>p xs. r = Some p \<and> went V w xs w' \<and> verdict_ok M s seq xs p"
proof (cases "ip_Marshal M (echo_message 0 seq (nat s))")
  case (Inl e)
  with assms(5) show ?thesis by (auto simp: probe_on_socket_def intro!: exI [of _ "[]"])
next
  case (Inr wire)
  obtain t w1 where t: "run_state (op_Now N) w = (t, w1)" by force
  obtain we w2 where we: "run_state (sk_Write S fd wire) w1 = (we, w2)" by force
  have a: "went V w [] w1" "went V w1 [] w2" "t = mv_clock (V w1)"
    using assms(1) t we by (auto simp: socket_laws_def quiet_def)
  have w: "went V w [] w2" using went_trans [OF a(1,2)] by simp
  show ?thesis
  proof (cases we)
    case None
    then have "run_state (poll_loop M N S ctx q fd s seq t fuel) w2 = (r, w')"
      using assms(5) Inr t we by (simp add: probe_on_socket_def)
    from poll_loop_ok [OF assms(1-4) this] a w assms(6,7) went_trans [OF w] show ?thesis by (fastforce simp: went_def)
  next
    case (Some e)
    obtain dr w3 where dr: "run_state (drainMTUErrorQueue S fd seq q) w2 = (dr, w3)" by force
    have q: "mv_queue (V w2) < q" using assms(1,4) unfolding socket_laws_def by (meson le_less_trans)
    from drain_ends [OF assms(1) dr q] w have "went V w [] w3" "dr \<noteq> None" using went_trans [OF w] by auto
    with Some assms(5) Inr t we dr w show ?thesis
      by (cases "e = EMSGSIZE") (auto simp: probe_on_socket_def intro!: exI [of _ "[]"])
  qed
qed

text \<open>
  C25: a probe on the ping socket returns. With a context that has a deadline, as every attempt has, and an
  error queue of at most \<open>B\<close> entries, the loop ends after at most as many turns as nanoseconds are left, and
  draining the queue after at most \<open>B + 1\<close> reads. The verdict carries the size that was asked for; it is a success
  exactly if a reply with the sequence number was read, which is the last packet read and the first that matches, and
  exactly then it has no error. Every descriptor that was opened is closed, whatever fails.
\<close>

theorem probePingSocket_returns:
  assumes "socket_laws N S V B" and "quiet V (cx_Err ctx)" and "cx_Deadline ctx = Some d" and "B < q"
    and "run_state (probePingSocket M N S q fuel ctx dst payloadSize seq) w = (r, w')"
    and "d - mv_clock (V w) < int fuel" and "0 < fuel"
  shows "\<exists>p xs. r = Some p \<and> mp_payloadSize p = payloadSize \<and> 0 \<le> mp_rtt p
    \<and> (mp_status p = mtuPayloadSuccess \<longleftrightarrow> mp_err p = None)
    \<and> mv_read (V w') = mv_read (V w) @ xs
    \<and> first_match (echoReplyMatchesSequence M seq) xs (mp_status p = mtuPayloadSuccess)
    \<and> mv_open (V w') = mv_open (V w)"
proof -
  obtain sock w1 where s: "run_state (openMTUPingSocket S dst) w = (sock, w1)" by force
  note o1 = open_ok [OF assms(1) s]
  show ?thesis
  proof (cases sock)
    case (Inl e)
    then have "r = Some (mtu_result payloadSize mtuPayloadError e)" "w' = w1"
      using assms(5) s by (simp_all add: probePingSocket_def)
    with o1 Inl show ?thesis by (auto simp: mtu_result_def)
  next
    case (Inr fd)
    obtain r1 w2 where p: "run_state (probe_on_socket M N S ctx q fuel fd payloadSize seq) w1 = (r1, w2)" by force
    obtain u w3 where c: "run_state (sk_Close S fd) w2 = (u, w3)" by (cases "run_state (sk_Close S fd) w2")
    have "r = r1" "w' = w3" using assms(5) s Inr p c by (simp_all add: probePingSocket_def)
    moreover have "d - mv_clock (V w1) < int fuel" using o1 assms(6) by simp
    from probe_on_socket_ok [OF assms(1-4) p this assms(7)]
    obtain v xs where "r1 = Some v" "went V w1 xs w2" "verdict_ok M payloadSize seq xs v" by blast
    ultimately show ?thesis
      using closed_again [OF assms(1) c] o1 Inr by (auto simp: verdict_ok_def went_def)
  qed
qed

text \<open>The back end keeps what the prober needs of it, with any fuel.\<close>

lemma probe_size: "always (probePingSocket M N S q fuel ctx dst s seq) (\<lambda>r. \<forall>p. r = Some p \<longrightarrow> mp_payloadSize p = s)"
proof -
  have r: "mp_payloadSize (mtu_result s st e) = s" for st e by (simp add: mtu_result_def)
  have t: "always (poll_turn M N S ctx q fd s seq t) (\<lambda>t. \<forall>p. t = Verdict p \<longrightarrow> mp_payloadSize p = s)" for fd t
    unfolding poll_turn_def event_turn_def read_turn_def by (intro always_intro) (auto simp: r)
  have "always (poll_loop M N S ctx q fd s seq t fuel) (\<lambda>r. \<forall>p. r = Some p \<longrightarrow> mp_payloadSize p = s)" for fd t
  proof (induction fuel)
    case (Suc fuel)
    show ?case unfolding poll_loop.simps
      by (rule always_bind [OF t]) (use Suc in \<open>auto split: turn.splits intro: always_ret\<close>)
  qed (simp add: always_def)
  then have p: "always (probe_on_socket M N S ctx q fuel fd s seq) (\<lambda>r. \<forall>p. r = Some p \<longrightarrow> mp_payloadSize p = s)" for fd
    unfolding probe_on_socket_def by (intro always_intro) (auto simp: r)
  show ?thesis unfolding probePingSocket_def
    by (intro always_bindT always_case_sum always_ret always_bind [OF p]) (auto simp: r)
qed

interpretation linux: mtu_backend "pingSocketMTUBackend M N S q fuel WithTimeout"
  for M and N :: "('w, 'c) net_ops" and S :: "'w socket_ops" and q fuel and WithTimeout :: "duration \<Rightarrow> ('w, 'w ctx) io"
proof unfold_locales
  fix timeout dst s seq
  show "always (be_probePayloadWithDF (pingSocketMTUBackend M N S q fuel WithTimeout) timeout dst s seq)
      (\<lambda>p. mp_status p = mtuPayloadSuccess \<longrightarrow> mp_payloadSize p = s)"
    unfolding pingSocketMTUBackend_def mtuProbeBackend.simps ping_attempt_def
    by (rule always_bindT, rule always_bind [OF probe_size], rule always_ret)
      (auto simp: mtu_result_def split: option.splits)
qed

section \<open>Witnesses\<close>

text \<open>
  A world with a clock, the open descriptors, the packets that will arrive and those read. The first reply has
  another sequence number.
\<close>

type_synonym sock_world = "gotime \<times> int list \<times> byte list list \<times> byte list list"

definition sock_net :: "(sock_world, unit) net_ops" where
  "sock_net = \<lparr>op_Now = State (\<lambda>(t, w). (t, (t, w))), op_CtxErr = ret None, op_LookupIP = (\<lambda>_ _ _. ret (Inr [])),
     op_LookupIPAddr = (\<lambda>_ _. ret (Inr [])), op_LookupCNAME = (\<lambda>_ _. ret (Inr [])),
     op_Dial = (\<lambda>_ _. ret (Inr ())), op_Delay = (\<lambda>_. ret None), op_Pick = ret True, op_Cancel = ret (), op_Close = (\<lambda>_. ret ())\<rparr>"

definition fresh_fd :: "int list \<Rightarrow> int" where
  "fresh_fd fds = foldr max fds 2 + 1"

lemma fresh_fd_new: "fresh_fd fds \<notin> set fds"
proof -
  have "fd \<in> set fds \<Longrightarrow> fd \<le> foldr max fds 2" for fd :: int by (induction fds) auto
  then show ?thesis by (fastforce simp: fresh_fd_def)
qed

definition sock_calls :: "sock_world socket_ops" where
  "sock_calls =
     \<lparr>sk_Socket = State (\<lambda>(t, fds, w). (Inr (fresh_fd fds), (t, fresh_fd fds # fds, w))),
      sk_SetsockoptInt = (\<lambda>_ _ _ _. ret None), sk_Connect = (\<lambda>_ _. ret None), sk_SetNonblock = (\<lambda>_. ret None),
      sk_Write = (\<lambda>_ _. ret None),
      sk_Poll = (\<lambda>_ _. State (\<lambda>(t, w). (Inr (1, POLLIN), (t + 1, w)))),
      sk_Read = (\<lambda>_ _. State (\<lambda>(t, fds, q, l). case q of [] \<Rightarrow> (Inl EAGAIN, (t, fds, q, l)) | d # q' \<Rightarrow> (Inr d, (t, fds, q', l @ [d])))),
      sk_Recvmsg = (\<lambda>_ _ _. ret (Inl EAGAIN)),
      sk_Close = (\<lambda>fd. State (\<lambda>(t, fds, w). ((), (t, filter (\<lambda>x. x \<noteq> fd) fds, w)))),
      sk_Cmsgs = (\<lambda>_. Inr []), sk_Endian = LittleEndian\<rparr>"

definition sock_see :: "sock_world \<Rightarrow> mtu_view" where
  "sock_see w = (case w of (t, fds, q, l) \<Rightarrow> \<lparr>mv_clock = t, mv_open = set fds, mv_read = l, mv_queue = 0\<rparr>)"

lemma sock_laws_small: "socket_laws sock_net sock_calls sock_see 0"
  using fresh_fd_new
  by (auto simp: socket_laws_def quiet_def went_def sock_net_def sock_calls_def sock_see_def split: list.splits)

definition sock_ctx :: "sock_world ctx" where
  "sock_ctx = \<lparr>cx_Err = ret None, cx_Deadline = Some 4\<rparr>"

lemmas sock_eval = probePingSocket_def openMTUPingSocket_def probe_on_socket_def poll_turn_def event_turn_def read_turn_def
  pollTimeout_def echoReplyMatchesSequence_def sock_net_def sock_calls_def sock_ctx_def ping_pkg_def To4_def
  ICMPTypeEchoReply_def time_Sub_def linux_defs

theorem probePingSocket_returns_witness:
  "\<exists>p. fst (run_state (probePingSocket ping_pkg sock_net sock_calls 1 4 sock_ctx [0, 0, 0, 0, 0, 65535, 2560, 1] 64 5)
       (1, [0, 1], [[9], [5]], [])) = Some p \<and> mp_status p = mtuPayloadSuccess \<and> mp_err p = None
     \<and> mv_open (sock_see (snd (run_state (probePingSocket ping_pkg sock_net sock_calls 1 4 sock_ctx [0, 0, 0, 0, 0, 65535, 2560, 1] 64 5)
       (1, [0, 1], [[9], [5]], [])))) = {0, 1}"
proof -
  let ?m = "probePingSocket ping_pkg sock_net sock_calls 1 4 sock_ctx [0, 0, 0, 0, 0, 65535, 2560, 1] 64 5"
  let ?w = "(1, [0, 1], [[9], [5]], []) :: sock_world"
  have c: "quiet sock_see (cx_Err sock_ctx)" "cx_Deadline sock_ctx = Some 4" by (simp_all add: quiet_def sock_ctx_def)
  have "map_option mp_status (fst (run_state (probePingSocket ping_pkg sock_net sock_calls 1 (Suc (Suc k)) sock_ctx
      [0, 0, 0, 0, 0, 65535, 2560, 1] 64 5) ?w)) = Some mtuPayloadSuccess" for k
    by (simp add: sock_eval)
  from this [of 2] have e: "map_option mp_status (fst (run_state ?m ?w)) = Some mtuPayloadSuccess" by simp
  have "\<exists>p xs. fst (run_state ?m ?w) = Some p \<and> (mp_status p = mtuPayloadSuccess \<longleftrightarrow> mp_err p = None)
      \<and> mv_open (sock_see (snd (run_state ?m ?w))) = mv_open (sock_see ?w)"
    using probePingSocket_returns [OF sock_laws_small c, of 1 ping_pkg 4 "[0, 0, 0, 0, 0, 65535, 2560, 1]" 64 5 ?w
      "fst (run_state ?m ?w)" "snd (run_state ?m ?w)"] by (auto simp: sock_see_def)
  with e show ?thesis by (auto simp: sock_see_def)
qed


end
