(* ===== verification/Doctor.thy ===== *)
theory Doctor
  imports Config_Facts Probe_MTU_Linux
begin

text \<open>
  \<^verbatim>\<open>internal/doctor\<close>: the diagnostics of \<^verbatim>\<open>--doctor\<close>. The functions of \<^verbatim>\<open>Env\<close> and the calls to the
  operating system they default to are parameters; a nil function is \<open>None\<close>. A text is a value of
  \<open>goerr\<close>, a format with its operands, as in the rest of the development; a slice operand is the list of its elements.
\<close>

section \<open>Texts in lines and fields\<close>

fun split_by :: "(char \<Rightarrow> bool) \<Rightarrow> string \<Rightarrow> string list" where
  "split_by P [] = [[]]"
| "split_by P (c # s) =
     (if P c then [] # split_by P s else (case split_by P s of [] \<Rightarrow> [[c]] | f # fs \<Rightarrow> (c # f) # fs))"

text \<open>\<^verbatim>\<open>strings.Fields\<close> and \<^verbatim>\<open>strings.Split(s, "\n")\<close>.\<close>

definition Fields :: "string \<Rightarrow> string list" where
  "Fields s = filter (\<lambda>f. f \<noteq> []) (split_by is_space s)"

definition Split_lines :: "string \<Rightarrow> string list" where
  "Split_lines s = split_by (\<lambda>c. c = CHR 10) s"

section \<open>Data\<close>

datatype Severity = Pass | Warn | Fail | Skip

record Check =
  ck_Section :: string
  ck_Name :: string
  ck_Severity :: Severity
  ck_Detail :: goerr
  ck_Hint :: string

record Result =
  rs_ConfigPath :: string
  rs_TargetCounts :: "int gomap"
  rs_Checks :: "Check list"

text \<open>The functions of \<^verbatim>\<open>Env\<close>; those of the package \<^verbatim>\<open>os\<close> and \<^verbatim>\<open>listenTCP\<close> replace nil ones.\<close>

record 'w Env =
  de_ReadFile :: "(string \<Rightarrow> ('w, string res) io) option"
  de_Getuid :: "('w, int) io option"
  de_Getgid :: "('w, int) io option"
  de_Getgroups :: "('w, int list res) io option"
  de_OpenUnprivilegedICMP :: "('w, goerr option) io option"
  de_CheckMTUPingSocket :: "('w, goerr option) io option"
  de_ListenTCP :: "(string \<Rightarrow> ('w, goerr option) io) option"

record ('w, 'l) os_ops =
  os_ReadFile :: "string \<Rightarrow> ('w, string res) io"
  os_Getuid :: "('w, int) io"
  os_Getgid :: "('w, int) io"
  os_Getgroups :: "('w, int list res) io"
  os_Listen :: "string \<Rightarrow> ('w, goerr + 'l) io"
  os_CloseListener :: "'l \<Rightarrow> ('w, unit) io"

section \<open>Pure helpers\<close>

definition plain :: "string \<Rightarrow> goerr" where "plain s = Errorf s []"

definition parsePingGroupRange :: "string \<Rightarrow> (int \<times> int) res" where
  "parsePingGroupRange text =
     (case Fields text of
        [a, b] \<Rightarrow>
          (case Atoi a of
             None \<Rightarrow> Inl (Errorf ''invalid start gid %q: %w'' [FStr a, FErr (SysErr ''strconv.Atoi'')])
           | Some start \<Rightarrow>
               (case Atoi b of
                  None \<Rightarrow> Inl (Errorf ''invalid end gid %q: %w'' [FStr b, FErr (SysErr ''strconv.Atoi'')])
                | Some end \<Rightarrow> Inr (start, end)))
      | _ \<Rightarrow> Inl (Errorf ''expected two integers, got %q'' [FStr (TrimSpace text)]))"

definition anyGIDInRange :: "int list \<Rightarrow> int \<Rightarrow> int \<Rightarrow> bool" where
  "anyGIDInRange gids start end = list_ex (\<lambda>gid. gid \<ge> start \<and> gid \<le> end) gids"

definition nameserver_of :: "string \<Rightarrow> string option" where
  "nameserver_of line0 =
     (let line = TrimSpace line0 in
      if line = [] \<or> HasPrefix line ''#'' \<or> HasPrefix line '';'' then None
      else (case Fields line of k # v # _ \<Rightarrow> if k = ''nameserver'' then Some v else None | _ \<Rightarrow> None))"

definition parseNameservers :: "string \<Rightarrow> string list" where
  "parseNameservers resolvConf = List.map_filter nameserver_of (Split_lines resolvConf)"

definition countDNSTargets :: "TargetConfig list \<Rightarrow> int \<times> int" where
  "countDNSTargets targets =
     foldl (\<lambda>(total, without) t.
        if tc_ProbeType t \<noteq> ProbeTypeDNS then (total, without)
        else (total + 1, if po_DNSServer (tc_ProbeOpts t) = [] then without + 1 else without)) (0, 0) targets"

definition sortedProbeTypes :: "int gomap \<Rightarrow> string list" where
  "sortedProbeTypes counts = sort (mkeys counts)"

fun unique_from :: "int list \<Rightarrow> int list \<Rightarrow> int list" where
  "unique_from seen [] = []"
| "unique_from seen (v # vs) = (if v \<in> set seen then unique_from seen vs else v # unique_from (v # seen) vs)"

definition uniqueInts :: "int list \<Rightarrow> int list" where
  "uniqueInts values = sort (unique_from [] values)"

section \<open>The checks\<close>

definition add_check :: "string \<Rightarrow> string \<Rightarrow> Severity \<Rightarrow> goerr \<Rightarrow> string \<Rightarrow> Result \<Rightarrow> Result" where
  "add_check sec name sev detail hint r =
     r\<lparr>rs_Checks := rs_Checks r @ [\<lparr>ck_Section = sec, ck_Name = name, ck_Severity = sev, ck_Detail = detail, ck_Hint = hint\<rparr>]\<rparr>"

definition listenTCP :: "('w, 'l) os_ops \<Rightarrow> string \<Rightarrow> ('w, goerr option) io" where
  "listenTCP OS addr = do {
     ln \<leftarrow> os_Listen OS addr;
     (case ln of Inl e \<Rightarrow> ret (Some e) | Inr l \<Rightarrow> do { os_CloseListener OS l; ret None })
   }"

fun or_default :: "'a option \<Rightarrow> 'a \<Rightarrow> 'a option" where
  "or_default None d = Some d"
| "or_default (Some x) d = Some x"

definition fillEnvDefaults :: "('w, 'l) os_ops \<Rightarrow> 'w Env \<Rightarrow> 'w Env" where
  "fillEnvDefaults OS env =
     env\<lparr>de_ReadFile := or_default (de_ReadFile env) (os_ReadFile OS),
         de_Getuid := or_default (de_Getuid env) (os_Getuid OS),
         de_Getgid := or_default (de_Getgid env) (os_Getgid OS),
         de_Getgroups := or_default (de_Getgroups env) (os_Getgroups OS),
         de_ListenTCP := or_default (de_ListenTCP env) (listenTCP OS)\<rparr>"

definition checkProcess :: "'w Env \<Rightarrow> Result \<Rightarrow> ('w, Result) io" where
  "checkProcess env r = do {
     uid \<leftarrow> the (de_Getuid env);
     gid \<leftarrow> the (de_Getgid env);
     groups \<leftarrow> the (de_Getgroups env);
     ret (case groups of
            Inl err \<Rightarrow> add_check ''Process'' ''uid/gid'' Warn
              (Errorf ''uid=%d gid=%d; could not determine supplementary groups: %s'' [FInt uid, FInt gid, FErr err]) [] r
          | Inr gs \<Rightarrow> add_check ''Process'' ''uid/gid/groups'' Pass
              (Errorf ''uid=%d gid=%d groups=%v'' ([FInt uid, FInt gid] @ map FInt (uniqueInts (gid # gs)))) [] r)
   }"

definition checkListenAddr :: "'w Env \<Rightarrow> string \<Rightarrow> Result \<Rightarrow> ('w, Result) io" where
  "checkListenAddr env addr r = do {
     err \<leftarrow> the (de_ListenTCP env) addr;
     ret (case err of
            Some e \<Rightarrow> add_check ''ListenAddr'' (''bind '' @ addr) Fail e ''Free the port or change agent.listen_addr.'' r
          | None \<Rightarrow> add_check ''ListenAddr'' (''bind '' @ addr) Pass (plain ''ok'') [] r)
   }"

text \<open>The end of \<^verbatim>\<open>checkPingGroupRange\<close>: the verdict on the groups.\<close>

definition range_verdict :: "string \<Rightarrow> int \<Rightarrow> int \<Rightarrow> int list \<Rightarrow> Result \<Rightarrow> Result" where
  "range_verdict sec start end gids r =
     (if anyGIDInRange gids start end
      then add_check sec ''ping_group_range'' Pass (Errorf ''%d %d includes gids %v'' ([FInt start, FInt end] @ map FInt gids)) [] r
      else add_check sec ''ping_group_range'' Fail
        (Errorf ''%d %d does not include gids %v'' ([FInt start, FInt end] @ map FInt gids))
        ''Set net.ipv4.ping_group_range to include the process effective or supplementary GID.'' r)"

definition checkPingGroupRange :: "'w Env \<Rightarrow> string \<Rightarrow> Result \<Rightarrow> ('w, Result) io" where
  "checkPingGroupRange env sec r = do {
     data \<leftarrow> the (de_ReadFile env) ''/proc/sys/net/ipv4/ping_group_range'';
     (case data of
        Inl e \<Rightarrow> ret (add_check sec ''ping_group_range'' Warn e
          ''Could not verify whether the kernel allows unprivileged ICMP for this process.'' r)
      | Inr text \<Rightarrow>
          (case parsePingGroupRange text of
             Inl e \<Rightarrow> ret (add_check sec ''ping_group_range'' Warn e ''Could not parse net.ipv4.ping_group_range.'' r)
           | Inr (start, end) \<Rightarrow> do {
               gid \<leftarrow> the (de_Getgid env);
               groups \<leftarrow> the (de_Getgroups env);
               ret (case groups of
                      Inl e \<Rightarrow> range_verdict sec start end (uniqueInts [gid])
                        (add_check sec ''supplementary groups'' Warn e ''Checking primary GID only.'' r)
                    | Inr gs \<Rightarrow> range_verdict sec start end (uniqueInts (gid # gs)) r)
             }))
   }"

definition target_count :: "Result \<Rightarrow> string \<Rightarrow> int" where
  "target_count r ty = (case mget (rs_TargetCounts r) ty of None \<Rightarrow> 0 | Some n \<Rightarrow> n)"

definition socket_verdict :: "string \<Rightarrow> string \<Rightarrow> goerr option \<Rightarrow> Result \<Rightarrow> Result" where
  "socket_verdict sec name err r =
     (case err of
        Some e \<Rightarrow> add_check sec name Fail e
          ''Ensure net.ipv4.ping_group_range includes the process effective or supplementary GID.'' r
      | None \<Rightarrow> add_check sec name Pass (plain ''ok'') [] r)"

definition checkICMP :: "'w Env \<Rightarrow> Result \<Rightarrow> ('w, Result) io" where
  "checkICMP env r =
     (if target_count r ProbeTypeICMP = 0
      then ret (add_check ''ICMP'' ''environment'' Skip (plain ''no icmp targets in config'') [] r)
      else case de_OpenUnprivilegedICMP env of
        None \<Rightarrow> ret (add_check ''ICMP'' ''environment'' Warn (plain ''not supported on this platform'')
          ''ICMP checks require a Linux runtime.'' r)
      | Some openICMP \<Rightarrow> do {
          r1 \<leftarrow> checkPingGroupRange env ''ICMP'' r;
          err \<leftarrow> openICMP;
          ret (socket_verdict ''ICMP'' ''unprivileged socket'' err r1)
        })"

definition checkMTU :: "'w Env \<Rightarrow> Result \<Rightarrow> ('w, Result) io" where
  "checkMTU env r =
     (if target_count r ProbeTypeMTU = 0
      then ret (add_check ''MTU'' ''environment'' Skip (plain ''no mtu targets in config'') [] r)
      else case de_CheckMTUPingSocket env of
        None \<Rightarrow> ret (add_check ''MTU'' ''ping socket + PMTUDISC'' Warn (plain ''not supported on this platform'')
          ''MTU probes require a Linux runtime with ICMP ping socket support.'' r)
      | Some checkSocket \<Rightarrow> do {
          r1 \<leftarrow> checkPingGroupRange env ''MTU'' r;
          err \<leftarrow> checkSocket;
          ret (socket_verdict ''MTU'' ''ping socket + PMTUDISC'' err r1)
        })"

definition checkDNS :: "'w Env \<Rightarrow> TargetConfig list \<Rightarrow> Result \<Rightarrow> ('w, Result) io" where
  "checkDNS env targets r =
     (case countDNSTargets targets of (dnsTargets, without) \<Rightarrow>
        let sev = (if without > 0 then Fail else Warn);
            unused = ''All DNS targets configure dns_server; system resolver may be unused.''
        in if dnsTargets = 0 then ret (add_check ''DNS'' ''resolver'' Skip (plain ''no dns targets in config'') [] r)
           else do {
             data \<leftarrow> the (de_ReadFile env) ''/etc/resolv.conf'';
             ret (case data of
                    Inl e \<Rightarrow> add_check ''DNS'' ''resolv.conf'' sev e
                      (if without > 0 then ''DNS targets without probe_opts.dns_server need a working system resolver.'' else unused) r
                  | Inr text \<Rightarrow>
                      let ns = parseNameservers text in
                      if ns = [] then add_check ''DNS'' ''resolv.conf nameservers'' sev (plain ''none found'')
                        (if without > 0 then ''Add nameservers to /etc/resolv.conf or set probe_opts.dns_server for DNS targets.'' else unused) r
                      else add_check ''DNS'' ''resolv.conf nameservers'' Pass (Errorf ''%s'' (map FStr ns)) [] r)
           })"

section \<open>The run and its report\<close>

definition count_target :: "int gomap \<Rightarrow> TargetConfig \<Rightarrow> int gomap" where
  "count_target counts t =
     mput counts (tc_ProbeType t) ((case mget counts (tc_ProbeType t) of None \<Rightarrow> 0 | Some n \<Rightarrow> n) + 1)"

definition RunWithOptions :: "('w, 'l) os_ops \<Rightarrow> cfg_env \<Rightarrow> string \<Rightarrow> 'w Env \<Rightarrow> string \<Rightarrow> ('w, Result) io" where
  "RunWithOptions OS E configPath env0 listenAddrOverride =
     (let env = fillEnvDefaults OS env0;
          r0 = \<lparr>rs_ConfigPath = configPath, rs_TargetCounts = Some [], rs_Checks = []\<rparr>
      in case LoadConfig E configPath of
           Inl e \<Rightarrow> ret (add_check ''Config'' ''load config'' Fail e ''Fix the configuration file and run doctor again.'' r0)
         | Inr cfg \<Rightarrow> do {
             let addr = (if listenAddrOverride \<noteq> [] then listenAddrOverride else ac_ListenAddr (cf_Agent cfg));
             let targets = elems (cf_Targets cfg);
             let r1 = add_check ''Config'' ''load config'' Pass (Errorf ''targets=%d'' [FInt (int (length targets))]) []
               (r0\<lparr>rs_TargetCounts := foldl count_target (Some []) targets\<rparr>);
             r2 \<leftarrow> checkProcess env r1;
             r3 \<leftarrow> checkListenAddr env addr r2;
             r4 \<leftarrow> checkICMP env r3;
             r5 \<leftarrow> checkMTU env r4;
             checkDNS env targets r5
           })"

definition Result_OK :: "Result \<Rightarrow> bool" where
  "Result_OK r = list_all (\<lambda>c. ck_Severity c \<noteq> Fail) (rs_Checks r)"

definition sectionChecks :: "string \<Rightarrow> Result \<Rightarrow> Check list" where
  "sectionChecks sec r = filter (\<lambda>c. ck_Section c = sec) (rs_Checks r)"

definition sectionOrder :: "string list" where
  "sectionOrder = [''Config'', ''Process'', ''ListenAddr'', ''ICMP'', ''MTU'', ''DNS'']"

fun severity_text :: "Severity \<Rightarrow> string" where
  "severity_text Pass = ''PASS''" | "severity_text Warn = ''WARN''" | "severity_text Fail = ''FAIL''" | "severity_text Skip = ''SKIP''"

fun no_text :: "goerr \<Rightarrow> bool" where
  "no_text (Errorf f args) = (f = [])"
| "no_text (SysErr s) = (s = [])"

text \<open>The calls of \<^verbatim>\<open>Fprintf\<close> in order; \<open>[CHR 10]\<close> is the newline at the end of a format.\<close>

definition nl :: string where "nl = [CHR 10]"

definition check_text :: "Check \<Rightarrow> goerr list" where
  "check_text c =
     [Errorf ''  [%s] %s'' [FStr (severity_text (ck_Severity c)), FStr (ck_Name c)]]
     @ (if no_text (ck_Detail c) then [] else [Errorf '': %s'' [FErr (ck_Detail c)]])
     @ [Errorf nl []]
     @ (if ck_Hint c = [] then [] else [Errorf (''    hint: %s'' @ nl) [FStr (ck_Hint c)]])"

definition section_text :: "Result \<Rightarrow> string \<Rightarrow> goerr list" where
  "section_text r sec =
     (let checks = sectionChecks sec r in
      if checks = [] then []
      else [Errorf (''%s:'' @ nl) [FStr sec]] @ concat (map check_text checks) @ [Errorf nl []])"

definition WriteText :: "Result \<Rightarrow> goerr list" where
  "WriteText r =
     [Errorf (''NetSonar doctor'' @ nl @ nl) [], Errorf (''Config path: %s'' @ nl) [FStr (rs_ConfigPath r)]]
     @ (if elems (rs_TargetCounts r) = [] then []
        else [Errorf (''Targets:'' @ nl) []]
          @ map (\<lambda>ty. Errorf (''  %s: %d'' @ nl) [FStr ty, FInt (target_count r ty)]) (sortedProbeTypes (rs_TargetCounts r))
          @ [Errorf nl []])
     @ concat (map (section_text r) sectionOrder)
     @ [Errorf ((if Result_OK r then ''Result: OK'' else ''Result: FAIL'') @ nl) []]"

section \<open>The default environment\<close>

definition openUnprivilegedICMP :: "('w, goerr + 's) io \<Rightarrow> ('s \<Rightarrow> ('w, unit) io) \<Rightarrow> ('w, goerr option) io" where
  "openUnprivilegedICMP listen close = do {
     conn \<leftarrow> listen;
     (case conn of Inl e \<Rightarrow> ret (Some e) | Inr s \<Rightarrow> do { close s; ret None })
   }"

definition checkMTUPingSocket :: "'w socket_ops \<Rightarrow> ('w, goerr option) io" where
  "checkMTUPingSocket S = do {
     sock \<leftarrow> sk_Socket S;
     (case sock of
        Inl e \<Rightarrow> ret (Some (Errno e))
      | Inr fd \<Rightarrow> do {
          e1 \<leftarrow> sk_SetsockoptInt S fd IPPROTO_IP IP_RECVERR 1;
          r \<leftarrow> (case e1 of
               Some e \<Rightarrow> ret (Some (Errorf ''set IP_RECVERR: %w'' [FErr (Errno e)]))
             | None \<Rightarrow> do {
                 e2 \<leftarrow> sk_SetsockoptInt S fd IPPROTO_IP IP_MTU_DISCOVER IP_PMTUDISC_PROBE;
                 ret (map_option (\<lambda>e. Errorf ''set IP_MTU_DISCOVER: %w'' [FErr (Errno e)]) e2)
               });
          sk_Close S fd;
          ret r
        })
   }"

definition nil_Env :: "'w Env" where
  "nil_Env = \<lparr>de_ReadFile = None, de_Getuid = None, de_Getgid = None, de_Getgroups = None,
     de_OpenUnprivilegedICMP = None, de_CheckMTUPingSocket = None, de_ListenTCP = None\<rparr>"

definition DefaultEnv_linux ::
  "('w, 'l) os_ops \<Rightarrow> ('w, goerr + 's) io \<Rightarrow> ('s \<Rightarrow> ('w, unit) io) \<Rightarrow> 'w socket_ops \<Rightarrow> 'w Env" where
  "DefaultEnv_linux OS listen close S =
     (fillEnvDefaults OS nil_Env)\<lparr>de_OpenUnprivilegedICMP := Some (openUnprivilegedICMP listen close),
       de_CheckMTUPingSocket := Some (checkMTUPingSocket S)\<rparr>"

definition DefaultEnv_other :: "('w, 'l) os_ops \<Rightarrow> 'w Env" where
  "DefaultEnv_other OS = fillEnvDefaults OS nil_Env"

text \<open>The branch of \<^verbatim>\<open>run\<close> in \<^verbatim>\<open>cmd/agent/main.go\<close> for \<^verbatim>\<open>--doctor\<close>: the report and the exit code.\<close>

definition run_doctor :: "('w, 'l) os_ops \<Rightarrow> cfg_env \<Rightarrow> string \<Rightarrow> 'w Env \<Rightarrow> string \<Rightarrow> ('w, goerr list \<times> int) io" where
  "run_doctor OS E configPath env listenAddr = do {
     result \<leftarrow> RunWithOptions OS E configPath env listenAddr;
     ret (WriteText result, if Result_OK result then 0 else 1)
   }"

section \<open>Lists and counts\<close>

lemma unique_from_set: "set (unique_from seen vs) = set vs - set seen"
  by (induction seen vs rule: unique_from.induct) auto

lemma unique_from_distinct: "distinct (unique_from seen vs)"
  by (induction seen vs rule: unique_from.induct) (auto simp: unique_from_set)

lemma uniqueInts_set: "set (uniqueInts vs) = set vs" "distinct (uniqueInts vs)" "sorted (uniqueInts vs)"
  by (simp_all add: uniqueInts_def unique_from_set unique_from_distinct)

definition needs :: "string \<Rightarrow> TargetConfig list \<Rightarrow> bool" where
  "needs ty targets \<longleftrightarrow> (\<exists>t \<in> set targets. tc_ProbeType t = ty)"

definition count_of :: "int gomap \<Rightarrow> string \<Rightarrow> int" where
  "count_of m ty = (case mget m ty of None \<Rightarrow> 0 | Some n \<Rightarrow> n)"

lemma count_target_of: "count_of (count_target m t) ty = count_of m ty + (if tc_ProbeType t = ty then 1 else 0)"
  by (simp add: count_of_def count_target_def)

lemma count_targets: "count_of (foldl count_target m ts) ty = count_of m ty + int (length (filter (\<lambda>t. tc_ProbeType t = ty) ts))"
  by (induction ts arbitrary: m) (simp_all add: count_target_of)

lemma counted_iff_needed: "count_of (foldl count_target (Some []) ts) ty = 0 \<longleftrightarrow> \<not> needs ty ts"
proof -
  have "count_of (Some []) ty = 0" by (simp add: count_of_def mget_def)
  then show ?thesis by (auto simp: count_targets needs_def filter_empty_conv)
qed

lemma countDNSTargets_eq:
  "countDNSTargets ts = (int (length (filter (\<lambda>t. tc_ProbeType t = ProbeTypeDNS) ts)),
     int (length (filter (\<lambda>t. tc_ProbeType t = ProbeTypeDNS \<and> po_DNSServer (tc_ProbeOpts t) = []) ts)))"
proof -
  let ?f = "\<lambda>(total, without) t. if tc_ProbeType t \<noteq> ProbeTypeDNS then (total, without)
    else (total + 1, if po_DNSServer (tc_ProbeOpts t) = [] then without + 1 else without)"
  have "foldl ?f (a, b) ts = (a + int (length (filter (\<lambda>t. tc_ProbeType t = ProbeTypeDNS) ts)),
     b + int (length (filter (\<lambda>t. tc_ProbeType t = ProbeTypeDNS \<and> po_DNSServer (tc_ProbeOpts t) = []) ts)))" for a b :: int
    by (induction ts arbitrary: a b) auto
  from this [of 0 0] show ?thesis by (simp add: countDNSTargets_def)
qed

section \<open>Sections\<close>

text \<open>A check adds something to the end of the list, and only to its own section.\<close>

definition adds :: "string \<Rightarrow> Result \<Rightarrow> Result \<Rightarrow> bool" where
  "adds sec r r' \<longleftrightarrow> rs_TargetCounts r' = rs_TargetCounts r \<and>
     (\<exists>cs. cs \<noteq> [] \<and> rs_Checks r' = rs_Checks r @ cs \<and> (\<forall>c \<in> set cs. ck_Section c = sec))"

lemma adds_add_check [simp]:
  "adds sec r (add_check sec name sev d h r)" "adds sec r r' \<Longrightarrow> adds sec r (add_check sec name sev d h r')"
  by (force simp: adds_def add_check_def)+

lemma adds_verdicts [simp]:
  "adds sec r (range_verdict sec a b gids r)" "adds sec r r' \<Longrightarrow> adds sec r (range_verdict sec a b gids r')"
  "adds sec r r' \<Longrightarrow> adds sec r (socket_verdict sec name err r')"
  by (auto simp: range_verdict_def socket_verdict_def split: option.splits)

lemma checks_add:
  "always (checkProcess env r) (adds ''Process'' r)" "always (checkListenAddr env addr r) (adds ''ListenAddr'' r)"
  "always (checkPingGroupRange env sec r) (adds sec r)" "always (checkDNS env ts r) (adds ''DNS'' r)"
  unfolding checkProcess_def checkListenAddr_def checkPingGroupRange_def checkDNS_def
  by (intro always_intro; simp split: sum.splits option.splits; fail | auto intro!: always_intro split: sum.splits option.splits prod.splits simp: Let_def)+

lemma socket_checks_add:
  "always (checkICMP env r) (adds ''ICMP'' r)" "always (checkMTU env r) (adds ''MTU'' r)"
proof -
  have s: "always (do { r1 \<leftarrow> checkPingGroupRange env sec r; err \<leftarrow> m; ret (socket_verdict sec name err r1) }) (adds sec r)"
    for sec name and m :: "('a, goerr option) io"
    by (rule always_bind [OF checks_add(3)], rule always_bindT, rule always_ret) simp
  show "always (checkICMP env r) (adds ''ICMP'' r)" "always (checkMTU env r) (adds ''MTU'' r)"
    unfolding checkICMP_def checkMTU_def by (intro always_if always_case_option always_ret s; simp)+
qed

lemma sections_of_segments:
  assumes "\<And>c. c \<in> set a \<Longrightarrow> ck_Section c = ''Config''" "\<And>c. c \<in> set b \<Longrightarrow> ck_Section c = ''Process''"
    "\<And>c. c \<in> set d \<Longrightarrow> ck_Section c = ''ListenAddr''" "\<And>c. c \<in> set e \<Longrightarrow> ck_Section c = ''ICMP''"
    "\<And>c. c \<in> set f \<Longrightarrow> ck_Section c = ''MTU''" "\<And>c. c \<in> set g \<Longrightarrow> ck_Section c = ''DNS''"
    and "rs_Checks r = a @ b @ d @ e @ f @ g"
  shows "concat (map (\<lambda>sec. sectionChecks sec r) sectionOrder) = rs_Checks r"
proof -
  have same: "filter (\<lambda>c. ck_Section c = sec) cs = cs" if "\<And>c. c \<in> set cs \<Longrightarrow> ck_Section c = sec" for sec cs
    using that by (simp add: filter_id_conv)
  have other: "filter (\<lambda>c. ck_Section c = sec) cs = []" if "\<And>c. c \<in> set cs \<Longrightarrow> ck_Section c = sec'" "sec \<noteq> sec'" for sec sec' cs
    using that by (auto simp: filter_empty_conv)
  note o2 = other [OF assms(1)] other [OF assms(2)] other [OF assms(3)] other [OF assms(4)] other [OF assms(5)] other [OF assms(6)]
  note s2 = same [OF assms(1)] same [OF assms(2)] same [OF assms(3)] same [OF assms(4)] same [OF assms(5)] same [OF assms(6)]
  show ?thesis by (simp add: sectionOrder_def sectionChecks_def assms(7) o2 s2)
qed

lemma sections_cover:
  "let r = fst (run_state (RunWithOptions OS E path env override) w) in
    concat (map (\<lambda>sec. sectionChecks sec r) sectionOrder) = rs_Checks r
    \<and> (case LoadConfig E path of
         Inl e \<Rightarrow> map ck_Severity (rs_Checks r) = [Fail]
       | Inr _ \<Rightarrow> set (map ck_Section (rs_Checks r)) = set sectionOrder)"
proof (cases "LoadConfig E path")
  case (Inl e)
  then show ?thesis
    by (simp add: RunWithOptions_def add_check_def sectionOrder_def sectionChecks_def Let_def)
next
  case (Inr cfg)
  have "always (RunWithOptions OS E path env override) (\<lambda>r. \<exists>r1 r2 r3 r4 r5. rs_Checks r1 \<noteq> []
      \<and> (\<forall>c \<in> set (rs_Checks r1). ck_Section c = ''Config'') \<and> adds ''Process'' r1 r2 \<and> adds ''ListenAddr'' r2 r3
      \<and> adds ''ICMP'' r3 r4 \<and> adds ''MTU'' r4 r5 \<and> adds ''DNS'' r5 r)"
    unfolding RunWithOptions_def Let_def Inr sum.case
  proof (rule always_bind [OF checks_add(1)], rule always_bind [OF checks_add(2)], rule always_bind [OF socket_checks_add(1)],
      rule always_bind [OF socket_checks_add(2)], rule always_mono [OF checks_add(4)], goal_cases)
    case (1 r2 r3 r4 r5 r)
    then show ?case by (intro exI conjI; assumption?) (simp_all add: add_check_def)
  qed
  from alwaysD [OF this, of w] obtain r1 r2 r3 r4 r5 where
    s1: "rs_Checks r1 \<noteq> []" "\<And>c. c \<in> set (rs_Checks r1) \<Longrightarrow> ck_Section c = ''Config''"
    and ad: "adds ''Process'' r1 r2" "adds ''ListenAddr'' r2 r3" "adds ''ICMP'' r3 r4" "adds ''MTU'' r4 r5"
      "adds ''DNS'' r5 (fst (run_state (RunWithOptions OS E path env override) w))" by blast
  obtain b where b: "b \<noteq> []" "rs_Checks r2 = rs_Checks r1 @ b" "\<And>c. c \<in> set b \<Longrightarrow> ck_Section c = ''Process''"
    using ad(1) unfolding adds_def by blast
  obtain d where d: "d \<noteq> []" "rs_Checks r3 = rs_Checks r2 @ d" "\<And>c. c \<in> set d \<Longrightarrow> ck_Section c = ''ListenAddr''"
    using ad(2) unfolding adds_def by blast
  obtain e where e: "e \<noteq> []" "rs_Checks r4 = rs_Checks r3 @ e" "\<And>c. c \<in> set e \<Longrightarrow> ck_Section c = ''ICMP''"
    using ad(3) unfolding adds_def by blast
  obtain f where f: "f \<noteq> []" "rs_Checks r5 = rs_Checks r4 @ f" "\<And>c. c \<in> set f \<Longrightarrow> ck_Section c = ''MTU''"
    using ad(4) unfolding adds_def by blast
  obtain g where g: "g \<noteq> []" "rs_Checks (fst (run_state (RunWithOptions OS E path env override) w)) = rs_Checks r5 @ g"
      "\<And>c. c \<in> set g \<Longrightarrow> ck_Section c = ''DNS''"
    using ad(5) unfolding adds_def by blast
  let ?all = "rs_Checks r1 @ b @ d @ e @ f @ g"
  have all: "rs_Checks (fst (run_state (RunWithOptions OS E path env override) w)) = ?all"
    by (simp add: b(2) d(2) e(2) f(2) g(2))
  have same: "ck_Section ` set cs = {sec}" if "cs \<noteq> []" "\<And>c. c \<in> set cs \<Longrightarrow> ck_Section c = sec" for cs sec
    using that by (cases cs) auto
  have "ck_Section ` set (rs_Checks r1) = {''Config''}" "ck_Section ` set b = {''Process''}"
    "ck_Section ` set d = {''ListenAddr''}" "ck_Section ` set e = {''ICMP''}" "ck_Section ` set f = {''MTU''}"
    "ck_Section ` set g = {''DNS''}"
    using s1 b(1,3) d(1,3) e(1,3) f(1,3) g(1,3) by (intro same; blast)+
  then have "ck_Section ` set ?all = set sectionOrder"
    unfolding set_append image_Un by (simp add: sectionOrder_def insert_commute)
  with sections_of_segments [OF s1(2) b(3) d(3) e(3) f(3) g(3) all] Inr all show ?thesis by (simp add: Let_def)
qed

text \<open>
  The format of a call of \<^verbatim>\<open>Fprintf\<close>, the formats of the lines of a check, and the calls that show a check:
  severity and name, then the detail and the hint if there are any.
\<close>

fun printf_format :: "goerr \<Rightarrow> string" where
  "printf_format (Errorf f args) = f"
| "printf_format (SysErr s) = s"

definition check_formats :: "string set" where
  "check_formats = {''  [%s] %s'', '': %s'', ''    hint: %s'' @ [CHR 10]}"

definition heading_format :: string where
  "heading_format = ''%s:'' @ nl"

definition shows_check :: "Check \<Rightarrow> goerr list" where
  "shows_check c =
     Errorf ''  [%s] %s'' [FStr (severity_text (ck_Severity c)), FStr (ck_Name c)]
     # (if no_text (ck_Detail c) then [] else [Errorf '': %s'' [FErr (ck_Detail c)]])
     @ (if ck_Hint c = [] then [] else [Errorf (''    hint: %s'' @ [CHR 10]) [FStr (ck_Hint c)]])"

lemma filter_check_text:
  "filter (\<lambda>e. printf_format e \<in> check_formats) (check_text c) = shows_check c"
  "filter (\<lambda>e. printf_format e = heading_format) (check_text c) = []"
  by (simp_all add: check_text_def shows_check_def check_formats_def heading_format_def nl_def)

lemma filter_concat_check_text:
  "filter (\<lambda>e. printf_format e \<in> check_formats) (concat (map check_text cs)) = concat (map shows_check cs)"
  "filter (\<lambda>e. printf_format e = heading_format) (concat (map check_text cs)) = []"
  by (induction cs) (simp_all add: filter_check_text)

lemma filter_section_text:
  "filter (\<lambda>e. printf_format e \<in> check_formats) (section_text r sec) = concat (map shows_check (sectionChecks sec r))"
  "filter (\<lambda>e. printf_format e = heading_format) (section_text r sec) =
     (if sec \<in> ck_Section ` set (rs_Checks r) then [Errorf (heading_format) [FStr sec]] else [])"
proof -
  have n: "heading_format \<notin> check_formats" "nl \<notin> check_formats" "nl \<noteq> heading_format" by (auto simp: check_formats_def heading_format_def nl_def)
  show "filter (\<lambda>e. printf_format e \<in> check_formats) (section_text r sec) = concat (map shows_check (sectionChecks sec r))"
    by (simp add: section_text_def [folded heading_format_def] Let_def n filter_concat_check_text)
  have "sectionChecks sec r = [] \<longleftrightarrow> sec \<notin> ck_Section ` set (rs_Checks r)"
    by (auto simp: sectionChecks_def filter_empty_conv)
  then show "filter (\<lambda>e. printf_format e = heading_format) (section_text r sec) =
      (if sec \<in> ck_Section ` set (rs_Checks r) then [Errorf (heading_format) [FStr sec]] else [])"
    using n by (simp add: section_text_def [folded heading_format_def] Let_def filter_concat_check_text)
qed

lemma filter_sections:
  "filter (\<lambda>e. printf_format e \<in> check_formats) (concat (map (section_text r) secs)) =
     concat (map shows_check (concat (map (\<lambda>sec. sectionChecks sec r) secs)))"
  "filter (\<lambda>e. printf_format e = heading_format) (concat (map (section_text r) secs)) =
     map (\<lambda>sec. Errorf (heading_format) [FStr sec]) (filter (\<lambda>sec. sec \<in> ck_Section ` set (rs_Checks r)) secs)"
  by (induction secs) (simp_all add: filter_section_text)

lemma WriteText_shows:
  "filter (\<lambda>e. printf_format e \<in> check_formats) (WriteText r) =
     concat (map shows_check (concat (map (\<lambda>sec. sectionChecks sec r) sectionOrder)))"
  "filter (\<lambda>e. printf_format e = heading_format) (WriteText r) =
     map (\<lambda>sec. Errorf (heading_format) [FStr sec]) (filter (\<lambda>sec. sec \<in> ck_Section ` set (rs_Checks r)) sectionOrder)"
  "last (WriteText r) = Errorf ((if Result_OK r then ''Result: OK'' else ''Result: FAIL'') @ nl) []"
  unfolding WriteText_def filter_append filter_sections
  by (simp_all add: check_formats_def heading_format_def nl_def filter_empty_conv)


section \<open>The verdict\<close>

text \<open>
  A host, with the answers it gives to the doctor: files, groups, whether an address can be bound and
  whether the two kinds of socket can be opened (\<open>None\<close> on a platform without them).
\<close>

record host =
  h_ReadFile :: "string \<Rightarrow> string res"
  h_uid :: int
  h_gid :: int
  h_groups :: "int list res"
  h_listen :: "string \<Rightarrow> goerr option"
  h_icmp :: "goerr option option"
  h_mtu :: "goerr option option"

definition host_env :: "host \<Rightarrow> 'w Env" where
  "host_env h =
     \<lparr>de_ReadFile = Some (\<lambda>p. ret (h_ReadFile h p)), de_Getuid = Some (ret (h_uid h)), de_Getgid = Some (ret (h_gid h)),
      de_Getgroups = Some (ret (h_groups h)), de_OpenUnprivilegedICMP = map_option ret (h_icmp h),
      de_CheckMTUPingSocket = map_option ret (h_mtu h), de_ListenTCP = Some (\<lambda>a. ret (h_listen h a))\<rparr>"

text \<open>The groups of the process are not known to be outside of the range that the kernel admits.\<close>

definition ping_admitted :: "host \<Rightarrow> bool" where
  "ping_admitted h \<longleftrightarrow>
     (\<forall>text a b. h_ReadFile h ''/proc/sys/net/ipv4/ping_group_range'' = Inr text \<and> parsePingGroupRange text = Inr (a, b) \<longrightarrow>
        (\<exists>gid \<in> insert (h_gid h) (case h_groups h of Inl _ \<Rightarrow> {} | Inr gs \<Rightarrow> set gs). a \<le> gid \<and> gid \<le> b))"

definition socket_fine :: "host \<Rightarrow> goerr option option \<Rightarrow> bool" where
  "socket_fine h answer \<longleftrightarrow> (case answer of None \<Rightarrow> True | Some err \<Rightarrow> ping_admitted h \<and> err = None)"

definition resolver_fine :: "host \<Rightarrow> bool" where
  "resolver_fine h \<longleftrightarrow> (\<exists>text. h_ReadFile h ''/etc/resolv.conf'' = Inr text \<and> parseNameservers text \<noteq> [])"

definition host_fits :: "host \<Rightarrow> string \<Rightarrow> TargetConfig list \<Rightarrow> bool" where
  "host_fits h addr targets \<longleftrightarrow> h_listen h addr = None
     \<and> (needs ProbeTypeICMP targets \<longrightarrow> socket_fine h (h_icmp h))
     \<and> (needs ProbeTypeMTU targets \<longrightarrow> socket_fine h (h_mtu h))
     \<and> ((\<exists>t \<in> set targets. tc_ProbeType t = ProbeTypeDNS \<and> po_DNSServer (tc_ProbeOpts t) = []) \<longrightarrow> resolver_fine h)"

lemma filled_host_env [simp]: "fillEnvDefaults OS (host_env h) = host_env h"
  by (simp add: fillEnvDefaults_def host_env_def)

lemma OK_add_check [simp]: "Result_OK (add_check sec name sev d hint r) \<longleftrightarrow> Result_OK r \<and> sev \<noteq> Fail"
  by (simp add: Result_OK_def add_check_def)

lemma OK_checks:
  "Result_OK (fst (run_state (checkProcess (host_env h) r) w)) \<longleftrightarrow> Result_OK r"
  "Result_OK (fst (run_state (checkListenAddr (host_env h) addr r) w)) \<longleftrightarrow> Result_OK r \<and> h_listen h addr = None"
  "Result_OK (fst (run_state (checkPingGroupRange (host_env h) sec r) w)) \<longleftrightarrow> Result_OK r \<and> ping_admitted h"
proof -
  show "Result_OK (fst (run_state (checkProcess (host_env h) r) w)) \<longleftrightarrow> Result_OK r"
    "Result_OK (fst (run_state (checkListenAddr (host_env h) addr r) w)) \<longleftrightarrow> Result_OK r \<and> h_listen h addr = None"
    by (auto simp: checkProcess_def checkListenAddr_def host_env_def split: sum.splits option.splits)
  have g: "anyGIDInRange (uniqueInts gids) a b \<longleftrightarrow> (\<exists>gid \<in> set gids. a \<le> gid \<and> gid \<le> b)" for gids a b
    by (simp add: anyGIDInRange_def list_ex_iff uniqueInts_set)
  show "Result_OK (fst (run_state (checkPingGroupRange (host_env h) sec r) w)) \<longleftrightarrow> Result_OK r \<and> ping_admitted h"
    by (auto simp: checkPingGroupRange_def host_env_def range_verdict_def ping_admitted_def g
        split: sum.splits prod.splits)
qed

lemma OK_sockets:
  "Result_OK (fst (run_state (checkICMP (host_env h) r) w)) \<longleftrightarrow>
     Result_OK r \<and> (target_count r ProbeTypeICMP \<noteq> 0 \<longrightarrow> socket_fine h (h_icmp h))"
  "Result_OK (fst (run_state (checkMTU (host_env h) r) w)) \<longleftrightarrow>
     Result_OK r \<and> (target_count r ProbeTypeMTU \<noteq> 0 \<longrightarrow> socket_fine h (h_mtu h))"
proof -
  have s: "Result_OK (socket_verdict sec name err r1) \<longleftrightarrow> Result_OK r1 \<and> err = None" for sec name err r1
    by (simp add: socket_verdict_def split: option.splits)
  have e: "de_OpenUnprivilegedICMP (host_env h :: 'a Env) = map_option ret (h_icmp h)"
    "de_CheckMTUPingSocket (host_env h :: 'a Env) = map_option ret (h_mtu h)" by (simp_all add: host_env_def)
  have b: "Result_OK (fst (run_state (do { r1 \<leftarrow> checkPingGroupRange (host_env h) sec r; err \<leftarrow> ret err0; ret (socket_verdict sec name err r1) }) w))
      \<longleftrightarrow> Result_OK r \<and> ping_admitted h \<and> err0 = None" for sec name err0 and w :: 'a
    using OK_checks(3) [of h sec r w] by (cases "run_state (checkPingGroupRange (host_env h) sec r) w") (auto simp: s)
  show "Result_OK (fst (run_state (checkICMP (host_env h) r) w)) \<longleftrightarrow>
     Result_OK r \<and> (target_count r ProbeTypeICMP \<noteq> 0 \<longrightarrow> socket_fine h (h_icmp h))"
  proof (cases "target_count r ProbeTypeICMP = 0 \<or> h_icmp h = None")
    case True
    then show ?thesis by (auto simp: checkICMP_def socket_fine_def e)
  next
    case False
    then obtain err0 where "h_icmp h = Some err0" by auto
    with False show ?thesis unfolding checkICMP_def e using b [of "''ICMP''" err0 "''unprivileged socket''" w]
      by (simp add: socket_fine_def del: run_state_bind)
  qed
  show "Result_OK (fst (run_state (checkMTU (host_env h) r) w)) \<longleftrightarrow>
     Result_OK r \<and> (target_count r ProbeTypeMTU \<noteq> 0 \<longrightarrow> socket_fine h (h_mtu h))"
  proof (cases "target_count r ProbeTypeMTU = 0 \<or> h_mtu h = None")
    case True
    then show ?thesis by (auto simp: checkMTU_def socket_fine_def e)
  next
    case False
    then obtain err0 where "h_mtu h = Some err0" by auto
    with False show ?thesis unfolding checkMTU_def e using b [of "''MTU''" err0 "''ping socket + PMTUDISC''" w]
      by (simp add: socket_fine_def del: run_state_bind)
  qed
qed

lemma OK_dns:
  "Result_OK (fst (run_state (checkDNS (host_env h) ts r) w)) \<longleftrightarrow> Result_OK r \<and>
     ((\<exists>t \<in> set ts. tc_ProbeType t = ProbeTypeDNS \<and> po_DNSServer (tc_ProbeOpts t) = []) \<longrightarrow> resolver_fine h)"
proof -
  have f: "(length (filter P ts) = 0) \<longleftrightarrow> \<not> (\<exists>t \<in> set ts. P t)" for P by (auto simp: filter_empty_conv)
  show ?thesis
    by (auto simp: checkDNS_def countDNSTargets_eq host_env_def resolver_fine_def Let_def filter_empty_conv f
        split: sum.splits if_splits)
qed

text \<open>
  C29: the exit code of the doctor. It is 0 exactly if the configuration loads and the host fits it: the address
  of the configuration, or the one of the command line, can be bound; if there are ICMP or MTU targets and the
  platform has the socket, the socket opens and no readable range of groups excludes all groups of the process; and if a
  DNS target has no server of its own, the system resolver has a name server. Warnings do not count.
\<close>

theorem doctor_verdict:
  "snd (fst (run_state (run_doctor OS E path (host_env h) override) w)) = 0 \<longleftrightarrow>
    (\<exists>cfg. LoadConfig E path = Inr cfg \<and>
      host_fits h (if override = [] then ac_ListenAddr (cf_Agent cfg) else override) (elems (cf_Targets cfg)))"
proof (cases "LoadConfig E path")
  case (Inl e)
  then show ?thesis by (simp add: run_doctor_def RunWithOptions_def Let_def)
next
  case (Inr cfg)
  let ?env = "host_env h :: 'a Env" and ?ts = "elems (cf_Targets cfg)"
  let ?addr = "if override = [] then ac_ListenAddr (cf_Agent cfg) else override"
  define r1 where "r1 = add_check ''Config'' ''load config'' Pass (Errorf ''targets=%d'' [FInt (int (length ?ts))]) []
     (\<lparr>rs_ConfigPath = path, rs_TargetCounts = foldl count_target (Some []) ?ts, rs_Checks = []\<rparr>)"
  obtain r2 w2 where c2: "run_state (checkProcess ?env r1) w = (r2, w2)" by force
  obtain r3 w3 where c3: "run_state (checkListenAddr ?env ?addr r2) w2 = (r3, w3)" by force
  obtain r4 w4 where c4: "run_state (checkICMP ?env r3) w3 = (r4, w4)" by force
  obtain r5 w5 where c5: "run_state (checkMTU ?env r4) w4 = (r5, w5)" by force
  obtain r6 w6 where c6: "run_state (checkDNS ?env ?ts r5) w5 = (r6, w6)" by force
  have n: "target_count r ty = 0 \<longleftrightarrow> \<not> needs ty ?ts" if "rs_TargetCounts r = foldl count_target (Some []) ?ts" for r ty
    using counted_iff_needed [of ?ts ty] that by (simp add: target_count_def count_of_def)
  have t: "rs_TargetCounts r1 = foldl count_target (Some []) ?ts" by (simp add: r1_def add_check_def)
  have "rs_TargetCounts r3 = rs_TargetCounts r1" "rs_TargetCounts r4 = rs_TargetCounts r1"
    using alwaysD [OF checks_add(1) [where env = ?env and r = r1], of w]
      alwaysD [OF checks_add(2) [where env = ?env and addr = ?addr and r = r2], of w2]
      alwaysD [OF socket_checks_add(1) [where env = ?env and r = r3], of w3] c2 c3 c4 by (simp_all add: adds_def)
  with n t have k: "target_count r3 ProbeTypeICMP = 0 \<longleftrightarrow> \<not> needs ProbeTypeICMP ?ts"
    "target_count r4 ProbeTypeMTU = 0 \<longleftrightarrow> \<not> needs ProbeTypeMTU ?ts" by simp_all
  have "Result_OK r1" by (simp add: r1_def) (simp add: Result_OK_def)
  then have "Result_OK r6 \<longleftrightarrow> host_fits h ?addr ?ts"
    using OK_checks(1) [of h r1 w] OK_checks(2) [of h ?addr r2 w2] OK_sockets(1) [of h r3 w3] OK_sockets(2) [of h r4 w4]
      OK_dns [of h ?ts r5 w5] c2 c3 c4 c5 c6 k by (simp add: host_fits_def)
  moreover have "run_state (RunWithOptions OS E path ?env override) w = (r6, w6)"
    using c2 c3 c4 c5 c6 Inr by (cases "override = []") (simp_all add: RunWithOptions_def Let_def r1_def)
  ultimately show ?thesis using Inr by (simp add: run_doctor_def)
qed

text \<open>The check of the MTU socket leaves no descriptor open.\<close>

lemma checkMTUPingSocket_closes:
  assumes "socket_laws N S V B" and "run_state (checkMTUPingSocket S) w = (r, w')"
  shows "mv_open (V w') = mv_open (V w)"
proof -
  obtain sock w1 where s: "run_state (sk_Socket S) w = (sock, w1)" by force
  have l: "case sock of Inl _ \<Rightarrow> mv_open (V w1) = mv_open (V w)
      | Inr fd \<Rightarrow> fd \<notin> mv_open (V w) \<and> mv_open (V w1) = insert fd (mv_open (V w))"
    using assms(1) s unfolding socket_laws_def by blast
  have q: "quiet V (sk_SetsockoptInt S fd a b c)" for fd a b c using assms(1) by (simp add: socket_laws_def)
  show ?thesis
  proof (cases sock)
    case (Inl e)
    with assms(2) s l show ?thesis by (simp add: checkMTUPingSocket_def)
  next
    case (Inr fd)
    obtain e1 w2 where o1: "run_state (sk_SetsockoptInt S fd IPPROTO_IP IP_RECVERR 1) w1 = (e1, w2)" by force
    obtain e2 w3 where o2: "run_state (sk_SetsockoptInt S fd IPPROTO_IP IP_MTU_DISCOVER IP_PMTUDISC_PROBE) w2 = (e2, w3)" by force
    have m: "mv_open (V w2) = mv_open (V w1)" "mv_open (V w3) = mv_open (V w1)"
      using quietD [OF q o1] quietD [OF q o2] by (simp_all add: went_def)
    have "\<exists>v u. run_state (sk_Close S fd) v = (u, w') \<and> mv_open (V v) = mv_open (V w1)"
      using assms(2) s Inr o1 o2 m by (cases e1) (auto simp: checkMTUPingSocket_def split: prod.splits)
    then show ?thesis using closed_again [OF assms(1)] l Inr by fastforce
  qed
qed

end
