(* ===== verification/Config_Merge.thy ===== *)
theory Config_Merge
  imports Config_Facts
begin

text \<open>
  \<^verbatim>\<open>tools/configmerge/main.go\<close>: the tool that joins the targets of two configurations. The YAML encoder and the
  file system are parameters: writing a file gives the environment that the last load reads.
\<close>

definition merge_configs :: "Config \<Rightarrow> Config \<Rightarrow> Config" where
  "merge_configs base overlay = base\<lparr>cf_Targets := Some (elems (cf_Targets base) @ elems (cf_Targets overlay))\<rparr>"

text \<open>The exit code of the tool.\<close>

definition configmerge ::
  "cfg_env \<Rightarrow> (Config \<Rightarrow> string res) \<Rightarrow> (string \<Rightarrow> string \<Rightarrow> cfg_env res) \<Rightarrow> string \<Rightarrow> string \<Rightarrow> string \<Rightarrow> int" where
  "configmerge E Marshal WriteFile basePath overlayPath outPath =
     (if basePath = [] \<or> overlayPath = [] \<or> outPath = [] then 2
      else case LoadConfig E basePath of
        Inl _ \<Rightarrow> 1
      | Inr base \<Rightarrow>
          (case LoadConfig E overlayPath of
             Inl _ \<Rightarrow> 1
           | Inr overlay \<Rightarrow>
               (case Marshal (merge_configs base overlay) of
                  Inl _ \<Rightarrow> 1
                | Inr data \<Rightarrow>
                    (case WriteFile outPath data of
                       Inl _ \<Rightarrow> 1
                     | Inr E' \<Rightarrow> (case LoadConfig E' outPath of Inl _ \<Rightarrow> 1 | Inr _ \<Rightarrow> 0)))))"

text \<open>What the tool needs of the encoder: the names, the proxies of targets and the keys of the registry come back.\<close>

definition reads_back :: "cfg_env \<Rightarrow> string \<Rightarrow> string \<Rightarrow> Config \<Rightarrow> bool" where
  "reads_back E' path data cfg \<longleftrightarrow> env_ReadFile E' path = ReadOk data \<and>
     (\<forall>c. env_LoadYAML E' data = Inr c \<longrightarrow> mok (cf_Proxies c) \<and> set (mkeys (cf_Proxies c)) = set (mkeys (cf_Proxies cfg))
        \<and> map (\<lambda>t. (tc_Name t, tc_ProxyName t)) (elems (cf_Targets c)) = map (\<lambda>t. (tc_Name t, tc_ProxyName t)) (elems (cf_Targets cfg)))"

lemma defaults_names:
  "map (\<lambda>t. (tc_Name t, tc_ProxyName t)) (elems (cf_Targets (applyDefaults c))) = map (\<lambda>t. (tc_Name t, tc_ProxyName t)) (elems (cf_Targets c))"
  by (cases "cf_Targets c") (simp_all add: applyDefaults_def apply_target_defaults_def Let_def)

lemma loaded_proxy_known:
  assumes "validate E c = Inr cfg" "mok (cf_Proxies c)" "t \<in> set (elems (cf_Targets c))" "tc_ProxyName t \<noteq> []"
  shows "tc_ProxyName t \<in> set (mkeys (cf_Proxies c))"
proof -
  note v = validate_result [OF assms(1,2)]
  from v(2) assms(3) obtain t' where "proxy_attached (cf_Proxies cfg) t t'"
    unfolding list_all2_conv_all_nth in_set_conv_nth by metis
  with assms(4) obtain p where "mget (cf_Proxies cfg) (tc_ProxyName t) = Some p" by (auto simp: proxy_attached_def)
  with spec [OF v(3) [unfolded registry_of_def], of "tc_ProxyName t"] have "mget (cf_Proxies c) (tc_ProxyName t) \<noteq> None"
    by (auto split: option.splits)
  then show ?thesis by (simp add: mget_None_iff)
qed

text \<open>
  The tool succeeds only if no two targets of both files share a name and every proxy of a target is in the
  registry of the base file: the proxies of the overlay are dropped, so an overlay that loads by itself
  and uses a proxy of its own never merges.
\<close>

lemma configmerge_needs_base_proxies:
  assumes "configmerge E Marshal WriteFile basePath overlayPath outPath = 0"
    and "LoadConfig E basePath = Inr base" "LoadConfig E overlayPath = Inr overlay"
    and "\<And>data E'. Marshal (merge_configs base overlay) = Inr data \<Longrightarrow> WriteFile outPath data = Inr E' \<Longrightarrow>
      reads_back E' outPath data (merge_configs base overlay)"
  shows "distinct (map tc_Name (elems (cf_Targets base) @ elems (cf_Targets overlay)))
    \<and> (\<forall>t \<in> set (elems (cf_Targets overlay)). tc_ProxyName t = [] \<or> tc_ProxyName t \<in> set (mkeys (cf_Proxies base)))"
proof -
  let ?m = "merge_configs base overlay" and ?np = "\<lambda>t. (tc_Name t, tc_ProxyName t)"
  obtain data E' cfg where o1: "Marshal ?m = Inr data" "WriteFile outPath data = Inr E'" "LoadConfig E' outPath = Inr cfg"
    using assms(1-3) by (auto simp: configmerge_def split: if_splits sum.splits)
  from assms(4) [OF o1(1,2)] have rb: "reads_back E' outPath data ?m" .
  from o1(3) obtain d c where c: "env_ReadFile E' outPath = ReadOk d" "env_LoadYAML E' d = Inr c" "validate E' (applyDefaults c) = Inr cfg"
    by (rule LoadConfigE)
  with rb have r: "mok (cf_Proxies c)" "set (mkeys (cf_Proxies c)) = set (mkeys (cf_Proxies base))"
    "map ?np (elems (cf_Targets c)) = map ?np (elems (cf_Targets base) @ elems (cf_Targets overlay))"
    by (auto simp: reads_back_def merge_configs_def)
  have np: "map ?np (elems (cf_Targets (applyDefaults c))) = map ?np (elems (cf_Targets base) @ elems (cf_Targets overlay))"
    using r(3) defaults_names by simp
  from arg_cong [OF np, of "map fst"] have "map tc_Name (elems (cf_Targets (applyDefaults c)))
      = map tc_Name (elems (cf_Targets base) @ elems (cf_Targets overlay))" by (simp add: comp_def)
  with validate_result(5) [OF c(3)] r(1) have "distinct (map tc_Name (elems (cf_Targets base) @ elems (cf_Targets overlay)))" by simp
  moreover have "tc_ProxyName t = [] \<or> tc_ProxyName t \<in> set (mkeys (cf_Proxies base))" if "t \<in> set (elems (cf_Targets overlay))" for t
  proof -
    from that have "?np t \<in> ?np ` set (elems (cf_Targets (applyDefaults c)))"
      using arg_cong [OF np, of set] by auto
    then obtain t' where "t' \<in> set (elems (cf_Targets (applyDefaults c)))" "tc_ProxyName t' = tc_ProxyName t" by auto
    with loaded_proxy_known [OF c(3)] r(1,2) show ?thesis by force
  qed
  ultimately show ?thesis by blast
qed

end
