(* ===== verification/Spec2Isabelle.thy ===== *)
theory Spec2Isabelle
  imports Metrics_Refine Agent Doctor Config_Merge
begin

text \<open>
  \<^bold>\<open>NetSonar.\<close> The agent (\<^verbatim>\<open>cmd/agent\<close>) loads a YAML file, runs one prober per target on a schedule, and serves the
  results to Prometheus; SIGHUP reloads the file. This development models the Go sources under \<^verbatim>\<open>cmd\<close>,
  \<^verbatim>\<open>internal\<close> and \<^verbatim>\<open>tools\<close> as executable definitions with the names of the source, one or more theories per package.

  \<^bold>\<open>How code is modelled.\<close> A Go struct is a record, an error or a panic a value (\<open>goerr\<close>, \<open>None\<close>), an \<^verbatim>\<open>int\<close> or
  a duration an \<open>int\<close> that wraps where an operation can leave 64 bits, bytes of the wire are words. Code that reads the
  clock, the context, sockets or files is a program of the state monad over an arbitrary world, and the calls to the
  outside are fields of records that the definitions take (\<open>net_ops\<close>, \<open>wire_ops\<close>, \<open>client_ops\<close>, \<open>packet_ops\<close>,
  \<open>socket_ops\<close>, \<open>os_ops\<close>, \<open>cfg_env\<close>, \<open>vec_ops\<close>). A theorem that needs something of them says so, in predicates of
  documented behaviour (\<open>wire_laws\<close>, \<open>ping_laws\<close>, \<open>socket_laws\<close>, \<open>vec_laws\<close>, \<open>uri_reparses\<close>), and its witness gives
  a concrete world that has it. The scheduler and the agent, where goroutines interleave, are step relations.

  \<^bold>\<open>What is seen of the world.\<close> Where a theorem says what a probe did rather than what it returned, a view of the world
  records it, and the predicate of the calls says what each call adds: \<open>monitor\<close> (open connections, the address of each
  dial, each request with the address and the TLS layers it was written through), \<open>observation\<close> (the last handshake
  with its outcome, the certificates, the last response and what was read of its body), \<open>ping_view\<close>, \<open>mtu_view\<close> (clock,
  packets read, descriptors) and the set of open connections of \<open>conn_laws\<close>.

  \<^bold>\<open>Goroutines.\<close> Besides those of the scheduler there are the ones of \<^verbatim>\<open>dialTCPHappyEyeballs\<close>: the two workers, which
  \<open>await_first\<close> interleaves until one delivers a connection (\<open>race\<close> is both of them to their end, of which
  \<open>await_first\<close> is a prefix), and the one that the winner leaves behind, \<open>background\<close>, which waits for the other worker
  and closes its connection. It moves between the calls of the prober (\<open>meanwhile\<close>) and after it (\<open>finish\<close>). What the cancelled
  context (\<open>op_Cancel\<close>) does to a dial is up to the network. The wait group of the scheduler is its counter \<open>s_wg\<close>.

  \<^bold>\<open>Theories and sources.\<close>
  \<^item> \<open>Go_Prelude\<close>, \<open>Go_Net\<close>: the Go runtime: errors, strings, maps, integers, the monad with its rules for results
    (\<open>always\<close>) and worlds (\<open>triple\<close>); host and port, IP literals.
  \<^item> \<open>Config_Types\<close>, \<open>Config_Defaults\<close>, \<open>Config_Validate\<close>, \<open>Config_Target\<close>, \<open>Config_Load\<close>:
    \<^verbatim>\<open>internal/config/config.go\<close>, with \<open>Proxy_URL\<close> for \<^verbatim>\<open>internal/proxyurl\<close>. \<open>Config_Facts\<close>: what an
    accepted configuration satisfies. \<open>Config_Hash\<close>: \<^verbatim>\<open>hash.go\<close>, JSON documents, hashes and \<^verbatim>\<open>Equal\<close>.
    \<open>Config_Merge\<close>: \<^verbatim>\<open>tools/configmerge\<close>.
  \<^item> \<open>Probe_Result\<close>: \<^verbatim>\<open>internal/probe/prober.go\<close>, results, phases, resolving and the race of dials. \<open>Probe_TCP\<close>,
    \<open>Probe_DNS\<close>: \<^verbatim>\<open>tcp.go\<close>, \<^verbatim>\<open>dns.go\<close>. \<open>Probe_ICMP\<close> and \<open>Probe_Ping\<close>: \<^verbatim>\<open>icmp.go\<close>, the sequence of echoes and
    the sending of one. \<open>Probe_MTU\<close> and \<open>Probe_MTU_Linux\<close>: \<^verbatim>\<open>mtu.go\<close> and its back ends. \<open>Probe_Conn\<close>: what the
    sources use of \<^verbatim>\<open>net/http\<close> and of connections. \<open>Probe_Proxy\<close>: \<^verbatim>\<open>proxy_tunnel.go\<close>, \<^verbatim>\<open>proxy_endpoint.go\<close>,
    \<^verbatim>\<open>proxy.go\<close>. \<open>Probe_TLS\<close>: \<^verbatim>\<open>tls_cert.go\<close>. \<open>Probe_HTTP\<close>, \<open>Probe_HTTP_Facts\<close>: \<^verbatim>\<open>http.go\<close>, \<^verbatim>\<open>http_trace.go\<close>,
    \<^verbatim>\<open>http_proxy_path.go\<close>. \<open>Probe_HTTP_Body\<close>: \<^verbatim>\<open>http_body.go\<close>. \<open>Probers\<close>: the choice of a prober and the interface
    \<^verbatim>\<open>Prober\<close> over all of them.
  \<^item> \<open>Metrics\<close>, \<open>Metrics_Refine\<close>: \<^verbatim>\<open>internal/metrics\<close>, and the abstract view of one target that it refines.
  \<^item> \<open>Scheduler\<close>, \<open>Scheduler_Run\<close>, \<open>Scheduler_Facts\<close>: \<^verbatim>\<open>internal/scheduler\<close>, its functions, the step relation
    of the table, the goroutines and the exporter, and runs.
  \<^item> \<open>Agent\<close>: \<^verbatim>\<open>cmd/agent/main.go\<close> over the running scheduler. \<open>Doctor\<close>: \<^verbatim>\<open>internal/doctor\<close> and \<^verbatim>\<open>--doctor\<close>.

  \<^bold>\<open>Interfaces.\<close> The locales are the contracts between the parts, each interpreted on the model: \<open>prober\<close> and
  \<open>partial_prober\<close> (a result has an error exactly if it is no success, and only known phases), which all eight
  probers provide and the scheduler and the exporter rely on; \<open>mtu_backend\<close> (an answer carries the size that was asked),
  provided by the Linux back end and the one of other systems; \<open>echo_sender\<close> (an answered echo was sent), provided by
  \<^verbatim>\<open>sendEcho\<close>. The metric vectors of the Prometheus client are the record \<open>vec_ops\<close> with the laws \<open>vec_laws\<close>.

  \<^bold>\<open>What is shown.\<close>
  \<^item> Configuration: accepted files have unique names, well-formed targets, resolved proxies and bounded tag keys; hashes
    and \<^verbatim>\<open>Equal\<close> see every field but credentials; the JSON round trip; the panics and the silent loss that validation lets
    through.
  \<^item> Scheduler: at most one goroutine per name in every interleaving, outside of a reload exactly the configured targets
    run, unchanged targets are not interrupted, the wait group counts the goroutines so that none is left after \<^verbatim>\<open>Stop\<close>, and
    from every state the calls can run to completion; and a run that leaves a stale series.
  \<^item> Agent: it runs the last accepted configuration whenever it waits; probes of a loaded file start without a panic and
    keep the contract; an override of the address blocks every reload.
  \<^item> Exporter: it refines an abstract view per target, calls carry the right labels, a removed target leaves nothing.
  \<^item> Probers: success is characterised for DNS, HTTP, HTTP body, CONNECT, TLS, ICMP and MTU, for HTTP and TLS against the
    response, the reading of the body and the handshake; connections and descriptors are closed on every path, but for the
    slower connection of a TCP race, which the goroutine left behind closes, possibly after the probe; a proxied probe
    dials the address of the proxy only and keeps the credentials of the proxy from the target; at most ten
    exchanges per probe; loops return.
  \<^item> Doctor: the exit code is 0 exactly if the host can do what the targets need, where a platform without a socket counts
    as fit (the doctor warns), and the printed report shows every check once.

  \<^bold>\<open>Bounds and fuel.\<close> The race of two dials takes as many moves as the workers have work left (\<open>work_left\<close>), the goroutine
  it leaves behind at most \<open>bg_left\<close>: the moves of the other worker and one for each outcome to close. The loop over
  redirects counts down from \<^verbatim>\<open>proxyRedirectLimit\<close>, retries and echoes count their configured numbers. The loops
  that read replies (\<open>read_replies\<close>, \<open>poll_loop\<close>, \<open>drainMTUErrorQueue\<close>) get fuel, and \<open>None\<close> is a loop that still runs:
  \<open>sendEcho_returns\<close> and \<open>probePingSocket_returns\<close> show that as much fuel as nanoseconds are left until the deadline, and for
  the error queue one more than its length, always gives a result.

  \<^bold>\<open>Not modelled.\<close> Parsing of YAML, URIs, regular expressions and ICMP messages, TLS, HTTP/1.1 on the wire, \<^verbatim>\<open>http.Client\<close> and
  the Prometheus client are third-party or library code and are parameters. Flag parsing, log handlers and their texts,
  signal delivery and the HTTP server around the handlers are outside, as are documentation, dashboards, examples and tests.
  Floating-point round-trip statistics are real numbers. Strings are taken to be valid UTF-8: the replacement of other bytes by
  \<^verbatim>\<open>json.Marshal\<close> is the identity here, and \<^verbatim>\<open>strings.ToLower\<close> is that of ASCII. Registration of a metric succeeds for
  label names of the classic Prometheus grammar (\<open>vec_laws\<close>); the client also takes UTF-8 names, which validation
  of tag keys excludes.
\<close>

section \<open>The MTU prober of a loaded configuration on Linux\<close>

text \<open>
  The parts together: for an MTU target of a loaded file and the back end of Linux, the path MTU is -1 or one of
  the configured sizes plus the 28 bytes of the headers, and the probe succeeds exactly if it is at least the expected one.
\<close>

lemma loaded_mtu_sizes:
  assumes "yaml_ok E" and "LoadConfig E path = Inr cfg" and "t \<in> set (elems (cf_Targets cfg))" and "tc_ProbeType t = ProbeTypeMTU"
    and "hd (elems (po_ICMPPayloadSizes (tc_ProbeOpts t))) < 2 ^ 63 - 28"
  shows "sizes_ok (elems (po_ICMPPayloadSizes (tc_ProbeOpts t))) \<and> 0 < po_ExpectedMinMTU (tc_ProbeOpts t)"
proof -
  have "target_ok t" using loaded_config(3) [OF assms(1,2)] assms(3) by blast
  with assms(4) have m: "mtu_opts_ok t" by (simp add: target_ok_def opts_ok_def Let_def)
  have "s \<le> hd xs" if "sorted_wrt (>) xs" "s \<in> set xs" for s and xs :: "int list"
    using that by (cases xs) auto
  with m assms(5) show ?thesis unfolding mtu_opts_ok_def sizes_ok_def Let_def by (meson le_less_trans)
qed

lemma linux_path_mtu:
  assumes "yaml_ok E" and "LoadConfig E path = Inr cfg" and "t \<in> set (elems (cf_Targets cfg))" and "tc_ProbeType t = ProbeTypeMTU"
    and "hd (elems (po_ICMPPayloadSizes (tc_ProbeOpts t))) < 2 ^ 63 - 28"
    and "r = fst (run_state (MTU_Probe N (pingSocketMTUBackend M N' S q fuel WithTimeout) t) w)"
  shows "(pr_PathMTU r = -1 \<or> (\<exists>s \<in> set (elems (po_ICMPPayloadSizes (tc_ProbeOpts t))). pr_PathMTU r = s + 28))
    \<and> (pr_Success r \<longleftrightarrow> pr_PathMTU r \<noteq> -1 \<and> po_ExpectedMinMTU (tc_ProbeOpts t) \<le> pr_PathMTU r)"
proof -
  note s = loaded_mtu_sizes [OF assms(1-5)]
  have "mtu_ok (elems (po_ICMPPayloadSizes (tc_ProbeOpts t))) (po_ExpectedMinMTU (tc_ProbeOpts t)) r"
    unfolding assms(6) MTU_Probe_def
    by (rule alwaysD, rule always_bindT, rule always_bind [OF linux.body_ok [OF conjunct1 [OF s]]], rule always_bindT,
        rule always_ret) (auto simp: mtu_ok_def result_ok_def)
  with s show ?thesis unfolding mtu_ok_def by auto
qed

end
